(* ===== verification/Prelude.thy ===== *)
theory Prelude
  imports Main "HOL-Library.Code_Target_Nat" "HOL-Library.Char_ord" "HOL-Library.List_Lexorder" "HOL-Library.Multiset"
begin

text \<open>
  What every component of the development shares: the names of the model's basic types, the
  part of Go's \<^verbatim>\<open>strings\<close>, \<^verbatim>\<open>strconv\<close> and \<^verbatim>\<open>sort\<close> packages the
  sources use, the loop that appends the values not seen yet, and the interfaces that are
  not tied to one component (\<open>seen_merge\<close>, \<open>guarded_system\<close>, \<open>growing_table\<close>, \<open>temporal_table\<close>).

  Strings are Go strings of single-byte characters (\<open>char list\<close>); \<open>TrimSpace\<close>,
  \<open>ToUpper\<close> and \<open>ToLower\<close> are modelled on ASCII text.
\<close>

named_theorems go_defs \<open>definitions of the standard-library functions\<close>

section \<open>Types\<close>

text \<open>A UUID is a number; \<open>uuid.Nil\<close> is zero. An instant is a number of microseconds.\<close>

type_synonym uuid = nat
type_synonym instant = int
type_synonym 'a result = "string + 'a"

abbreviation (input) uuid_Nil :: uuid where
  "uuid_Nil \<equiv> 0"

abbreviation (input) seconds :: "int \<Rightarrow> int" where
  "seconds n \<equiv> n * 1000000"

section \<open>Characters and strings\<close>

definition code :: "char \<Rightarrow> nat" where
  [go_defs]: "code c = of_char c"

definition is_digit :: "char \<Rightarrow> bool" where
  [go_defs]: "is_digit c \<longleftrightarrow> 48 \<le> code c \<and> code c \<le> 57"

definition is_lower_alpha :: "char \<Rightarrow> bool" where
  [go_defs]: "is_lower_alpha c \<longleftrightarrow> 97 \<le> code c \<and> code c \<le> 122"

definition is_upper_alpha :: "char \<Rightarrow> bool" where
  [go_defs]: "is_upper_alpha c \<longleftrightarrow> 65 \<le> code c \<and> code c \<le> 90"

definition is_space :: "char \<Rightarrow> bool" where
  [go_defs]: "is_space c \<longleftrightarrow> code c \<in> {9, 10, 11, 12, 13, 32}"

definition TrimSpace :: "string \<Rightarrow> string" where
  [go_defs]: "TrimSpace s = rev (dropWhile is_space (rev (dropWhile is_space s)))"

definition to_upper :: "char \<Rightarrow> char" where
  [go_defs]: "to_upper c = (if is_lower_alpha c then char_of (code c - 32) else c)"

definition to_lower :: "char \<Rightarrow> char" where
  [go_defs]: "to_lower c = (if is_upper_alpha c then char_of (code c + 32) else c)"

definition ToUpper :: "string \<Rightarrow> string" where
  [go_defs]: "ToUpper s = map to_upper s"

definition ToLower :: "string \<Rightarrow> string" where
  [go_defs]: "ToLower s = map to_lower s"

fun HasPrefix :: "string \<Rightarrow> string \<Rightarrow> bool" where
  "HasPrefix s [] = True"
| "HasPrefix [] (p # ps) = False"
| "HasPrefix (c # s) (p # ps) = (c = p \<and> HasPrefix s ps)"

text \<open>\<open>strings.Index\<close>: the first position where the second string occurs.\<close>

fun str_index :: "string \<Rightarrow> string \<Rightarrow> nat option" where
  "str_index [] p = (if p = [] then Some 0 else None)"
| "str_index (c # s) p = (if HasPrefix (c # s) p then Some 0 else map_option Suc (str_index s p))"

definition TrimSuffix :: "string \<Rightarrow> string \<Rightarrow> string" where
  [go_defs]: "TrimSuffix s p =
     (if HasPrefix (rev s) (rev p) then take (length s - length p) s else s)"

text \<open>\<open>strings.ReplaceAll\<close> with a one-character pattern.\<close>

definition replace_char :: "char \<Rightarrow> string \<Rightarrow> string \<Rightarrow> string" where
  [go_defs]: "replace_char c r s = concat (map (\<lambda>x. if x = c then r else [x]) s)"

fun str_join :: "string \<Rightarrow> string list \<Rightarrow> string" where
  "str_join sep [] = []"
| "str_join sep [x] = x"
| "str_join sep (x # y # xs) = x @ sep @ str_join sep (y # xs)"

text \<open>\<open>strings.Split\<close> with a one-character separator.\<close>

fun split_on :: "char \<Rightarrow> string \<Rightarrow> string list" where
  "split_on c [] = [[]]"
| "split_on c (x # xs) = (if x = c then [] # split_on c xs
     else (case split_on c xs of p # ps \<Rightarrow> (x # p) # ps | [] \<Rightarrow> [[x]]))"

section \<open>Numbers and text\<close>

definition digit_val :: "char \<Rightarrow> nat" where
  [go_defs]: "digit_val c = code c - 48"

definition digits_val :: "string \<Rightarrow> nat" where
  [go_defs]: "digits_val s = foldl (\<lambda>n c. 10 * n + digit_val c) 0 s"

definition max_int64 :: int where
  "max_int64 = 9223372036854775807"

definition min_int64 :: int where
  "min_int64 = - 9223372036854775808"

text \<open>
  \<open>strconv.Atoi\<close> on a 64-bit platform: the value and whether the error is nil. A syntax error
  gives 0; a value out of range gives the nearest bound, with an error.
\<close>

definition Atoi :: "string \<Rightarrow> int \<times> bool" where
  [go_defs]: "Atoi s =
     (let neg = (case s of c # _ \<Rightarrow> c = CHR ''-'' | [] \<Rightarrow> False);
          ds = (case s of c # r \<Rightarrow> if c = CHR ''-'' \<or> c = CHR ''+'' then r else s | [] \<Rightarrow> s);
          n = (if neg then - int (digits_val ds) else int (digits_val ds))
      in if ds = [] \<or> \<not> list_all is_digit ds then (0, False)
         else if n > max_int64 then (max_int64, False)
         else if n < min_int64 then (min_int64, False)
         else (n, True))"

fun itoa_nat :: "nat \<Rightarrow> string" where
  "itoa_nat n = (if n < 10 then [char_of (48 + n)] else itoa_nat (n div 10) @ [char_of (48 + n mod 10)])"

declare itoa_nat.simps [simp del]

definition Itoa :: "int \<Rightarrow> string" where
  [go_defs]: "Itoa n = (if n < 0 then CHR ''-'' # itoa_nat (nat (- n)) else itoa_nat (nat n))"

lemma code_char_of: "n < 256 \<Longrightarrow> code (char_of n) = n"
  by (simp add: code_def)

lemma digit_val_char_of: "(n::nat) < 10 \<Longrightarrow> digit_val (char_of (48 + n)) = n"
  by (simp add: digit_val_def code_char_of)

lemma is_digit_char_of: "(n::nat) < 10 \<Longrightarrow> is_digit (char_of (48 + n))"
  by (simp add: is_digit_def code_char_of)

lemma digits_val_snoc: "digits_val (s @ [c]) = 10 * digits_val s + digit_val c"
  by (simp add: digits_val_def)

lemma itoa_nat_digits: "list_all is_digit (itoa_nat n)"
proof (induction n rule: itoa_nat.induct)
  case (1 n)
  then show ?case
    by (cases "n < 10") (simp_all add: itoa_nat.simps [of n] is_digit_char_of)
qed

lemma itoa_nat_nonempty [simp]: "itoa_nat n \<noteq> []"
  by (subst itoa_nat.simps) simp

lemma digits_val_itoa [simp]: "digits_val (itoa_nat n) = n"
proof (induction n rule: itoa_nat.induct)
  case (1 n)
  then show ?case
    by (cases "n < 10")
      (simp_all add: itoa_nat.simps [of n] digits_val_snoc digit_val_char_of digits_val_def [of "[_]"])
qed

lemma itoa_nat_inj: "itoa_nat m = itoa_nat n \<Longrightarrow> m = n"
  by (metis digits_val_itoa)

lemma itoa_nat_no_char: "\<not> is_digit c \<Longrightarrow> c \<notin> set (itoa_nat n)"
  using itoa_nat_digits [of n] by (auto simp: list_all_iff)

text \<open>Printing an integer and reading it back.\<close>

lemma itoa_nat_hd_digit: "is_digit (hd (itoa_nat n))"
  using itoa_nat_digits [of n] itoa_nat_nonempty [of n] by (cases "itoa_nat n") auto

lemma Atoi_itoa_nat: "int n \<le> max_int64 \<Longrightarrow> Atoi (itoa_nat n) = (int n, True)"
proof -
  assume n: "int n \<le> max_int64"
  obtain c r where cr: "itoa_nat n = c # r" by (cases "itoa_nat n") auto
  then have "is_digit c" using itoa_nat_hd_digit [of n] by simp
  then have "c \<noteq> CHR ''-''" "c \<noteq> CHR ''+''" by (auto simp: is_digit_def code_def)
  moreover have "- 9223372036854775808 \<le> int n" by simp
  ultimately show ?thesis
    using n cr itoa_nat_digits [of n] digits_val_itoa [of n]
    by (simp add: Atoi_def Let_def min_int64_def)
qed

section \<open>Appending what is not there yet\<close>

text \<open>
  The reference behaviour of the de-duplicating loops of the sources: keep the first list, then
  append each value of the second that has not been seen.
\<close>

fun append_new :: "'a list \<Rightarrow> 'a list \<Rightarrow> 'a list" where
  "append_new a [] = a"
| "append_new a (x # b) = append_new (if x \<in> set a then a else a @ [x]) b"

lemma set_append_new [simp]: "set (append_new a b) = set a \<union> set b"
  by (induction a b rule: append_new.induct) auto

lemma distinct_append_new [simp]: "distinct (append_new a b) = distinct a"
  by (induction a b rule: append_new.induct) auto

lemma append_new_prefix: "\<exists>c. append_new a b = a @ c \<and> set c \<subseteq> set b"
proof (induction a b rule: append_new.induct)
  case (1 a)
  then show ?case by simp
next
  case (2 a x b)
  then show ?case by (cases "x \<in> set a") fastforce+
qed

lemma append_new_append: "append_new (append_new a b) c = append_new a (b @ c)"
  by (induction b arbitrary: a) auto

lemma append_new_absorb: "set b \<subseteq> set a \<Longrightarrow> append_new a b = a"
  by (induction a b rule: append_new.induct) auto

lemma append_new_Nil [simp]: "append_new [] b = [] \<longleftrightarrow> b = []"
  by (metis append_new.simps(1) set_append_new set_empty sup_bot.left_neutral)

text \<open>
  The interface both de-duplicating merges of the program promise their callers: the result
  extends the first argument, holds exactly the union, and merging again changes nothing.
\<close>

locale seen_merge =
  fixes merge :: "'a list \<Rightarrow> 'a list \<Rightarrow> 'a list"
  assumes merge_ref: "merge a b = append_new a b"
begin

lemma merge_set: "set (merge a b) = set a \<union> set b"
  by (simp add: merge_ref)

lemma merge_distinct: "distinct a \<Longrightarrow> distinct (merge a b)"
  by (simp add: merge_ref)

lemma merge_extends: "\<exists>c. merge a b = a @ c"
  using append_new_prefix [of a b] by (auto simp: merge_ref)

lemma merge_idem: "merge (merge a b) b = merge a b"
  by (simp add: merge_ref append_new_absorb)

lemma fold_merge_set: "set (foldl merge a bs) = set a \<union> (\<Union>b \<in> set bs. set b)"
  by (induction bs arbitrary: a) (auto simp: merge_set)

lemma fold_merge_distinct: "distinct a \<Longrightarrow> distinct (foldl merge a bs)"
  by (induction bs arbitrary: a) (auto simp: merge_distinct)

end

section \<open>Systems that move step by step\<close>

text \<open>
  A component whose state changes by guarded steps, with an invariant every step keeps. The
  lemmas lift the one-step fact to every finite run.
\<close>

locale guarded_system =
  fixes step :: "'s \<Rightarrow> 's \<Rightarrow> bool" and inv :: "'s \<Rightarrow> bool"
  assumes step_inv: "inv s \<Longrightarrow> step s t \<Longrightarrow> inv t"
begin

lemma run_inv: "step\<^sup>*\<^sup>* s t \<Longrightarrow> inv s \<Longrightarrow> inv t"
  by (induction rule: rtranclp_induct) (auto intro: step_inv)

lemma run_keeps:
  assumes "step\<^sup>*\<^sup>* s t" and "inv s" and "P s"
    and "\<And>u v. inv u \<Longrightarrow> step u v \<Longrightarrow> P u \<Longrightarrow> P v"
  shows "P t"
  using assms(1)
proof (induction rule: rtranclp_induct)
  case base
  show ?case by (rule assms(3))
next
  case (step u v)
  from step.hyps(1) assms(2) have "inv u" by (rule run_inv)
  then show ?case using step assms(4) by blast
qed

lemma run_measure:
  fixes f :: "'s \<Rightarrow> nat"
  assumes "step\<^sup>*\<^sup>* s t" and "inv s" and "\<And>u v. inv u \<Longrightarrow> step u v \<Longrightarrow> f u \<le> f v"
  shows "f s \<le> f t"
  using run_keeps [OF assms(1,2), of "\<lambda>u. f s \<le> f u"] assms(3) by force

end

section \<open>Lists as tables\<close>

lemma append_sep_eq:
  "c \<notin> set xs \<Longrightarrow> c \<notin> set ys \<Longrightarrow> xs @ c # us = ys @ c # vs \<longleftrightarrow> xs = ys \<and> us = vs"
proof (induction xs arbitrary: ys)
  case Nil
  then show ?case by (cases ys) auto
next
  case (Cons x xs)
  then show ?case by (cases ys) auto
qed

text \<open>An \<^verbatim>\<open>UPDATE ... WHERE\<close> over a table held as a list of rows, and its row count.\<close>

definition update_where :: "('r \<Rightarrow> bool) \<Rightarrow> ('r \<Rightarrow> 'r) \<Rightarrow> 'r list \<Rightarrow> 'r list" where
  "update_where p f rows = map (\<lambda>r. if p r then f r else r) rows"

definition affected :: "('r \<Rightarrow> bool) \<Rightarrow> 'r list \<Rightarrow> nat" where
  "affected p rows = length (filter p rows)"

lemma length_update_where [simp]: "length (update_where p f rows) = length rows"
  by (simp add: update_where_def)

lemma set_update_where: "set (update_where p f rows) = (\<lambda>r. if p r then f r else r) ` set rows"
  by (simp add: update_where_def)

lemma map_update_where:
  "(\<And>r. p r \<Longrightarrow> g (f r) = g r) \<Longrightarrow> map g (update_where p f rows) = map g rows"
  by (simp add: update_where_def)

lemma affected_pos: "0 < affected p rows \<longleftrightarrow> (\<exists>r \<in> set rows. p r)"
  by (auto simp: affected_def filter_empty_conv)

lemma update_where_none: "\<not> (\<exists>r \<in> set rows. p r) \<Longrightarrow> update_where p f rows = rows"
  by (auto simp: update_where_def intro: map_idI)

text \<open>Rows found by a key that is unique in the table.\<close>

lemma distinct_key_unique:
  "distinct (map k rows) \<Longrightarrow> r \<in> set rows \<Longrightarrow> r' \<in> set rows \<Longrightarrow> k r = k r' \<Longrightarrow> r = r'"
  by (metis distinct_map inj_onD)

lemma find_key:
  "distinct (map k rows) \<Longrightarrow> r \<in> set rows \<Longrightarrow> find (\<lambda>x. k x = k r) rows = Some r"
  by (induction rows) (auto simp: image_iff)

section \<open>Rows that are inserted or refreshed\<close>

text \<open>
  \<^verbatim>\<open>INSERT ... ON CONFLICT (key) DO UPDATE\<close>: a row whose key is taken refreshes the row that has it,
  any other row is added. \<open>upsert_id\<close> is what \<^verbatim>\<open>RETURNING id\<close> yields.
\<close>

definition upsert :: "('r \<Rightarrow> 'k) \<Rightarrow> ('r \<Rightarrow> 'r) \<Rightarrow> 'r \<Rightarrow> 'r list \<Rightarrow> 'r list" where
  "upsert key refresh new rows =
     (if \<exists>r \<in> set rows. key r = key new then update_where (\<lambda>r. key r = key new) refresh rows else rows @ [new])"

definition upsert_id :: "('r \<Rightarrow> 'k) \<Rightarrow> ('r \<Rightarrow> uuid) \<Rightarrow> 'r \<Rightarrow> 'r list \<Rightarrow> uuid" where
  "upsert_id key ident new rows = (case find (\<lambda>r. key r = key new) rows of Some r \<Rightarrow> ident r | None \<Rightarrow> ident new)"

text \<open>
  A table has grown into another when each of its rows has a later version there. What a later
  version may change is the relation \<open>le\<close>.
\<close>

definition grown :: "('r \<Rightarrow> 'r \<Rightarrow> bool) \<Rightarrow> 'r list \<Rightarrow> 'r list \<Rightarrow> bool" where
  "grown le rows rows' \<longleftrightarrow> (\<forall>r \<in> set rows. \<exists>r' \<in> set rows'. le r r')"

locale growing_table =
  fixes key :: "'r \<Rightarrow> 'k" and le :: "'r \<Rightarrow> 'r \<Rightarrow> bool" and refresh :: "'n \<Rightarrow> 'r \<Rightarrow> 'r"
  assumes le_refl: "le r r"
    and le_trans: "le r s \<Longrightarrow> le s t \<Longrightarrow> le r t"
    and le_key: "le r s \<Longrightarrow> key s = key r"
    and refresh_le: "le r (refresh n r)"
begin

lemma grown_refl: "grown le rows rows"
  by (auto simp: grown_def intro: le_refl)

lemma grown_trans: "grown le a b \<Longrightarrow> grown le b c \<Longrightarrow> grown le a c"
  unfolding grown_def by (meson le_trans)

lemma grown_append: "grown le rows (rows @ more_rows)"
  by (auto simp: grown_def intro: le_refl)

lemma update_grown: "grown le rows (update_where p (refresh n) rows)"
  unfolding grown_def set_update_where
proof
  fix r assume "r \<in> set rows"
  then show "\<exists>r' \<in> (\<lambda>r. if p r then refresh n r else r) ` set rows. le r r'"
    by (intro bexI [of _ "if p r then refresh n r else r"]) (auto intro: le_refl refresh_le)
qed

lemma upsert_grown: "grown le rows (upsert key (refresh n) new rows)"
  by (simp add: upsert_def update_grown grown_append)

lemma update_keys: "map key (update_where p (refresh n) rows) = map key rows"
  by (rule map_update_where) (rule le_key [OF refresh_le])

lemma upsert_keys: "distinct (map key rows) \<Longrightarrow> distinct (map key (upsert key (refresh n) new rows))"
  by (auto simp: upsert_def update_keys image_iff)

lemma upsert_key_set: "key ` set (upsert key (refresh n) new rows) = insert (key new) (key ` set rows)"
proof (cases "\<exists>r \<in> set rows. key r = key new")
  case True
  then have "key new \<in> key ` set rows" by (metis image_eqI)
  moreover have "set (map key (upsert key (refresh n) new rows)) = set (map key rows)"
    using True by (simp only: upsert_def if_True update_keys)
  ultimately show ?thesis by (simp add: insert_absorb)
qed (auto simp: upsert_def)

end

text \<open>
  A table whose rows remember when they were first and last seen: refreshing a row keeps its key
  and its first sighting and never moves its last sighting back.
\<close>

definition seen_le :: "('r \<Rightarrow> 'k) \<Rightarrow> ('r \<Rightarrow> int) \<Rightarrow> ('r \<Rightarrow> int) \<Rightarrow> 'r \<Rightarrow> 'r \<Rightarrow> bool" where
  "seen_le key born seen r r' \<longleftrightarrow> key r' = key r \<and> born r' = born r \<and> seen r \<le> seen r'"

locale temporal_table =
  fixes key :: "'r \<Rightarrow> 'k" and born :: "'r \<Rightarrow> int" and seen :: "'r \<Rightarrow> int" and refresh :: "'n \<Rightarrow> 'r \<Rightarrow> 'r"
  assumes refresh_key: "key (refresh n r) = key r"
    and refresh_born: "born (refresh n r) = born r"
    and refresh_seen: "seen r \<le> seen (refresh n r)"

sublocale temporal_table \<subseteq> growing_table key "seen_le key born seen" refresh
  by unfold_locales (auto simp: seen_le_def refresh_key refresh_born refresh_seen)

end
