(* ===== verification/Domain.thy ===== *)
theory Domain
  imports Prelude
begin

text \<open>
  The entities and pure rules of \<^verbatim>\<open>internal/domain/domain.go\<close>: the status enumerations, scope
  targets and their authorization, the folding of duplicate targets (\<open>MergeTargets\<close>) and the
  presence of a finding derived from its history (\<open>DerivePresence\<close>). The lemmas show that merging
  keeps one row per kind and value, in order of first appearance, excluded when any row is and
  authorized when any row is; and what the derived presence says of the history.
\<close>

section \<open>Enumerations\<close>

datatype run_status = RunQueued | RunPlanning | RunRunning | RunPaused
  | RunCompleted | RunFailed | RunCancelled

datatype target_status = TargetPending | TargetRunning | TargetCompleted
  | TargetIncomplete | TargetFailed | TargetSkipped

datatype task_status = TaskPending | TaskLeased | TaskRunning | TaskDone | TaskFailed | TaskCancelled

datatype target_mode = ModeActive | ModePassiveOnly | ModeExclude

datatype worker_status = WorkerPending | WorkerActive | WorkerDraining
  | WorkerQuarantined | WorkerStale | WorkerRevoked

text \<open>The run profile stays text: the launcher takes any value, and only \<open>passive\<close> is special.\<close>

definition ProfilePassive :: string where
  "ProfilePassive = ''passive''"

definition ProfileStandard :: string where
  "ProfileStandard = ''standard''"

section \<open>Scope targets\<close>

record scope_target =
  st_id :: uuid
  st_scope :: uuid
  st_kind :: string
  st_value :: string
  st_tags :: "string list"
  st_mode :: target_mode
  st_group :: "uuid option"
  st_pool :: "uuid option"
  st_authorized_by :: "string option"
  st_authorized_at :: "instant option"
  st_created_at :: instant

definition Authorized :: "scope_target \<Rightarrow> bool" where
  "Authorized t \<longleftrightarrow> st_mode t = ModeActive \<and> st_authorized_by t \<noteq> None \<and> st_authorized_at t \<noteq> None"

definition merge_key :: "scope_target \<Rightarrow> string" where
  "merge_key t = st_kind t @ [CHR 0x00] @ st_value t"

definition merge_row :: "scope_target \<Rightarrow> scope_target \<Rightarrow> scope_target" where
  "merge_row cur t =
     (if st_mode cur = ModeExclude then cur
      else if st_mode t = ModeExclude then t
      else if \<not> Authorized cur \<and> Authorized t then t
      else cur)"

definition merge_step ::
  "(string \<rightharpoonup> nat) \<times> scope_target list \<Rightarrow> scope_target \<Rightarrow> (string \<rightharpoonup> nat) \<times> scope_target list" where
  "merge_step s t = (case s of (index, out) \<Rightarrow>
     (case index (merge_key t) of
        None \<Rightarrow> (index(merge_key t \<mapsto> length out), out @ [t])
      | Some i \<Rightarrow> (index, out[i := merge_row (out ! i) t])))"

definition MergeTargets :: "scope_target list \<Rightarrow> scope_target list" where
  "MergeTargets rows = snd (foldl merge_step (Map.empty, []) rows)"

subsection \<open>What merging keeps\<close>

definition folds :: "scope_target \<Rightarrow> scope_target list \<Rightarrow> bool" where
  "folds e rs \<longleftrightarrow> e \<in> set rs \<and> (st_mode e = ModeExclude \<longleftrightarrow> (\<exists>r \<in> set rs. st_mode r = ModeExclude)) \<and>
     (st_mode e \<noteq> ModeExclude \<longrightarrow> (Authorized e \<longleftrightarrow> (\<exists>r \<in> set rs. Authorized r)))"

definition rows_of :: "string \<Rightarrow> scope_target list \<Rightarrow> scope_target list" where
  "rows_of k rows = filter (\<lambda>r. merge_key r = k) rows"

definition merge_inv :: "scope_target list \<Rightarrow> (string \<rightharpoonup> nat) \<times> scope_target list \<Rightarrow> bool" where
  "merge_inv rows s \<longleftrightarrow>
     map merge_key (snd s) = append_new [] (map merge_key rows) \<and>
     (\<forall>k i. fst s k = Some i \<longleftrightarrow> i < length (snd s) \<and> merge_key (snd s ! i) = k) \<and>
     (\<forall>i < length (snd s). folds (snd s ! i) (rows_of (merge_key (snd s ! i)) rows))"

lemma folds_single: "folds t [t]"
  by (simp add: folds_def)

lemma folds_snoc: "folds e rs \<Longrightarrow> folds (merge_row e t) (rs @ [t])"
  by (auto simp: folds_def merge_row_def Authorized_def)

lemma merge_key_row: "merge_key e = merge_key t \<Longrightarrow> merge_key (merge_row e t) = merge_key t"
  by (simp add: merge_row_def)

lemma append_new_snoc:
  "append_new a (b @ [x]) = (if x \<in> set (append_new a b) then append_new a b else append_new a b @ [x])"
  by (induction a b rule: append_new.induct) auto

lemma rows_of_snoc: "rows_of k (rows @ [t]) = (if merge_key t = k then rows_of k rows @ [t] else rows_of k rows)"
  by (simp add: rows_of_def)

lemma rows_of_empty: "k \<notin> set (map merge_key rows) \<Longrightarrow> rows_of k rows = []"
  by (auto simp: rows_of_def filter_empty_conv)

lemma merge_inv_keys:
  assumes "merge_inv rows (index, out)"
  shows "set (map merge_key out) = set (map merge_key rows)" and "distinct (map merge_key out)"
proof -
  have "map merge_key out = append_new [] (map merge_key rows)" using assms by (simp add: merge_inv_def)
  then show "set (map merge_key out) = set (map merge_key rows)" and "distinct (map merge_key out)"
    by (simp_all only: set_append_new distinct_append_new) simp_all
qed

text \<open>A row with a key not met yet is appended; one with a key met before is folded into its entry.\<close>

lemma merge_inv_new:
  assumes "merge_inv rows (index, out)" and None: "index (merge_key t) = None"
  shows "merge_inv (rows @ [t]) (merge_step (index, out) t)"
proof -
  note inv = assms(1) [unfolded merge_inv_def, simplified]
  note keys = merge_inv_keys [OF assms(1)]
  have new: "merge_key t \<notin> set (map merge_key out)"
  proof
    assume "merge_key t \<in> set (map merge_key out)"
    then obtain i where "i < length out" and "merge_key (out ! i) = merge_key t"
      unfolding in_set_conv_nth by auto
    then have "index (merge_key t) = Some i" using inv by simp
    with None show False by simp
  qed
  then have "rows_of (merge_key t) rows = []" using keys rows_of_empty by metis
  moreover have "merge_key (out ! i) \<noteq> merge_key t" if "i < length out" for i
    using new that by (metis length_map nth_map nth_mem)
  moreover from this have "merge_key t \<noteq> merge_key (out ! i)" if "i < length out" for i
    using that by metis
  ultimately show ?thesis
    using inv None new keys
    by (auto simp: merge_inv_def merge_step_def append_new_snoc rows_of_snoc folds_single
        nth_append less_Suc_eq)
qed

lemma merge_inv_old:
  assumes "merge_inv rows (index, out)" and Some: "index (merge_key t) = Some i"
  shows "merge_inv (rows @ [t]) (merge_step (index, out) t)"
proof -
  note inv = assms(1) [unfolded merge_inv_def, simplified]
  note keys = merge_inv_keys [OF assms(1)]
  have i: "i < length out" "merge_key (out ! i) = merge_key t" using Some inv by auto
  have other: "merge_key (out ! j) \<noteq> merge_key t" if "j < length out" "j \<noteq> i" for j
    using keys(2) i that by (metis length_map nth_eq_iff_index_eq nth_map)
  let ?out = "out[i := merge_row (out ! i) t]"
  have row: "merge_key (merge_row (out ! i) t) = merge_key t" by (rule merge_key_row [OF i(2)])
  have km: "map merge_key ?out = map merge_key out"
    using i row by (simp add: map_update) (metis i(2) length_map list_update_id nth_map)
  have "merge_key t \<in> set (map merge_key rows)" using keys(1) i by (metis length_map nth_map nth_mem)
  then have "map merge_key ?out = append_new [] (map merge_key (rows @ [t]))"
    using km inv by (simp add: append_new_snoc)
  moreover have ke: "merge_key (?out ! j) = merge_key (out ! j)" if "j < length out" for j
    using that row i by (cases "j = i") auto
  then have "(index k = Some j) = (j < length ?out \<and> merge_key (?out ! j) = k)" for k j
    using inv by (metis length_list_update)
  moreover have "folds (?out ! j) (rows_of (merge_key (?out ! j)) (rows @ [t]))" if j: "j < length out" for j
  proof (cases "j = i")
    case True
    have "folds (out ! i) (rows_of (merge_key t) rows)" using inv i by metis
    then show ?thesis using True i row by (simp add: rows_of_snoc folds_snoc)
  next
    case False
    then show ?thesis using inv j other [OF j] ke [OF j] by (simp add: rows_of_snoc)
  qed
  ultimately show ?thesis by (simp add: merge_inv_def merge_step_def Some)
qed

lemma merge_inv_step: "merge_inv rows s \<Longrightarrow> merge_inv (rows @ [t]) (merge_step s t)"
  by (cases s; cases "fst s (merge_key t)") (auto intro: merge_inv_new merge_inv_old)

lemma merge_inv_all: "merge_inv rows (foldl merge_step (Map.empty, []) rows)"
proof (induction rows rule: rev_induct)
  case Nil
  then show ?case by (simp add: merge_inv_def)
next
  case (snoc t rows)
  then show ?case using merge_inv_step by simp
qed

lemma MergeTargets_keys: "map merge_key (MergeTargets rows) = append_new [] (map merge_key rows)"
  using merge_inv_all [of rows] by (simp add: merge_inv_def MergeTargets_def)

lemma MergeTargets_folds:
  "e \<in> set (MergeTargets rows) \<Longrightarrow> folds e (rows_of (merge_key e) rows)"
  using merge_inv_all [of rows] by (auto simp: merge_inv_def MergeTargets_def in_set_conv_nth)

lemma MergeTargets_subset: "set (MergeTargets rows) \<subseteq> set rows"
  using MergeTargets_folds by (auto simp: folds_def rows_of_def)

lemma distinct_MergeTargets: "distinct (map merge_key (MergeTargets rows))"
  by (simp add: MergeTargets_keys)

lemma MergeTargets_complete: "r \<in> set rows \<Longrightarrow> \<exists>e \<in> set (MergeTargets rows). merge_key e = merge_key r"
proof -
  assume "r \<in> set rows"
  then have "merge_key r \<in> set (map merge_key (MergeTargets rows))" by (simp add: MergeTargets_keys)
  then show ?thesis by auto
qed

text \<open>Without the NUL byte in a kind, equal keys are equal kinds and values.\<close>

lemma merge_key_inj:
  assumes "CHR 0x00 \<notin> set (st_kind a)" and "CHR 0x00 \<notin> set (st_kind b)"
  shows "merge_key a = merge_key b \<longleftrightarrow> st_kind a = st_kind b \<and> st_value a = st_value b"
  using append_sep_eq [OF assms] by (simp add: merge_key_def)

definition kind_value :: "scope_target \<Rightarrow> string \<times> string" where
  "kind_value t = (st_kind t, st_value t)"

lemma append_new_map_inj:
  assumes "inj_on f (set a \<union> set b)"
  shows "append_new (map f a) (map f b) = map f (append_new a b)"
  using assms
proof (induction a b rule: append_new.induct)
  case (1 a)
  then show ?case by simp
next
  case (2 a x b)
  have "f x \<in> f ` set a \<longleftrightarrow> x \<in> set a" using "2.prems" by (auto dest: inj_onD)
  then show ?case using 2 by (auto simp: insert_absorb)
qed

text \<open>
  C37: Merging the duplicate rows of a scope. Each kind and value is kept once, in the order of its
  first appearance; the kept row is one of the rows given; it is an exclusion exactly when some row
  of that kind and value is; and when none is, it is authorized exactly when some row is.
\<close>

theorem MergeTargets_spec:
  assumes "\<forall>r \<in> set rows. CHR 0x00 \<notin> set (st_kind r)"
  shows "map kind_value (MergeTargets rows) = append_new [] (map kind_value rows) \<and>
    (\<forall>e \<in> set (MergeTargets rows). folds e (filter (\<lambda>r. kind_value r = kind_value e) rows))"
proof -
  let ?enc = "\<lambda>(k, v). k @ [CHR 0x00] @ v"
  have inj: "inj_on ?enc (set [] \<union> set (map kind_value rows))"
    using assms by (auto simp: inj_on_def kind_value_def append_sep_eq)
  have enc: "map ?enc (map kind_value xs) = map merge_key xs" for xs
    by (simp add: kind_value_def merge_key_def)
  have sub: "set (map kind_value (MergeTargets rows)) \<subseteq> set (map kind_value rows)"
    using MergeTargets_subset by auto
  have "map ?enc (map kind_value (MergeTargets rows)) = map ?enc (append_new [] (map kind_value rows))"
    using append_new_map_inj [OF inj] MergeTargets_keys [of rows] by (simp only: enc list.map(1))
  then have order: "map kind_value (MergeTargets rows) = append_new [] (map kind_value rows)"
  proof (rule map_inj_on)
    have "set (map kind_value (MergeTargets rows)) \<union> set (append_new [] (map kind_value rows))
        \<subseteq> set [] \<union> set (map kind_value rows)"
      using sub by simp
    then show "inj_on ?enc (set (map kind_value (MergeTargets rows)) \<union> set (append_new [] (map kind_value rows)))"
      using inj inj_on_subset by blast
  qed
  have "filter (\<lambda>r. kind_value r = kind_value e) rows = rows_of (merge_key e) rows"
    if e: "e \<in> set (MergeTargets rows)" for e
    unfolding rows_of_def kind_value_def
  proof (rule filter_cong)
    fix r assume "r \<in> set rows"
    moreover have "e \<in> set rows" using e MergeTargets_subset by blast
    ultimately show "((st_kind r, st_value r) = (st_kind e, st_value e)) = (merge_key r = merge_key e)"
      using assms merge_key_inj [of r e] by simp
  qed simp
  then show ?thesis using order MergeTargets_folds by simp
qed

definition sample_target :: "uuid \<Rightarrow> string \<Rightarrow> string \<Rightarrow> target_mode \<Rightarrow> scope_target" where
  "sample_target i k v m = \<lparr>st_id = i, st_scope = 1, st_kind = k, st_value = v, st_tags = [],
     st_mode = m, st_group = None, st_pool = None, st_authorized_by = Some ''ops'',
     st_authorized_at = Some 0, st_created_at = 0\<rparr>"

theorem MergeTargets_spec_witness:
  "map kind_value (MergeTargets [sample_target 1 ''domain'' ''a.io'' ModeActive, sample_target 2 ''ip'' ''1.2.3.4'' ModeActive,
      sample_target 3 ''domain'' ''a.io'' ModeExclude]) = [(''domain'', ''a.io''), (''ip'', ''1.2.3.4'')]"
  using MergeTargets_spec [of "[sample_target 1 ''domain'' ''a.io'' ModeActive, sample_target 2 ''ip'' ''1.2.3.4'' ModeActive,
      sample_target 3 ''domain'' ''a.io'' ModeExclude]"]
  by (simp add: sample_target_def kind_value_def)

section \<open>Findings\<close>

record finding_run =
  fr_run :: uuid
  fr_at :: instant
  fr_observed :: bool

record finding_presence =
  presence :: string
  seen_in :: nat
  covered_runs :: nat
  gone_since :: "instant option"

text \<open>
  The loop of \<open>DerivePresence\<close>: how often the finding was seen and the index of the last time,
  \<open>-1\<close> for never.
\<close>

fun seen_loop :: "nat \<Rightarrow> nat \<Rightarrow> int \<Rightarrow> finding_run list \<Rightarrow> nat \<times> int" where
  "seen_loop i n l [] = (n, l)"
| "seen_loop i n l (h # hs) =
     (if fr_observed h then seen_loop (Suc i) (Suc n) (int i) hs else seen_loop (Suc i) n l hs)"

definition DerivePresence :: "finding_run list \<Rightarrow> finding_presence" where
  "DerivePresence hist = (case seen_loop 0 0 (-1) hist of (n, l) \<Rightarrow>
     if length hist = 0 \<or> l = int (length hist) - 1
     then \<lparr>presence = ''active'', seen_in = n, covered_runs = length hist, gone_since = None\<rparr>
     else \<lparr>presence = ''gone'', seen_in = n, covered_runs = length hist,
           gone_since = Some (fr_at (hist ! nat (l + 1)))\<rparr>)"

lemma seen_loop_append:
  "seen_loop i n l (xs @ ys) = (case seen_loop i n l xs of (n', l') \<Rightarrow> seen_loop (i + length xs) n' l' ys)"
  by (induction i n l xs rule: seen_loop.induct) auto

lemma seen_loop_none:
  "\<forall>h \<in> set hs. \<not> fr_observed h \<Longrightarrow> seen_loop i n l hs = (n, l)"
  by (induction i n l hs rule: seen_loop.induct) auto

lemma seen_loop_count: "fst (seen_loop i n l hs) = n + length (filter fr_observed hs)"
  by (induction i n l hs rule: seen_loop.induct) auto

lemma seen_loop_last:
  assumes "fr_observed x" and "\<forall>h \<in> set post. \<not> fr_observed h"
  shows "snd (seen_loop 0 0 (-1) (pre @ x # post)) = int (length pre)"
  using assms by (auto simp: seen_loop_append seen_loop_none split: prod.split)

text \<open>Every history ends in a run that saw the finding, or in a stretch of runs that did not.\<close>

lemma history_cases:
  obtains (Never) "\<forall>h \<in> set hist. \<not> fr_observed h"
  | (Seen) pre x post where "hist = pre @ x # post" "fr_observed x" "\<forall>h \<in> set post. \<not> fr_observed h"
  by (metis split_list_last_prop)

lemma DerivePresence_never:
  "hist \<noteq> [] \<Longrightarrow> \<forall>h \<in> set hist. \<not> fr_observed h \<Longrightarrow>
   presence (DerivePresence hist) = ''gone'' \<and> gone_since (DerivePresence hist) = Some (fr_at (hd hist))"
  by (cases hist) (auto simp: DerivePresence_def seen_loop_none)

lemma DerivePresence_seen:
  assumes "hist = pre @ x # post" and "fr_observed x" and "\<forall>h \<in> set post. \<not> fr_observed h"
  shows "presence (DerivePresence hist) = (if post = [] then ''active'' else ''gone'') \<and>
     gone_since (DerivePresence hist) = (if post = [] then None else Some (fr_at (hd post)))"
proof -
  have "snd (seen_loop 0 0 (-1) hist) = int (length pre)" using assms seen_loop_last by blast
  then obtain n where "seen_loop 0 0 (-1) hist = (n, int (length pre))" by (metis prod.collapse)
  then show ?thesis
    using assms(1) by (auto simp: DerivePresence_def nth_append hd_conv_nth nat_add_distrib)
qed

text \<open>
  C40: The presence of a finding. It is active exactly when there is no history or the latest run
  of the history saw it; it was seen in as many runs as observed it, of all the runs in the history;
  and when it is gone, it is gone since the first of the closing stretch of runs that missed it.
\<close>

theorem DerivePresence_spec:
  "DerivePresence hist =
     (if hist = [] \<or> fr_observed (last hist)
      then \<lparr>presence = ''active'', seen_in = length (filter fr_observed hist),
            covered_runs = length hist, gone_since = None\<rparr>
      else \<lparr>presence = ''gone'', seen_in = length (filter fr_observed hist), covered_runs = length hist,
            gone_since = Some (fr_at (last (takeWhile (\<lambda>h. \<not> fr_observed h) (rev hist))))\<rparr>)"
proof (cases rule: history_cases [of hist])
  case Never
  then have tw: "takeWhile (\<lambda>h. \<not> fr_observed h) (rev hist) = rev hist"
    by (simp add: takeWhile_eq_all_conv)
  have "filter fr_observed hist = []" using Never by (simp add: filter_empty_conv)
  then show ?thesis
    unfolding tw using Never by (cases hist) (simp_all add: DerivePresence_def seen_loop_none)
next
  case (Seen pre x post)
  then have tw: "takeWhile (\<lambda>h. \<not> fr_observed h) (rev hist) = rev post"
    by (simp add: takeWhile_append2 takeWhile_append)
  have n: "seen_loop 0 0 (-1) hist = (length (filter fr_observed hist), int (length pre))"
    using seen_loop_last [OF Seen(2,3), of pre] seen_loop_count [of 0 0 "-1" hist] Seen(1)
    by (simp add: prod_eq_iff)
  show ?thesis
  proof (cases "post = []")
    case True
    then show ?thesis using Seen n by (simp add: DerivePresence_def)
  next
    case False
    then have "\<not> fr_observed (last hist)" using Seen by simp
    moreover have "hist ! Suc (length pre) = hd post"
      using Seen(1) False by (simp add: nth_append hd_conv_nth)
    ultimately show ?thesis
      using Seen(1) False n tw by (simp add: DerivePresence_def last_rev nat_add_distrib)
  qed
qed

end
