(* ===== verification/NetIP.thy ===== *)
theory NetIP
  imports Prelude "HOL-Library.Word"
begin

unbundle bit_operations_syntax

text \<open>
  The part of Go's \<^verbatim>\<open>net/netip\<close> and \<^verbatim>\<open>net\<close> packages that the scope guard, the planner
  and the launcher call: parsing addresses, prefixes and CIDR blocks, membership in a prefix, and
  the address classes. Addresses are lists of bytes; \<open>Addr6\<close> carries its zone. The lemmas relate
  the byte-wise operations to the big-endian number an address stands for.
\<close>

type_synonym byte = "8 word"
type_synonym net_ip = "byte list"

datatype addr = Addr4 "byte list" | Addr6 "byte list" string

type_synonym prefix = "addr \<times> nat"

section \<open>Addresses as text\<close>

text \<open>\<open>parseIPv4Fields\<close>: the previous character, the field so far, its digits, the fields read.\<close>

fun v4_fields :: "char option \<Rightarrow> nat \<Rightarrow> nat \<Rightarrow> nat list \<Rightarrow> string \<Rightarrow> byte list option" where
  "v4_fields prev v dl fs [] = (if length fs < 3 then None else Some (map of_nat (fs @ [v])))"
| "v4_fields prev v dl fs (c # cs) =
     (if is_digit c then
        (if dl = 1 \<and> v = 0 then None
         else if v * 10 + digit_val c > 255 then None
         else v4_fields (Some c) (v * 10 + digit_val c) (dl + 1) fs cs)
      else if c = CHR ''.'' then
        (if prev = None \<or> cs = [] \<or> prev = Some (CHR ''.'') then None
         else if length fs = 3 then None
         else v4_fields (Some c) 0 0 (fs @ [v]) cs)
      else None)"

definition hex_val :: "char \<Rightarrow> nat option" where
  "hex_val c =
     (if is_digit c then Some (code c - 48)
      else if 97 \<le> code c \<and> code c \<le> 102 then Some (code c - 87)
      else if 65 \<le> code c \<and> code c \<le> 70 then Some (code c - 55)
      else None)"

definition is_hex :: "char \<Rightarrow> bool" where
  "is_hex c \<longleftrightarrow> hex_val c \<noteq> None"

definition hex_num :: "string \<Rightarrow> nat" where
  "hex_num s = foldl (\<lambda>n c. 16 * n + the (hex_val c)) 0 s"

lemma length_dropWhile_Cons: "dropWhile P s = c # r \<Longrightarrow> length r < length s"
  using length_dropWhile_le [of P s] by simp

text \<open>The loop of \<open>parseIPv6\<close>: the bytes read, the position of the \<^verbatim>\<open>::\<close>, the rest.\<close>

function v6_loop :: "byte list \<Rightarrow> nat option \<Rightarrow> string \<Rightarrow> (byte list \<times> nat option) option" where
  "v6_loop ip ell s =
     (if length ip \<ge> 16 then (if s = [] then Some (ip, ell) else None)
      else if takeWhile is_hex s = [] \<or> length (takeWhile is_hex s) > 4 then None
      else let v = hex_num (takeWhile is_hex s);
               ip' = ip @ [of_nat (v div 256), of_nat (v mod 256)]
           in (case dropWhile is_hex s of
                 [] \<Rightarrow> Some (ip', ell)
               | c # r \<Rightarrow>
                   if c = CHR ''.'' then
                     (if ell = None \<and> length ip \<noteq> 12 then None
                      else if length ip + 4 > 16 then None
                      else map_option (\<lambda>f. (ip @ f, ell)) (v4_fields None 0 0 [] s))
                   else if c \<noteq> CHR '':'' \<or> r = [] then None
                   else if hd r = CHR '':'' then
                     (if ell \<noteq> None then None
                      else if tl r = [] then Some (ip', Some (length ip'))
                      else v6_loop ip' (Some (length ip')) (tl r))
                   else v6_loop ip' ell r))"
  by pat_completeness (elim Pair_inject, hypsubst, rule refl)
termination
proof (relation "measure (\<lambda>(ip, ell, s). length s)", goal_cases)
  case 1
  show ?case by simp
next
  case (2 ip ell s v ip' c r)
  from 2(5) have "length r < length s" by (rule length_dropWhile_Cons)
  then show ?case by simp
next
  case (3 ip ell s v ip' c r)
  from 3(5) have "length r < length s" by (rule length_dropWhile_Cons)
  then show ?case by simp
qed

declare v6_loop.simps [simp del]

definition v6_expand :: "byte list \<times> nat option \<Rightarrow> byte list option" where
  "v6_expand r = (case r of (ip, ell) \<Rightarrow>
     if length ip < 16 then
       (case ell of None \<Rightarrow> None
        | Some e \<Rightarrow> Some (take e ip @ replicate (16 - length ip) 0 @ drop e ip))
     else if ell \<noteq> None then None else Some ip)"

definition parse_v6 :: "string \<Rightarrow> addr option" where
  "parse_v6 inp =
     (let s = takeWhile (\<lambda>c. c \<noteq> CHR ''%'') inp;
          z = drop (length s + 1) inp
      in if length s < length inp \<and> z = [] then None
         else if take 2 s = ''::'' \<and> length s = 2 then Some (Addr6 (replicate 16 0) z)
         else let r = (if take 2 s = ''::'' then v6_loop [] (Some 0) (drop 2 s) else v6_loop [] None s)
              in (case r of None \<Rightarrow> None
                  | Some q \<Rightarrow> map_option (\<lambda>ip. Addr6 ip z) (v6_expand q)))"

definition ParseAddr :: "string \<Rightarrow> addr option" where
  "ParseAddr s = (case dropWhile (\<lambda>c. c \<notin> {CHR ''.'', CHR '':'', CHR ''%''}) s of
     [] \<Rightarrow> None
   | c # _ \<Rightarrow> if c = CHR ''.'' then map_option Addr4 (v4_fields None 0 0 [] s)
              else if c = CHR '':'' then parse_v6 s
              else None)"

fun BitLen :: "addr \<Rightarrow> nat" where
  "BitLen (Addr4 _) = 32"
| "BitLen (Addr6 _ _) = 128"

fun addr_bytes :: "addr \<Rightarrow> byte list" where
  "addr_bytes (Addr4 b) = b"
| "addr_bytes (Addr6 b _) = b"

fun addr_zone :: "addr \<Rightarrow> string" where
  "addr_zone (Addr4 _) = []"
| "addr_zone (Addr6 _ z) = z"

fun wf_addr :: "addr \<Rightarrow> bool" where
  "wf_addr (Addr4 b) = (length b = 4)"
| "wf_addr (Addr6 b _) = (length b = 16)"

definition split_last_slash :: "string \<Rightarrow> (string \<times> string) option" where
  "split_last_slash s = (if CHR ''/'' \<notin> set s then None
     else let t = takeWhile (\<lambda>c. c \<noteq> CHR ''/'') (rev s)
          in Some (take (length s - length t - 1) s, rev t))"

definition ParsePrefix :: "string \<Rightarrow> prefix option" where
  "ParsePrefix s = (case split_last_slash s of None \<Rightarrow> None
     | Some (a, b) \<Rightarrow> (case ParseAddr a of None \<Rightarrow> None
        | Some ip \<Rightarrow>
            if addr_zone ip \<noteq> [] then None
            else if length b > 1 \<and> \<not> (49 \<le> code (hd b) \<and> code (hd b) \<le> 57) then None
            else (case Atoi b of (n, ok) \<Rightarrow>
              if \<not> ok \<or> n < 0 \<or> n > int (BitLen ip) then None else Some (ip, nat n))))"

definition v4InV6Prefix :: "byte list" where
  "v4InV6Prefix = replicate 10 0 @ [255, 255]"

definition To4 :: "net_ip \<Rightarrow> net_ip option" where
  "To4 ip = (if length ip = 4 then Some ip
     else if length ip = 16 \<and> take 12 ip = v4InV6Prefix then Some (drop 12 ip) else None)"

section \<open>The number an address stands for\<close>

definition ip_val :: "byte list \<Rightarrow> nat" where
  "ip_val bs = foldl (\<lambda>n b. 256 * n + unat b) 0 bs"

lemma ip_val_Nil [simp]: "ip_val [] = 0"
  by (simp add: ip_val_def)

lemma foldl_ip_val: "foldl (\<lambda>n b. 256 * n + unat b) a bs = a * 256 ^ length bs + ip_val (bs :: byte list)"
proof (induction bs arbitrary: a)
  case Nil
  then show ?case by (simp add: ip_val_def)
next
  case (Cons b bs)
  have "ip_val (b # bs) = unat b * 256 ^ length bs + ip_val bs"
    using Cons.IH [of "unat b"] by (simp add: ip_val_def)
  then show ?case using Cons.IH [of "256 * a + unat b"] by (simp add: algebra_simps)
qed

lemma ip_val_Cons [simp]: "ip_val (b # bs) = unat b * 256 ^ length bs + ip_val bs"
  using foldl_ip_val [of "unat b" bs] by (simp add: ip_val_def)

lemma unat_byte_less: "unat (b :: byte) < 256"
  using unsigned_less [of b] by simp

lemma ip_val_less: "ip_val bs < 256 ^ length bs"
proof (induction bs)
  case Nil
  then show ?case by simp
next
  case (Cons b bs)
  have "unat b + 1 \<le> 256" using unat_byte_less [of b] by simp
  then have "(unat b + 1) * 256 ^ length bs \<le> 256 * 256 ^ length bs"
    by (rule mult_le_mono1)
  then have "unat b * 256 ^ length bs + 256 ^ length bs \<le> 256 * 256 ^ length bs"
    by (simp only: add_mult_distrib mult_1)
  with Cons show ?case by (simp only: ip_val_Cons length_Cons power_Suc)
qed

lemma ip_val_append: "ip_val (as @ bs) = ip_val as * 256 ^ length bs + ip_val bs"
  using foldl_ip_val [of "ip_val as" bs] by (simp add: ip_val_def [of "as @ bs"] ip_val_def [of as])

lemma ip_val_inj: "length as = length bs \<Longrightarrow> ip_val as = ip_val bs \<Longrightarrow> as = bs"
proof (induction as bs rule: list_induct2)
  case Nil
  then show ?case by simp
next
  case (Cons a as b bs)
  let ?p = "256 ^ length as :: nat"
  have l: "ip_val as < ?p" "ip_val bs < ?p"
    using ip_val_less [of as] ip_val_less [of bs] Cons.hyps by auto
  have e: "unat a * ?p + ip_val as = unat b * ?p + ip_val bs"
    using Cons.prems Cons.hyps by simp
  have "(unat a * ?p + ip_val as) div ?p = unat a" "(unat b * ?p + ip_val bs) div ?p = unat b"
    using l by auto
  with e have "unat a = unat b" by metis
  with e Cons.IH show ?case by (simp add: word_unat_eq_iff)
qed

section \<open>Membership in a prefix\<close>

definition prefix_contains :: "prefix \<Rightarrow> addr \<Rightarrow> bool" where
  "prefix_contains p a = (case p of (q, n) \<Rightarrow>
     addr_zone a = [] \<and> BitLen q = BitLen a \<and>
     ip_val (addr_bytes q) div 2 ^ (BitLen a - n) = ip_val (addr_bytes a) div 2 ^ (BitLen a - n))"

text \<open>\<open>net.CIDRMask\<close>: the number of leading ones and the number of bytes.\<close>

fun CIDRMask :: "nat \<Rightarrow> nat \<Rightarrow> byte list" where
  "CIDRMask n 0 = []"
| "CIDRMask n (Suc l) = (if n \<ge> 8 then 255 # CIDRMask (n - 8) l
                         else NOT (drop_bit n 255) # CIDRMask 0 l)"

definition ip_mask :: "net_ip \<Rightarrow> byte list \<Rightarrow> net_ip" where
  "ip_mask ip m =
     (let m1 = (if length m = 16 \<and> length ip = 4 \<and> (\<forall>b \<in> set (take 12 m). b = 255) then drop 12 m else m);
          ip1 = (if length m1 = 4 \<and> length ip = 16 \<and> take 12 ip = v4InV6Prefix then drop 12 ip else ip)
      in if length ip1 \<noteq> length m1 then [] else map2 (AND) ip1 m1)"

text \<open>\<open>net.ParseCIDR\<close>: the network's address, already masked, and its mask.\<close>

definition ParseCIDR :: "string \<Rightarrow> (net_ip \<times> byte list) option" where
  "ParseCIDR s =
     (let a = takeWhile (\<lambda>c. c \<noteq> CHR ''/'') s; m = drop (length a + 1) s
      in if CHR ''/'' \<notin> set s then None
         else (case ParseAddr a of None \<Rightarrow> None
           | Some ip \<Rightarrow>
               if addr_zone ip \<noteq> [] \<or> m = [] \<or> \<not> list_all is_digit m \<or> digits_val m > BitLen ip then None
               else let mk = CIDRMask (digits_val m) (BitLen ip div 8)
                    in Some (map2 (AND) (addr_bytes ip) mk, mk)))"

definition network_number_and_mask :: "net_ip \<times> byte list \<Rightarrow> (byte list \<times> byte list) option" where
  "network_number_and_mask n = (case n of (ip, m) \<Rightarrow>
     (case To4 ip of
        Some p \<Rightarrow> if length m = 4 then Some (p, m)
                  else if length m = 16 then Some (p, drop 12 m) else None
      | None \<Rightarrow> if length ip = 16 \<and> length m = 16 then Some (ip, m) else None))"

definition IPNet_contains :: "net_ip \<times> byte list \<Rightarrow> net_ip \<Rightarrow> bool" where
  "IPNet_contains n ip = (case network_number_and_mask n of None \<Rightarrow> False
     | Some (nn, m) \<Rightarrow>
         (let x = (case To4 ip of Some p \<Rightarrow> p | None \<Rightarrow> ip)
          in length x = length nn \<and> map2 (AND) nn m = map2 (AND) x m))"

section \<open>Address classes\<close>

definition Is4In6 :: "addr \<Rightarrow> bool" where
  "Is4In6 a = (case a of Addr4 _ \<Rightarrow> False | Addr6 b _ \<Rightarrow> take 12 b = v4InV6Prefix)"

definition Unmap :: "addr \<Rightarrow> addr" where
  "Unmap a = (case a of Addr4 b \<Rightarrow> Addr4 b
     | Addr6 b z \<Rightarrow> if take 12 b = v4InV6Prefix then Addr4 (drop 12 b) else Addr6 b z)"

definition IsPrivate :: "addr \<Rightarrow> bool" where
  "IsPrivate a = (case Unmap a of
     Addr4 b \<Rightarrow> b ! 0 = 10 \<or> (b ! 0 = 172 \<and> b ! 1 AND 240 = 16) \<or> (b ! 0 = 192 \<and> b ! 1 = 168)
   | Addr6 b _ \<Rightarrow> b ! 0 AND 254 = 252)"

definition IsLoopback :: "addr \<Rightarrow> bool" where
  "IsLoopback a = (case Unmap a of Addr4 b \<Rightarrow> b ! 0 = 127
     | Addr6 b _ \<Rightarrow> b = replicate 15 0 @ [1])"

definition IsLinkLocalUnicast :: "addr \<Rightarrow> bool" where
  "IsLinkLocalUnicast a = (case Unmap a of Addr4 b \<Rightarrow> b ! 0 = 169 \<and> b ! 1 = 254
     | Addr6 b _ \<Rightarrow> b ! 0 = 254 \<and> b ! 1 AND 192 = 128)"

section \<open>Addresses printed\<close>

definition hex_digit :: "nat \<Rightarrow> char" where
  "hex_digit n = (if n < 10 then char_of (48 + n) else char_of (87 + n))"

fun hex_nat :: "nat \<Rightarrow> string" where
  "hex_nat n = (if n < 16 then [hex_digit n] else hex_nat (n div 16) @ [hex_digit (n mod 16)])"

declare hex_nat.simps [simp del]

definition v4_string :: "byte list \<Rightarrow> string" where
  "v4_string b = str_join ''.'' (map (\<lambda>x. itoa_nat (unat x)) b)"

fun v6_groups :: "byte list \<Rightarrow> nat list" where
  "v6_groups (a # b # r) = (256 * unat a + unat b) # v6_groups r"
| "v6_groups _ = []"

definition zero_run :: "nat list \<Rightarrow> nat \<Rightarrow> nat" where
  "zero_run gs i = length (takeWhile (\<lambda>g. g = 0) (drop i gs))"

definition longest_zero_run :: "nat list \<Rightarrow> nat \<times> nat" where
  "longest_zero_run gs = foldl (\<lambda>(zs, ze) i. let l = zero_run gs i in
     if l \<ge> 2 \<and> l > ze - zs then (i, i + l) else (zs, ze)) (255, 255) [0..<8]"

definition v6_string :: "byte list \<Rightarrow> string" where
  "v6_string b = (let gs = v6_groups b in case longest_zero_run gs of (zs, ze) \<Rightarrow>
     if zs = 255 then str_join '':'' (map hex_nat gs)
     else str_join '':'' (map hex_nat (take zs gs)) @ ''::'' @ str_join '':'' (map hex_nat (drop ze gs)))"

definition IP_string :: "net_ip \<Rightarrow> string" where
  "IP_string ip = (case To4 ip of Some p \<Rightarrow> v4_string p
     | None \<Rightarrow> if length ip = 16 then v6_string ip else ''<nil>'')"

text \<open>\<^verbatim>\<open>net.SplitHostPort\<close>, the host only.\<close>

definition net_split_host :: "string \<Rightarrow> string option" where
  "net_split_host hp =
     (if CHR '':'' \<notin> set hp then None
      else let port = rev (takeWhile (\<lambda>c. c \<noteq> CHR '':'') (rev hp)); h = take (length hp - length port - 1) hp
           in if HasPrefix hp ''[''
              then (let inner = takeWhile (\<lambda>c. c \<noteq> CHR '']'') (tl hp)
                    in if length h = length inner + 2 \<and> last h = CHR '']'' \<and> CHR ''['' \<notin> set inner \<and> CHR '']'' \<notin> set port \<and> CHR ''['' \<notin> set port
                       then Some inner else None)
              else if CHR '':'' \<in> set h \<or> CHR ''['' \<in> set hp \<or> CHR '']'' \<in> set hp then None else Some h)"

section \<open>Masks and numbers\<close>

lemma byte_mask: "n < 8 \<Longrightarrow> NOT (drop_bit n 255) = (NOT (mask (8 - n)) :: byte)"
proof -
  have m: "(255::byte) = mask 8" by (simp add: mask_eq_exp_minus_1)
  have "drop_bit n (mask 8 :: byte) = mask (8 - n)"
    by (rule bit_eqI) (auto simp: bit_simps)
  then show ?thesis by (simp add: m)
qed

lemma and_not_mask_push: "b AND NOT (mask k) = push_bit k (drop_bit k (b :: byte))"
  by (rule bit_eqI) (auto simp: bit_simps)

lemma unat_and_not_mask: "unat (b AND NOT (mask k) :: byte) = unat b div 2 ^ k * 2 ^ k"
proof -
  have "unat b div 2 ^ k * 2 ^ k < 256"
    using unat_byte_less [of b] by (meson div_times_less_eq_dividend le_less_trans)
  moreover have "unat (b AND NOT (mask k)) = take_bit 8 (push_bit k (drop_bit k (take_bit 8 (unat b))))"
    by (simp only: and_not_mask_push unsigned_push_bit_eq unsigned_drop_bit_eq) simp
  ultimately show ?thesis
    using unat_byte_less [of b] by (simp add: push_bit_eq_mult drop_bit_eq_div take_bit_eq_mod)
qed

lemma length_CIDRMask [simp]: "length (CIDRMask n l) = l"
  by (induction n l rule: CIDRMask.induct) auto

lemma and_255: "(b :: byte) AND 255 = b"
proof -
  have m: "(255::byte) = mask 8" by (simp add: mask_eq_exp_minus_1)
  show ?thesis unfolding m by (rule bit_eqI) (auto simp: bit_simps)
qed

lemma mask_val_high:
  fixes v u p q :: nat
  shows "(u * (p * q) + v) div q * q = u * (p * q) + v div q * q"
  by (cases "q = 0") (simp_all add: div_mult_self3 mult.assoc [symmetric] add_mult_distrib)

lemma mask_val:
  "length a = l \<Longrightarrow> n \<le> 8 * l \<Longrightarrow>
   ip_val (map2 (AND) a (CIDRMask n l)) = ip_val a div 2 ^ (8 * l - n) * 2 ^ (8 * l - n)"
proof (induction n l arbitrary: a rule: CIDRMask.induct)
  case (1 n)
  then show ?case by simp
next
  case (2 n l)
  then obtain b bs where a: "a = b # bs" "length bs = l" by (cases a) auto
  have p256: "(256::nat) ^ l = 2 ^ (8 * l)" by (simp add: power_mult)
  show ?case
  proof (cases "8 \<le> n")
    case True
    have ih: "ip_val (map2 (AND) bs (CIDRMask (n - 8) l)) = ip_val bs div 2 ^ (8 * Suc l - n) * 2 ^ (8 * Suc l - n)"
      using 2(1) [OF True a(2)] True 2(4) by (simp add: add.commute)
    have "(256::nat) ^ l = 2 ^ (n - 8) * 2 ^ (8 * Suc l - n)"
      using True 2(4) by (simp add: p256 flip: power_add)
    then show ?thesis
      using True ih a mask_val_high [of "unat b" "2 ^ (n - 8)" "2 ^ (8 * Suc l - n)" "ip_val bs"]
      by (simp add: and_255)
  next
    case False
    let ?k = "8 - n"
    have h: "8 * Suc l - n = 8 * l + ?k" using False by simp
    have z: "ip_val (map2 (AND) bs (CIDRMask 0 l)) = 0"
      using 2(2) [OF False a(2)] ip_val_less [of bs] a(2) by (simp add: p256)
    have "ip_val a div 2 ^ (8 * Suc l - n) = (ip_val a div 2 ^ (8 * l)) div 2 ^ ?k"
      unfolding h by (simp add: power_add div_mult2_eq)
    also have "ip_val a div 2 ^ (8 * l) = unat b"
      using ip_val_less [of bs] a by (simp add: p256)
    finally have "ip_val a div 2 ^ (8 * Suc l - n) * 2 ^ (8 * Suc l - n) = unat b div 2 ^ ?k * 2 ^ ?k * 2 ^ (8 * l)"
      unfolding h by (simp add: power_add mult.commute mult.left_commute)
    then show ?thesis
      using False a z byte_mask [of n] by (simp add: unat_and_not_mask p256)
  qed
qed

text \<open>Membership in an IPv4 network is agreement on the leading bits.\<close>

lemma IPNet_contains_v4:
  assumes "length nn = 4" and "length ip = 4" and "n \<le> 32"
  shows "IPNet_contains (nn, CIDRMask n 4) ip \<longleftrightarrow> ip_val nn div 2 ^ (32 - n) = ip_val ip div 2 ^ (32 - n)"
proof -
  have "IPNet_contains (nn, CIDRMask n 4) ip \<longleftrightarrow>
      map2 (AND) nn (CIDRMask n 4) = map2 (AND) ip (CIDRMask n 4)"
    using assms by (simp add: IPNet_contains_def network_number_and_mask_def To4_def)
  also have "\<dots> \<longleftrightarrow> ip_val (map2 (AND) nn (CIDRMask n 4)) = ip_val (map2 (AND) ip (CIDRMask n 4))"
    using assms ip_val_inj [of "map2 (AND) nn (CIDRMask n 4)" "map2 (AND) ip (CIDRMask n 4)"] by auto
  finally show ?thesis using assms by (simp add: mask_val)
qed

section \<open>Parsed addresses are well formed\<close>

lemma v4_fields_length: "v4_fields prev v dl fs s = Some bs \<Longrightarrow> length fs \<le> 3 \<Longrightarrow> length bs = 4"
proof (induction prev v dl fs s rule: v4_fields.induct)
  case (1 prev v dl fs)
  then show ?case by (auto split: if_splits)
next
  case (2 prev v dl fs c cs)
  show ?case
  proof (cases "is_digit c")
    case True
    then show ?thesis using 2 by (auto split: if_splits)
  next
    case False
    then show ?thesis using 2 by (auto split: if_splits)
  qed
qed

lemma v6_loop_length:
  "v6_loop ip ell s = Some (ip', ell') \<Longrightarrow> even (length ip) \<Longrightarrow> length ip \<le> 16 \<Longrightarrow> length ip' \<le> 16"
proof (induction ip ell s rule: v6_loop.induct)
  case (1 ip ell s)
  have short: "length ip < 16 \<Longrightarrow> length ip + 2 \<le> 16" using "1.prems"(2) by presburger
  show ?case
  proof (cases "dropWhile is_hex s")
    case Nil
    show ?thesis using "1.prems" short
      by (subst (asm) v6_loop.simps) (auto simp: Let_def Nil split: if_splits)
  next
    case (Cons c r)
    show ?thesis
      using "1.prems" short "1.IH" [OF _ _ refl refl Cons]
      by (subst (asm) v6_loop.simps) (auto simp: Let_def Cons dest!: v4_fields_length split: if_splits)
  qed
qed

lemma ParseAddr_wf: "ParseAddr s = Some a \<Longrightarrow> wf_addr a"
proof -
  assume "ParseAddr s = Some a"
  then consider (v4) b where "a = Addr4 b" "v4_fields None 0 0 [] s = Some b" | (v6) "parse_v6 s = Some a"
    by (auto simp: ParseAddr_def split: list.splits if_splits)
  then show ?thesis
  proof cases
    case v4
    then show ?thesis by (auto dest: v4_fields_length)
  next
    case v6
    have "length b = 16" if "v6_loop [] ell t = Some q" "v6_expand q = Some b" for ell t q b
      using that v6_loop_length [of "[]" ell t "fst q" "snd q"]
      by (auto simp: v6_expand_def split: prod.splits if_splits option.splits)
    then show ?thesis using v6 by (auto simp: parse_v6_def Let_def split: if_splits option.splits)
  qed
qed

section \<open>Printed IPv4 addresses parse back\<close>

lemma not_digit_dot [simp]: "\<not> is_digit CHR ''.''"
  by (simp add: is_digit_def code_def)

lemma itoa_nat_last: "is_digit (last (itoa_nat n))"
  using itoa_nat_digits [of n] last_in_set [OF itoa_nat_nonempty [of n]] by (simp add: list_all_iff)

lemma v4_fields_octet:
  assumes "n < 256"
  shows "\<exists>dl. v4_fields prev 0 0 fs (itoa_nat n @ r) = v4_fields (Some (last (itoa_nat n))) n dl fs r"
proof -
  have i: "itoa_nat n = [char_of (48 + n)]" if "n < 10"
    using that by (subst itoa_nat.simps) simp
  have ii: "itoa_nat n = [char_of (48 + n div 10), char_of (48 + n mod 10)]" if "10 \<le> n" "n < 100"
    using that by (subst itoa_nat.simps, subst itoa_nat.simps) simp
  have iii: "itoa_nat n = [char_of (48 + n div 100), char_of (48 + n div 10 mod 10), char_of (48 + n mod 10)]"
    if "100 \<le> n"
    using that assms by (subst itoa_nat.simps, subst itoa_nat.simps, subst itoa_nat.simps)
      (simp add: div_mult2_eq [symmetric], arith)
  consider "n < 10" | "10 \<le> n" "n < 100" | "100 \<le> n" by linarith
  then show ?thesis
  proof cases
    case 1
    then show ?thesis
      by (simp add: i is_digit_char_of digit_val_char_of) blast
  next
    case 2
    have "n div 10 < 10" "n div 10 \<noteq> 0" "n div 10 * 10 + n mod 10 = n" using 2 by auto
    then show ?thesis
      using assms by (simp add: ii [OF 2] is_digit_char_of digit_val_char_of) blast
  next
    case 3
    have "n div 100 < 10" "n div 100 \<noteq> 0" "n div 10 \<le> 255" "n \<le> 255" using 3 assms by auto
    moreover have "n div 100 * 10 + n div 10 mod 10 = n div 10"
      using div_mult_mod_eq [of "n div 10" 10] by (simp only: div_mult2_eq [symmetric]) simp
    moreover have "n div 10 * 10 + n mod 10 = n" by (rule div_mult_mod_eq)
    ultimately have "v4_fields prev 0 0 fs (itoa_nat n @ r) =
        v4_fields (Some (char_of (48 + n mod 10))) n (Suc (Suc (Suc 0))) fs r"
      unfolding iii [OF 3] by (auto simp: is_digit_char_of digit_val_char_of)
    then show ?thesis using iii [OF 3] by auto
  qed
qed

lemma v4_fields_dot:
  assumes "n < 256" and "length fs < 3" and "r \<noteq> []"
  shows "v4_fields prev 0 0 fs (itoa_nat n @ CHR ''.'' # r) = v4_fields (Some CHR ''.'') 0 0 (fs @ [n]) r"
proof -
  obtain dl where "v4_fields prev 0 0 fs (itoa_nat n @ CHR ''.'' # r) =
      v4_fields (Some (last (itoa_nat n))) n dl fs (CHR ''.'' # r)"
    using v4_fields_octet [OF assms(1)] by blast
  moreover have "last (itoa_nat n) \<noteq> CHR ''.''" using itoa_nat_last not_digit_dot by metis
  ultimately show ?thesis using assms(2,3) by simp
qed

lemma v4_fields_end:
  assumes "n < 256" and "length fs = 3"
  shows "v4_fields prev 0 0 fs (itoa_nat n) = Some (map of_nat (fs @ [n]))"
  using v4_fields_octet [OF assms(1), of prev fs "[]"] assms(2) by auto

lemma v4_string_four:
  "v4_string [a, b, c, d] = itoa_nat (unat a) @ CHR ''.'' # itoa_nat (unat b) @ CHR ''.'' #
     itoa_nat (unat c) @ CHR ''.'' # itoa_nat (unat d)"
  by (simp add: v4_string_def)

lemma ParseAddr_v4_string: "length b = 4 \<Longrightarrow> ParseAddr (v4_string b) = Some (Addr4 b)"
proof -
  assume "length b = 4"
  then obtain p q r t where b: "b = [p, q, r, t]" by (auto simp: length_Suc_conv numeral_eq_Suc)
  have f: "v4_fields None 0 0 [] (v4_string b) = Some b"
    unfolding b v4_string_four by (simp add: v4_fields_dot v4_fields_end unat_byte_less)
  have "dropWhile (\<lambda>c. c \<notin> {CHR ''.'', CHR '':'', CHR ''%''}) (itoa_nat (unat p) @ CHR ''.'' # w) = CHR ''.'' # w" for w
  proof -
    have "\<forall>c \<in> set (itoa_nat (unat p)). c \<notin> {CHR ''.'', CHR '':'', CHR ''%''}"
      using itoa_nat_no_char [of _ "unat p"] by (auto simp: is_digit_def code_def)
    then show ?thesis by (subst dropWhile_append2) auto
  qed
  then show ?thesis using f by (simp add: ParseAddr_def b v4_string_four)
qed

end
