(* ===== verification/ScopeGuard.thy ===== *)
theory ScopeGuard
  imports Domain NetIP
begin

unbundle bit_operations_syntax

text \<open>
  The scope guard of \<^verbatim>\<open>internal/scopeguard/scopeguard.go\<close>: which addresses may be scanned
  (\<open>CheckIP\<close>), which targets permit it (\<open>TargetAuthorized\<close>), and the enumeration of the hosts of a
  block (\<open>ExpandCIDRHosts\<close> with its byte-wise increment \<open>inc\<close>). The lemmas show that exclusions and
  private ranges are refused, and that the enumeration lists consecutive addresses of the block.
\<close>

section \<open>The guard\<close>

record decision =
  Allowed :: bool
  Reason :: string

definition Decision :: "bool \<Rightarrow> string \<Rightarrow> decision" where
  "Decision b r = \<lparr>Allowed = b, Reason = r\<rparr>"

lemma Decision_sel [simp]: "Allowed (Decision b r) = b" "Reason (Decision b r) = r"
  by (simp_all add: Decision_def)

text \<open>\<open>mustPrefixes\<close> panics on text that is not a prefix: \<open>None\<close>.\<close>

fun mustPrefixes :: "string list \<Rightarrow> prefix list option" where
  "mustPrefixes [] = Some []"
| "mustPrefixes (c # cs) = (case ParsePrefix c of None \<Rightarrow> None
     | Some p \<Rightarrow> map_option (Cons p) (mustPrefixes cs))"

definition privateBlocks_src :: "string list" where
  "privateBlocks_src =
     [''10.0.0.0/8'', ''172.16.0.0/12'', ''192.168.0.0/16'', ''127.0.0.0/8'',
      ''169.254.0.0/16'', ''::1/128'', ''fc00::/7'', ''fe80::/10'', ''0.0.0.0/8'']"

definition privateBlocks :: "prefix list" where
  "privateBlocks = (case mustPrefixes privateBlocks_src of Some ps \<Rightarrow> ps | None \<Rightarrow> [])"

type_synonym guard = "prefix list"

fun NewGuard :: "scope_target list \<Rightarrow> guard" where
  "NewGuard [] = []"
| "NewGuard (t # ts) =
     (if st_mode t \<noteq> ModeExclude then NewGuard ts
      else case ParsePrefix (st_value t) of
        Some p \<Rightarrow> p # NewGuard ts
      | None \<Rightarrow> (case ParseAddr (st_value t) of
          Some a \<Rightarrow> (a, BitLen a) # NewGuard ts
        | None \<Rightarrow> NewGuard ts))"

text \<open>
  \<open>CheckIP\<close>. \<open>allow_private\<close> is the package variable \<open>AllowPrivate\<close>, read from the environment.
  \<open>netip.PrefixFrom\<close> drops the zone of an excluded address; \<open>prefix_contains\<close> never looks at it.
\<close>

definition CheckIP :: "bool \<Rightarrow> guard \<Rightarrow> string \<Rightarrow> bool \<Rightarrow> decision" where
  "CheckIP allow_private g ip shared =
     (case ParseAddr ip of
        None \<Rightarrow> Decision False ''invalid''
      | Some a \<Rightarrow>
          if \<not> allow_private \<and> (\<exists>p \<in> set privateBlocks. prefix_contains p a) then Decision False ''private''
          else if \<exists>p \<in> set g. prefix_contains p a then Decision False ''excluded''
          else if shared then Decision False ''shared''
          else Decision True [])"

definition TargetAuthorized :: "scope_target \<Rightarrow> decision" where
  "TargetAuthorized t =
     (if st_mode t = ModeExclude then Decision False ''excluded''
      else if \<not> Authorized t then Decision False ''not_authorized''
      else Decision True [])"

section \<open>Enumerating a block\<close>

fun inc_rev :: "byte list \<Rightarrow> byte list" where
  "inc_rev [] = []"
| "inc_rev (b # bs) = (if b + 1 \<noteq> 0 then (b + 1) # bs else (b + 1) # inc_rev bs)"

definition inc :: "net_ip \<Rightarrow> net_ip" where
  "inc ip = rev (inc_rev (rev ip))"

fun expand_loop :: "nat \<Rightarrow> net_ip \<times> byte list \<Rightarrow> net_ip \<Rightarrow> net_ip list" where
  "expand_loop 0 n ip = []"
| "expand_loop (Suc k) n ip =
     (if IPNet_contains n ip then ip # (if k = 0 then [] else expand_loop k n (inc ip)) else [])"

text \<open>
  \<open>ExpandCIDRHosts\<close>. The loop stops when the list holds \<open>cap\<close> addresses, tested after each append:
  a cap below one still yields the first address.
\<close>

definition ExpandCIDRHosts :: "string \<Rightarrow> int \<Rightarrow> string list" where
  "ExpandCIDRHosts cidr cap = (case ParseCIDR cidr of
     None \<Rightarrow> []
   | Some n \<Rightarrow> map IP_string (expand_loop (nat (max 1 cap)) n (ip_mask (fst n) (snd n))))"

section \<open>What the enumeration lists\<close>

lemma byte_overflow: "(b::byte) + 1 = 0 \<Longrightarrow> unat b = 255"
proof -
  assume "b + 1 = 0"
  then have "b = 255" by (simp add: eq_neg_iff_add_eq_0 [symmetric])
  then show ?thesis by simp
qed

lemma length_inc_rev [simp]: "length (inc_rev bs) = length bs"
  by (induction bs) auto

lemma length_inc [simp]: "length (inc ip) = length ip"
  by (simp add: inc_def)

lemma inc_rev_val: "ip_val (rev (inc_rev bs)) = (ip_val (rev bs) + 1) mod 256 ^ length bs"
proof (induction bs)
  case Nil
  then show ?case by simp
next
  case (Cons b bs)
  show ?case
  proof (cases "b + 1 = 0")
    case True
    have "ip_val (rev (inc_rev (b # bs))) = ((ip_val (rev bs) + 1) mod 256 ^ length bs) * 256"
      using True Cons by (simp add: ip_val_append)
    also have "\<dots> = ((ip_val (rev bs) + 1) * 256) mod (256 ^ length bs * 256)"
      by (simp add: mult_mod_right mult.commute)
    finally show ?thesis using byte_overflow [OF True] by (simp add: ip_val_append algebra_simps)
  next
    case False
    then have "unat (b + 1) = unat b + 1" by (metis add.commute unatSuc Suc_eq_plus1)
    moreover have "ip_val (rev bs) * 256 + unat b + 1 < 256 ^ Suc (length bs)"
      using ip_val_less [of "rev bs @ [b + 1]"] calculation by (simp add: ip_val_append)
    ultimately show ?thesis using False by (simp add: ip_val_append)
  qed
qed

lemma inc_val: "ip_val (inc ip) = (ip_val ip + 1) mod 256 ^ length ip"
  using inc_rev_val [of "rev ip"] by (simp add: inc_def)

lemma next_block:
  fixes v B :: nat
  assumes "v mod B = B - 1" and "0 < B"
  shows "(v + 1) div B = v div B + 1"
proof -
  have "v + 1 = B * (v div B) + B" using assms mult_div_mod_eq [of B v] by linarith
  then show ?thesis using assms(2) by simp
qed

lemma same_block:
  fixes v B :: nat
  assumes "v mod B \<noteq> B - 1" and "0 < B"
  shows "(v + 1) div B = v div B" and "(v + 1) mod B = v mod B + 1"
proof -
  have "v mod B < B" using assms(2) by simp
  then have r: "v mod B + 1 < B" using assms by linarith
  have v: "v + 1 = (v mod B + 1) + v div B * B" using mult_div_mod_eq [of B v] by (simp add: mult.commute)
  have "(v + 1) div B = v div B + (v mod B + 1) div B"
    using assms(2) by (subst v, subst div_mult_self1) simp_all
  then show "(v + 1) div B = v div B" using r by simp
  have "(v + 1) mod B = (v mod B + 1) mod B" by (subst v) (rule mod_mult_self1)
  then show "(v + 1) mod B = v mod B + 1" using r by simp
qed

lemma block_top:
  fixes v B :: nat
  assumes "B dvd M" and "v < M" and "v mod B \<noteq> B - 1" and "0 < B"
  shows "v + 1 < M"
proof (rule ccontr)
  assume "\<not> v + 1 < M"
  with assms(2) have "v + 1 = M" by simp
  then have "(v + 1) mod B = 0" using assms(1) by simp
  then show False using same_block(2) [OF assms(3,4)] by simp
qed

text \<open>The address after the last one of a block is outside the block.\<close>

lemma inc_leaves_block:
  assumes "length ip = 4" and "0 < n" and "n \<le> 32"
    and "ip_val ip mod 2 ^ (32 - n) = 2 ^ (32 - n) - 1"
  shows "ip_val (inc ip) div 2 ^ (32 - n) \<noteq> ip_val ip div 2 ^ (32 - n)"
proof (cases "ip_val ip + 1 < 2 ^ 32")
  case True
  then have "ip_val (inc ip) = ip_val ip + 1" using assms(1) by (simp add: inc_val)
  then show ?thesis using next_block [OF assms(4)] by simp
next
  case False
  then have v: "ip_val ip = 2 ^ 32 - 1" using ip_val_less [of ip] assms(1) by simp
  then have i: "ip_val (inc ip) = 0" using assms(1) by (simp add: inc_val)
  have "(2::nat) ^ (32 - n) \<le> 2 ^ 31" using assms(2) by (intro power_increasing) auto
  then have "2 ^ (32 - n) \<le> ip_val ip" using v by simp
  then have "0 < ip_val ip div 2 ^ (32 - n)" by (simp add: div_greater_zero_iff)
  then show ?thesis using i by simp
qed

lemma expand_loop_v4:
  assumes "length nn = 4" and "n \<le> 32" and "length ip = 4"
    and "ip_val nn div 2 ^ (32 - n) = ip_val ip div 2 ^ (32 - n)"
    and "0 < n \<or> ip_val ip mod 2 ^ (32 - n) + k \<le> 2 ^ (32 - n)"
  shows "map ip_val (expand_loop k (nn, CIDRMask n 4) ip) =
    [ip_val ip ..< ip_val ip + min k (2 ^ (32 - n) - ip_val ip mod 2 ^ (32 - n))]"
  using assms(3-5)
proof (induction k arbitrary: ip)
  case 0
  then show ?case by simp
next
  case (Suc k)
  define B :: nat where "B = 2 ^ (32 - n)"
  have B: "0 < B" "B dvd 2 ^ 32" unfolding B_def by (simp, rule le_imp_power_dvd, simp)
  let ?v = "ip_val ip" and ?N = "(nn, CIDRMask n 4)"
  note cont = IPNet_contains_v4 [OF assms(1) _ assms(2)]
  have c: "IPNet_contains ?N ip" using cont Suc.prems(1,2) by simp
  have m: "?v mod B < B" using B(1) by simp
  show ?case
  proof (cases "?v mod B = B - 1")
    case True
    have "k = 0 \<or> expand_loop k ?N (inc ip) = []"
    proof (cases "0 < n")
      case n: True
      have "\<not> IPNet_contains ?N (inc ip)"
        using cont [of "inc ip"] inc_leaves_block [OF Suc.prems(1) n assms(2)] True Suc.prems(1,2)
        by (simp add: B_def)
      then show ?thesis by (cases k) auto
    next
      case False
      then show ?thesis using Suc.prems(3) True by (simp add: B_def)
    qed
    then have "expand_loop (Suc k) ?N ip = [ip]" using c by auto
    moreover have "min (Suc k) (B - ?v mod B) = 1" using True B(1) by simp
    ultimately show ?thesis unfolding B_def [symmetric] by simp
  next
    case False
    have "?v + 1 < 2 ^ 32"
      using block_top [OF B(2) _ False B(1)] ip_val_less [of ip] Suc.prems(1) by simp
    then have i: "ip_val (inc ip) = ?v + 1" using Suc.prems(1) by (simp add: inc_val)
    have s: "(?v + 1) div B = ?v div B" "(?v + 1) mod B = ?v mod B + 1" using same_block [OF False B(1)] by auto
    have ih: "map ip_val (expand_loop k ?N (inc ip)) = [?v + 1 ..< ?v + 1 + min k (B - (?v mod B + 1))]"
      using Suc.IH [of "inc ip"] Suc.prems i s by (simp add: B_def [symmetric])
    have "[?v ..< ?v + min (Suc k) (B - ?v mod B)] = ?v # [?v + 1 ..< ?v + 1 + min k (B - (?v mod B + 1))]"
    proof -
      have "min (Suc k) (B - ?v mod B) = Suc (min k (B - (?v mod B + 1)))" using m by arith
      then show ?thesis by (simp add: upt_conv_Cons del: upt_Suc)
    qed
    moreover have "map ip_val (expand_loop (Suc k) ?N ip) = ?v # map ip_val (expand_loop k ?N (inc ip))"
      using c by (cases k) simp_all
    ultimately show ?thesis unfolding B_def [symmetric] using ih by (simp only:)
  qed
qed

section \<open>What the guard allows\<close>

lemma privateBlocks_eq:
  "privateBlocks =
     [(Addr4 [10, 0, 0, 0], 8), (Addr4 [172, 16, 0, 0], 12), (Addr4 [192, 168, 0, 0], 16),
      (Addr4 [127, 0, 0, 0], 8), (Addr4 [169, 254, 0, 0], 16),
      (Addr6 [0, 0, 0, 0, 0, 0, 0, 0, 0, 0, 0, 0, 0, 0, 0, 1] [], 128),
      (Addr6 [252, 0, 0, 0, 0, 0, 0, 0, 0, 0, 0, 0, 0, 0, 0, 0] [], 7),
      (Addr6 [254, 128, 0, 0, 0, 0, 0, 0, 0, 0, 0, 0, 0, 0, 0, 0] [], 10),
      (Addr4 [0, 0, 0, 0], 8)]"
  by code_simp

lemma mustPrefixes_private: "mustPrefixes privateBlocks_src = Some privateBlocks"
  by code_simp

text \<open>What an exclusion entry covers.\<close>

definition excludes :: "scope_target \<Rightarrow> addr \<Rightarrow> bool" where
  "excludes t a \<longleftrightarrow> st_mode t = ModeExclude \<and>
     (case ParsePrefix (st_value t) of
        Some p \<Rightarrow> prefix_contains p a
      | None \<Rightarrow> (case ParseAddr (st_value t) of
          Some b \<Rightarrow> prefix_contains (b, BitLen b) a
        | None \<Rightarrow> False))"

lemma NewGuard_contains:
  "(\<exists>p \<in> set (NewGuard ts). prefix_contains p a) \<longleftrightarrow> (\<exists>t \<in> set ts. excludes t a)"
  by (induction ts rule: NewGuard.induct) (auto simp: excludes_def split: option.splits)

lemma prefix_contains_host:
  "wf_addr a \<Longrightarrow> wf_addr b \<Longrightarrow>
   prefix_contains (b, BitLen b) a \<longleftrightarrow> addr_zone a = [] \<and> BitLen a = BitLen b \<and> addr_bytes a = addr_bytes b"
  by (cases a; cases b) (auto simp: prefix_contains_def dest: ip_val_inj [rotated])

lemma ip_val_four: "ip_val [a, b, c, d] = ((unat a * 256 + unat b) * 256 + unat c) * 256 + unat d"
  by simp

lemma first_octet: "ip_val [a, b, c, d] div 16777216 = unat a"
proof -
  have "(unat b * 256 + unat c) * 256 + unat d < 16777216"
    using unat_byte_less [of b] unat_byte_less [of c] unat_byte_less [of d] by simp
  then show ?thesis by simp
qed

lemma two_octets: "ip_val [a, b, c, d] div 65536 = unat a * 256 + unat b"
proof -
  have "unat c * 256 + unat d < 65536" using unat_byte_less [of c] unat_byte_less [of d] by simp
  then show ?thesis by simp
qed

lemma twelve_bits: "ip_val [a, b, c, d] div 1048576 = unat a * 16 + unat b div 16"
proof -
  have "ip_val [a, b, c, d] div 1048576 = ip_val [a, b, c, d] div 65536 div 16"
    by (simp only: div_mult2_eq [symmetric]) simp
  then show ?thesis by (simp add: two_octets del: ip_val_Cons)
qed

lemma base_rep_eq:
  fixes x y x' y' B :: nat
  assumes "y < B" and "y' < B"
  shows "x * B + y = x' * B + y' \<longleftrightarrow> x = x' \<and> y = y'"
proof
  assume e: "x * B + y = x' * B + y'"
  have "(x * B + y) div B = x" "(x' * B + y') div B = x'" using assms by auto
  with e have "x = x'" by metis
  with e show "x = x' \<and> y = y'" by simp
qed simp

definition private_v4 :: "byte list \<Rightarrow> bool" where
  "private_v4 b \<longleftrightarrow> unat (b ! 0) \<in> {0, 10, 127} \<or>
     (unat (b ! 0) = 172 \<and> 16 \<le> unat (b ! 1) \<and> unat (b ! 1) \<le> 31) \<or>
     (unat (b ! 0) = 192 \<and> unat (b ! 1) = 168) \<or> (unat (b ! 0) = 169 \<and> unat (b ! 1) = 254)"

lemma privateBlocks_v4:
  assumes "length b = 4"
  shows "(\<exists>p \<in> set privateBlocks. prefix_contains p (Addr4 b)) \<longleftrightarrow> private_v4 b"
proof -
  obtain p q r t where b: "b = [p, q, r, t]" using assms by (auto simp: length_Suc_conv numeral_eq_Suc)
  have "unat p * 16 + unat q div 16 = 2753 \<longleftrightarrow> unat p = 172 \<and> 16 \<le> unat q \<and> unat q \<le> 31"
    using base_rep_eq [of "unat q div 16" 16 1 "unat p" 172] unat_byte_less [of q] by auto
  moreover have "unat p * 256 + unat q = 49320 \<longleftrightarrow> unat p = 192 \<and> unat q = 168"
    using base_rep_eq [of "unat q" 256 168 "unat p" 192] unat_byte_less [of q] by auto
  moreover have "unat p * 256 + unat q = 43518 \<longleftrightarrow> unat p = 169 \<and> unat q = 254"
    using base_rep_eq [of "unat q" 256 254 "unat p" 169] unat_byte_less [of q] by auto
  moreover have "ip_val [10, 0, 0, 0] div 16777216 = 10" "ip_val [127, 0, 0, 0] div 16777216 = 127"
    "ip_val [0, 0, 0, 0] div 16777216 = 0" "ip_val [172, 16, 0, 0] div 1048576 = 2753"
    "ip_val [192, 168, 0, 0] div 65536 = 49320" "ip_val [169, 254, 0, 0] div 65536 = 43518"
    by simp_all
  ultimately show ?thesis
    unfolding b privateBlocks_eq private_v4_def prefix_contains_def
    by (simp add: first_octet two_octets twelve_bits eq_commute [of _ "unat p"]
        eq_commute [of _ "unat p * 16 + unat q div 16"] eq_commute [of _ "unat p * 256 + unat q"]
        del: ip_val_Cons) argo
qed

section \<open>The enumeration of an IPv4 block\<close>

lemma expand_loop_elem:
  "x \<in> set (expand_loop k n ip) \<Longrightarrow> length x = length ip \<and> IPNet_contains n x"
  by (induction k n ip rule: expand_loop.induct) (auto split: if_splits)

lemma map2_and_4: "length a = 4 \<Longrightarrow> ip_mask a (CIDRMask n 4) = map2 (AND) a (CIDRMask n 4)"
  by (simp add: ip_mask_def Let_def)

lemma ParseCIDR_SomeD:
  "ParseCIDR s = Some (nn, m) \<Longrightarrow> \<exists>ip d. wf_addr ip \<and> m = CIDRMask d (BitLen ip div 8) \<and>
     nn = map2 (AND) (addr_bytes ip) m"
  by (auto simp: ParseCIDR_def Let_def split: option.splits if_splits dest: ParseAddr_wf)

lemma ParseCIDR_v4_base:
  assumes "ParseCIDR cidr = Some (nn, CIDRMask n 4)" and "n \<le> 32"
  shows "length nn = 4 \<and> ip_val nn mod 2 ^ (32 - n) = 0"
proof -
  obtain ip d where ip: "wf_addr ip" "nn = map2 (AND) (addr_bytes ip) (CIDRMask d (BitLen ip div 8))"
    "CIDRMask d (BitLen ip div 8) = CIDRMask n 4"
    using ParseCIDR_SomeD [OF assms(1)] by metis
  then have "BitLen ip div 8 = 4" by (metis length_CIDRMask)
  then have b: "length (addr_bytes ip) = 4" using ip(1) by (cases ip) auto
  have "nn = map2 (AND) (addr_bytes ip) (CIDRMask n 4)" using ip(2,3) by simp
  then show ?thesis using b mask_val [OF b] assms(2) by simp
qed

lemma ip_mask_base:
  assumes "length nn = 4" and "ip_val nn mod 2 ^ (32 - n) = 0" and "n \<le> 32"
  shows "ip_mask nn (CIDRMask n 4) = nn"
proof -
  have "ip_val (map2 (AND) nn (CIDRMask n 4)) = ip_val nn"
    using mask_val [OF assms(1)] assms(2,3) by (simp add: dvd_div_mult_self mod_0_imp_dvd)
  then show ?thesis using assms(1) by (simp add: map2_and_4 ip_val_inj)
qed

lemma IP_string_v4: "length ip = 4 \<Longrightarrow> IP_string ip = v4_string ip"
  by (simp add: IP_string_def To4_def)

lemma ExpandCIDRHosts_hosts:
  assumes "ParseCIDR cidr = Some (nn, CIDRMask n 4)" and "n \<le> 32" and "0 < n \<or> cap \<le> 2 ^ 32"
  obtains hosts where "ExpandCIDRHosts cidr cap = map v4_string hosts" and "\<forall>h \<in> set hosts. length h = 4"
    and "map ip_val hosts = [ip_val nn ..< ip_val nn + min (nat (max 1 cap)) (2 ^ (32 - n))]"
proof
  let ?k = "nat (max 1 cap)" and ?hosts = "expand_loop (nat (max 1 cap)) (nn, CIDRMask n 4) nn"
  have base: "length nn = 4" "ip_val nn mod 2 ^ (32 - n) = 0" using ParseCIDR_v4_base [OF assms(1,2)] by auto
  have len: "\<forall>h \<in> set ?hosts. length h = 4" using expand_loop_elem base(1) by metis
  show "\<forall>h \<in> set ?hosts. length h = 4" by (rule len)
  show "ExpandCIDRHosts cidr cap = map v4_string ?hosts"
    using len by (simp add: ExpandCIDRHosts_def assms(1) ip_mask_base [OF base assms(2)] IP_string_v4)
  have "0 < n \<or> ip_val nn mod 2 ^ (32 - n) + ?k \<le> 2 ^ (32 - n)"
    using assms(3) base(2) by (cases "n = 0") (auto simp: nat_le_iff)
  then show "map ip_val ?hosts = [ip_val nn ..< ip_val nn + min ?k (2 ^ (32 - n))]"
    using expand_loop_v4 [OF base(1) assms(2) base(1) refl] base(2) by simp
qed

text \<open>
  C39: the hosts listed for an IPv4 block are exactly the block's addresses in ascending order, from
  its first address, at most \<open>cap\<close> of them; every printed host parses back to its address.
\<close>

theorem ExpandCIDRHosts_v4:
  assumes "ParseCIDR cidr = Some (nn, CIDRMask n 4)" and "n \<le> 32" and "0 < n \<or> cap \<le> 2 ^ 32"
  shows "map (\<lambda>s. map_option (\<lambda>a. ip_val (addr_bytes a)) (ParseAddr s)) (ExpandCIDRHosts cidr cap) =
    map Some [ip_val nn ..< ip_val nn + min (nat (max 1 cap)) (2 ^ (32 - n))]"
proof -
  obtain hosts where h: "ExpandCIDRHosts cidr cap = map v4_string hosts" "\<forall>h \<in> set hosts. length h = 4"
    and v: "map ip_val hosts = [ip_val nn ..< ip_val nn + min (nat (max 1 cap)) (2 ^ (32 - n))]"
    using ExpandCIDRHosts_hosts [OF assms] by blast
  have "map (\<lambda>s. map_option (\<lambda>a. ip_val (addr_bytes a)) (ParseAddr s)) (ExpandCIDRHosts cidr cap) =
      map Some (map ip_val hosts)"
    using h by (simp add: ParseAddr_v4_string)
  then show ?thesis using v by simp
qed

theorem ExpandCIDRHosts_v4_witness:
  "map (\<lambda>s. map_option (\<lambda>a. ip_val (addr_bytes a)) (ParseAddr s)) (ExpandCIDRHosts ''192.0.2.254/30'' 4096) =
    map Some [3221226236, 3221226237, 3221226238, 3221226239]"
proof -
  have p: "ParseCIDR ''192.0.2.254/30'' = Some ([192, 0, 2, 252], CIDRMask 30 4)" by code_simp
  have v: "ip_val [192, 0, 2, 252] = 3221226236" by simp
  show ?thesis using ExpandCIDRHosts_v4 [OF p, of 4096] unfolding v by simp
qed

text \<open>
  C38: without \<open>AllowPrivate\<close>, the guard allows an IPv4 address only outside every internal range,
  outside every exclusion, and when it is not shared; and it allows every such address.
\<close>

theorem CheckIP_v4_iff:
  assumes "ParseAddr ip = Some (Addr4 b)"
  shows "Allowed (CheckIP False (NewGuard ts) ip shared) \<longleftrightarrow>
    \<not> private_v4 b \<and> \<not> (\<exists>t \<in> set ts. excludes t (Addr4 b)) \<and> \<not> shared"
proof -
  have "length b = 4" using ParseAddr_wf [OF assms] by simp
  then show ?thesis
    using assms by (auto simp: CheckIP_def privateBlocks_v4 NewGuard_contains)
qed

lemma mapped_not_private:
  assumes "length b = 4"
  shows "\<not> (\<exists>p \<in> set privateBlocks. prefix_contains p (Addr6 (v4InV6Prefix @ b) z))"
proof -
  have "ip_val v4InV6Prefix = 65535" by code_simp
  then have v: "ip_val (v4InV6Prefix @ b) = 65535 * 2 ^ 32 + ip_val b"
    using assms by (simp add: ip_val_append)
  have "ip_val b < 2 ^ 32" using ip_val_less [of b] assms by simp
  then have "ip_val (v4InV6Prefix @ b) < 2 ^ 118" "1 < ip_val (v4InV6Prefix @ b)" using v by auto
  then show ?thesis
    unfolding privateBlocks_eq by (auto simp: prefix_contains_def)
qed

text \<open>
  an address written in its IPv4-mapped IPv6 form is never refused as private, whatever IPv4
  address it names: the guard compares it with the IPv6 blocks only.
\<close>

theorem CheckIP_mapped_never_private:
  assumes "ParseAddr ip = Some (Addr6 (v4InV6Prefix @ b) [])" and "length b = 4"
  shows "CheckIP False [] ip False = Decision True []"
  using assms mapped_not_private [OF assms(2), of "[]"] by (simp add: CheckIP_def)

theorem CheckIP_mapped_never_private_witness:
  "CheckIP False [] ''::ffff:127.0.0.1'' False = Decision True [] \<and>
   CheckIP False [] ''127.0.0.1'' False = Decision False ''private''"
proof -
  have "ParseAddr ''::ffff:127.0.0.1'' = Some (Addr6 (v4InV6Prefix @ [127, 0, 0, 1]) [])" by code_simp
  then have "CheckIP False [] ''::ffff:127.0.0.1'' False = Decision True []"
    by (rule CheckIP_mapped_never_private) simp
  moreover have "CheckIP False [] ''127.0.0.1'' False = Decision False ''private''" by code_simp
  ultimately show ?thesis by simp
qed

theorem CheckIP_v4_iff_witness:
  "Allowed (CheckIP False (NewGuard []) ''192.0.2.1'' False) \<and>
   \<not> Allowed (CheckIP False (NewGuard []) ''172.31.0.1'' False)"
proof -
  have a: "ParseAddr ''192.0.2.1'' = Some (Addr4 [192, 0, 2, 1])" by code_simp
  have b: "ParseAddr ''172.31.0.1'' = Some (Addr4 [172, 31, 0, 1])" by code_simp
  show ?thesis
    using CheckIP_v4_iff [OF a, of "[]" False] CheckIP_v4_iff [OF b, of "[]" False]
    by (simp add: private_v4_def)
qed

end
