(* ===== verification/ScanProto.thy ===== *)
theory ScanProto
  imports Domain
begin

text \<open>
  The wire contract of \<^verbatim>\<open>internal/scanproto/scanproto.go\<close> as far as the control plane decides by
  it: the pipeline stages, which of them send packets to the target, the capabilities a stage
  requires, targets, jobs, observations and results. The stage summary a task keeps
  (\<^verbatim>\<open>planner.StageSummary\<close>) is here too, since the store, the gateway and the planner share it.
\<close>

section \<open>Stages\<close>

datatype stage = StagePassiveEnum | StageDNSBrute | StageDNSResolve | StageIPEnrich | StagePortScan
  | StageServiceProbe | StageTechDetect | StageScreenshot | StageDirBrute | StageVulnCheck

definition AllStages :: "stage list" where
  "AllStages = [StagePassiveEnum, StageDNSBrute, StageDNSResolve, StageIPEnrich, StagePortScan,
     StageServiceProbe, StageTechDetect, StageScreenshot, StageDirBrute, StageVulnCheck]"

fun stage_name :: "stage \<Rightarrow> string" where
  "stage_name StagePassiveEnum = ''passive_enum''"
| "stage_name StageDNSBrute = ''dns_brute''"
| "stage_name StageDNSResolve = ''dns_resolve''"
| "stage_name StageIPEnrich = ''ip_enrich''"
| "stage_name StagePortScan = ''port_scan''"
| "stage_name StageServiceProbe = ''service_probe''"
| "stage_name StageTechDetect = ''tech_detect''"
| "stage_name StageScreenshot = ''screenshot''"
| "stage_name StageDirBrute = ''dir_brute''"
| "stage_name StageVulnCheck = ''vuln_check''"

fun SendsTrafficToTarget :: "stage \<Rightarrow> bool" where
  "SendsTrafficToTarget StagePortScan = True"
| "SendsTrafficToTarget StageServiceProbe = True"
| "SendsTrafficToTarget StageTechDetect = True"
| "SendsTrafficToTarget StageScreenshot = True"
| "SendsTrafficToTarget StageDirBrute = True"
| "SendsTrafficToTarget StageVulnCheck = True"
| "SendsTrafficToTarget StagePassiveEnum = False"
| "SendsTrafficToTarget StageDNSBrute = False"
| "SendsTrafficToTarget StageDNSResolve = False"
| "SendsTrafficToTarget StageIPEnrich = False"

definition CapRawSocket :: string where
  "CapRawSocket = ''raw_socket''"

definition CapBrowser :: string where
  "CapBrowser = ''browser''"

definition KindLocal :: string where
  "KindLocal = ''local''"

definition KindVPS :: string where
  "KindVPS = ''vps''"

fun StageRequires :: "stage \<Rightarrow> string list" where
  "StageRequires StagePortScan = [CapRawSocket]"
| "StageRequires StageScreenshot = [CapBrowser]"
| "StageRequires s = []"

lemma stage_name_inj: "stage_name a = stage_name b \<longleftrightarrow> a = b"
  by (cases a; cases b; simp)

lemma AllStages_complete: "set AllStages = UNIV" and AllStages_distinct: "distinct AllStages"
proof -
  show "set AllStages = UNIV"
  proof -
    have "s \<in> set AllStages" for s by (cases s) (simp_all add: AllStages_def)
    then show ?thesis by blast
  qed
  show "distinct AllStages" by (simp add: AllStages_def)
qed

section \<open>Targets, jobs and results\<close>

text \<open>
  A task's target. Go's zero values stand for absent fields, and the JSON encoding omits them, so
  a field is present in the stored document exactly when it is not its zero value.
\<close>

record job_target =
  tg_domain :: string
  tg_wordlist :: string
  tg_ips :: "string list"
  tg_ip :: string
  tg_cidr :: string
  tg_port :: int
  tg_url :: string
  tg_host :: string
  tg_ports :: string

definition no_target :: job_target where
  "no_target = \<lparr>tg_domain = [], tg_wordlist = [], tg_ips = [], tg_ip = [], tg_cidr = [], tg_port = 0,
     tg_url = [], tg_host = [], tg_ports = []\<rparr>"

lemma no_target_sel [simp]:
  "tg_domain no_target = []" "tg_wordlist no_target = []" "tg_ips no_target = []" "tg_ip no_target = []"
  "tg_cidr no_target = []" "tg_port no_target = 0" "tg_url no_target = []" "tg_host no_target = []"
  "tg_ports no_target = []"
  by (simp_all add: no_target_def)

text \<open>What the store fills of a job; the gateway adds the parameters and the URLs.\<close>

record job =
  j_schema :: string
  j_job_id :: uuid
  j_run_id :: uuid
  j_task_id :: uuid
  j_lease_token :: uuid
  j_stage :: stage
  j_targets :: "job_target list"

definition JobSchema :: string where
  "JobSchema = ''scanjob/v2''"

datatype obs_type = ObsSubdomain | ObsWildcard | ObsDNSRecord | ObsIP | ObsService | ObsHTTP | ObsTLS
  | ObsTech | ObsScreenshot | ObsPath | ObsFinding

text \<open>
  An observation, with the zero values of Go for absent fields. The headers are a Go map, whose
  keys are distinct; \<open>o_not_after\<close> is a pointer.
\<close>

record observation =
  o_type :: obs_type
  o_domain :: string
  o_rtype :: string
  o_value :: string
  o_ttl :: int
  o_source :: string
  o_ip :: string
  o_port :: int
  o_host :: string
  o_proto :: string
  o_state :: string
  o_ptr :: string
  o_asn :: int
  o_as_org :: string
  o_as_range :: string
  o_country :: string
  o_cloud :: string
  o_shared :: bool
  o_banner :: string
  o_product :: string
  o_version :: string
  o_status :: int
  o_title :: string
  o_headers :: "(string \<times> string) list"
  o_favicon :: string
  o_cert_sha256 :: string
  o_subject_cn :: string
  o_issuer :: string
  o_sans :: "string list"
  o_not_after :: "instant option"
  o_tech_name :: string
  o_tech_version :: string
  o_tech_cpe :: string
  o_tech_confidence :: int
  o_cookies :: "string list"
  o_screenshot_key :: string
  o_path :: string
  o_finding_kind :: string
  o_finding_severity :: string
  o_finding_title :: string

definition no_observation :: "obs_type \<Rightarrow> observation" where
  "no_observation t = \<lparr>o_type = t, o_domain = [], o_rtype = [], o_value = [], o_ttl = 0, o_source = [], o_ip = [],
     o_port = 0, o_host = [], o_proto = [], o_state = [], o_ptr = [], o_asn = 0, o_as_org = [], o_as_range = [],
     o_country = [], o_cloud = [], o_shared = False, o_banner = [], o_product = [], o_version = [], o_status = 0,
     o_title = [], o_headers = [], o_favicon = [], o_cert_sha256 = [], o_subject_cn = [], o_issuer = [],
     o_sans = [], o_not_after = None, o_tech_name = [], o_tech_version = [], o_tech_cpe = [],
     o_tech_confidence = 0, o_cookies = [], o_screenshot_key = [], o_path = [], o_finding_kind = [],
     o_finding_severity = [], o_finding_title = []\<rparr>"

text \<open>The summary of what a task found. \<open>sm_sources\<close> counts names by source.\<close>

type_synonym ip_port = "string \<times> int"

record stage_summary =
  sm_domains :: "string list"
  sm_ips :: "string list"
  sm_services :: "ip_port list"
  sm_urls :: "string list"
  sm_sources :: "string \<rightharpoonup> int"

definition no_summary :: stage_summary where
  "no_summary = \<lparr>sm_domains = [], sm_ips = [], sm_services = [], sm_urls = [], sm_sources = Map.empty\<rparr>"

lemma no_summary_sel [simp]:
  "sm_domains no_summary = []" "sm_ips no_summary = []" "sm_services no_summary = []"
  "sm_urls no_summary = []" "sm_sources no_summary = Map.empty"
  by (simp_all add: no_summary_def)

text \<open>The document stored for a task, or NULL, as the planner reads it (\<open>decode\<close>).\<close>

definition decode :: "stage_summary option \<Rightarrow> stage_summary" where
  "decode b = (case b of None \<Rightarrow> no_summary | Some s \<Rightarrow> s)"

end
