(* ===== verification/Tables.thy ===== *)
theory Tables
  imports ScanProto "HOL-Library.Product_Lexorder"
begin

text \<open>
  The state of the control plane: the rows of the PostgreSQL tables that
  \<^verbatim>\<open>internal/store\<close> reads and writes (\<^verbatim>\<open>migrations/*.sql\<close>), as one record of row lists.

  A statement that PostgreSQL runs is atomic here, and so is a transaction. The database's clock
  is \<open>db_now\<close>. Fresh identifiers come from \<open>db_uuid\<close>, the stream \<^verbatim>\<open>gen_random_uuid\<close> will
  produce, of which \<open>db_drawn\<close> values have been used; the properties that need it assume the stream
  never repeats and never yields the nil UUID. \<open>db_host\<close> is PostgreSQL's
  \<^verbatim>\<open>host(x::inet)\<close>: the canonical text of an address, or an error. \<open>db_uuid_text\<close> and
  \<open>db_uuid_parse\<close> are \<^verbatim>\<open>String\<close> and \<^verbatim>\<open>Parse\<close> of the UUID package the program uses. Text is
  ordered bytewise.
\<close>

section \<open>Rows\<close>

type_synonym params = "string \<rightharpoonup> string"

text \<open>
  A stored document. The arrays the program writes hold text only, and a time is kept as the
  instant it denotes; in an object the first entry of a key counts.
\<close>

datatype json = JNull | JBool bool | JNum int | JStr string | JTime instant | JTexts "string list"
  | JObj "(string \<times> json) list"

type_synonym json_object = "(string \<times> json) list"

record scope_row =
  sco_id :: uuid
  sco_name :: string
  sco_created_by :: string
  sco_created_at :: instant
  sco_exit :: string
  sco_vpn :: "uuid option"
  sco_pool :: "uuid option"
  sco_visibility :: string
  sco_owner :: "uuid option"

record scan_run =
  run_id :: uuid
  run_scope :: uuid
  run_profile :: string
  run_trigger :: string
  run_status :: run_status
  run_pool :: "uuid option"
  run_max_concurrency :: int
  run_started_at :: "instant option"
  run_finished_at :: "instant option"
  run_created_at :: instant
  run_started_by :: "string option"
  run_user :: "uuid option"
  run_via :: string
  run_profile_id :: "uuid option"
  run_params :: params
  run_vpn :: "uuid option"

record run_target =
  rt_id :: uuid
  rt_run :: uuid
  rt_kind :: string
  rt_value :: string
  rt_status :: target_status
  rt_skip_reason :: "string option"
  rt_total :: int
  rt_done :: int
  rt_started_at :: "instant option"
  rt_finished_at :: "instant option"

record task =
  t_id :: uuid
  t_run :: uuid
  t_stage :: stage
  t_target :: job_target
  t_requires :: "string list"
  t_priority :: int
  t_status :: task_status
  t_worker :: "uuid option"
  t_worker_name :: "string option"
  t_worker_kind :: "string option"
  t_token :: "uuid option"
  t_expires :: "instant option"
  t_attempts :: int
  t_max :: int
  t_error :: "string option"
  t_result :: "stage_summary option"
  t_started_at :: "instant option"
  t_finished_at :: "instant option"
  t_created_at :: instant
  t_pool :: "uuid option"

record worker =
  w_id :: uuid
  w_pool :: "uuid option"
  w_name :: string
  w_kind :: string
  w_status :: worker_status
  w_capabilities :: "string list"
  w_max_concurrency :: int
  w_running_tasks :: int
  w_last_seen :: instant
  w_egress :: "string option"
  w_cred :: string

record worker_pool =
  p_id :: uuid
  p_name :: string
  p_default :: bool
  p_run_scoped :: bool
  p_takes_discovery :: bool

record wordlist =
  wl_id :: uuid
  wl_name :: string
  wl_kind :: string
  wl_status :: string
  wl_default :: bool
  wl_builtin :: bool
  wl_object_key :: string
  wl_source_url :: "string option"
  wl_sha256 :: "string option"
  wl_size :: int
  wl_lines :: int
  wl_error :: "string option"
  wl_created_by :: "string option"

record run_fleet =
  rf_run :: uuid
  rf_pool :: "uuid option"
  rf_workers :: int
  rf_auto :: bool
  rf_token :: string
  rf_vpn :: "uuid option"
  rf_status :: string
  rf_error :: "string option"
  rf_egress :: "string option"
  rf_created_at :: instant
  rf_ready_at :: "instant option"
  rf_torn_down_at :: "instant option"

record vpn_config =
  vc_id :: uuid
  vc_owner :: uuid
  vc_name :: string
  vc_kind :: string
  vc_endpoint :: "string option"
  vc_config :: string
  vc_egress :: "string option"
  vc_checked_at :: "instant option"
  vc_created_by :: string
  vc_created_at :: instant

record scan_profile =
  pf_id :: uuid
  pf_name :: string
  pf_owner :: "string option"
  pf_scope :: "uuid option"
  pf_params :: params
  pf_default :: bool

record schedule =
  sc_id :: uuid
  sc_scope :: uuid
  sc_profile :: string
  sc_exit :: string
  sc_vpn :: "uuid option"
  sc_pool :: "uuid option"
  sc_workers :: int
  sc_every_hours :: int
  sc_enabled :: bool
  sc_next_run_at :: instant
  sc_profile_id :: "uuid option"
  sc_params :: params
  sc_wordlists :: "uuid list"
  sc_targets :: "string list"
  sc_groups :: "uuid list"
  sc_last_run :: "uuid option"
  sc_last_run_at :: "instant option"
  sc_last_error :: "string option"
  sc_created_by :: string
  sc_created_at :: instant

record enrollment_token =
  et_hash :: string
  et_pool :: "uuid option"
  et_expires :: instant
  et_max_uses :: int
  et_uses :: int
  et_kind :: string
  et_revoked :: bool
  et_preapproved :: bool
  et_egress_hint :: "string option"

record target_group =
  tgr_id :: uuid
  tgr_scope :: uuid
  tgr_name :: string
  tgr_created_at :: instant

text \<open>
  The asset graph: names, addresses and the edges between them, which the planner reads too, and
  what was seen on them. Every asset row carries when it was first and last seen.
\<close>

record domain_row =
  dn_id :: uuid
  dn_scope :: uuid
  dn_name :: string
  dn_apex :: string
  dn_wildcard :: bool
  dn_sources :: "string list"
  dn_first :: instant
  dn_last :: instant

record ip_row =
  ip_id :: uuid
  ip_scope :: uuid
  ip_addr :: string
  ip_ptr :: "string option"
  ip_asn :: "int option"
  ip_as_org :: "string option"
  ip_as_range :: "string option"
  ip_country :: "string option"
  ip_cloud :: "string option"
  ip_shared :: bool
  ip_first :: instant
  ip_last :: instant

record domain_ip =
  di_domain :: uuid
  di_ip :: uuid
  di_via :: "string option"
  di_first :: instant
  di_last :: instant

record dns_record =
  dr_domain :: uuid
  dr_rtype :: string
  dr_value :: string
  dr_ttl :: int
  dr_first :: instant
  dr_last :: instant

record service_row =
  sv_id :: uuid
  sv_ip :: uuid
  sv_port :: int
  sv_proto :: string
  sv_state :: string
  sv_first :: instant
  sv_last :: instant

record service_obs =
  so_service :: uuid
  so_run :: uuid
  so_host :: string
  so_worker :: "uuid option"
  so_at :: instant
  so_banner :: string
  so_product :: string
  so_version :: string
  so_http :: "json option"
  so_tls :: "json option"
  so_screenshot :: string
  so_raw :: string

record technology =
  te_service :: uuid
  te_name :: string
  te_version :: string
  te_cpe :: "string option"
  te_confidence :: int
  te_first :: instant
  te_last :: instant

record finding_row =
  fi_id :: uuid
  fi_scope :: uuid
  fi_asset_kind :: string
  fi_asset :: uuid
  fi_kind :: string
  fi_title :: string
  fi_severity :: string
  fi_evidence :: json_object
  fi_status :: string
  fi_first :: instant
  fi_last :: instant
  fi_resolved_at :: "instant option"

record finding_obs =
  fo_finding :: uuid
  fo_run :: uuid
  fo_at :: instant
  fo_severity :: string
  fo_evidence :: json_object

record change_event =
  ce_run :: uuid
  ce_target :: "uuid option"
  ce_scope :: uuid
  ce_kind :: string
  ce_asset_kind :: string
  ce_asset :: uuid
  ce_before :: json_object
  ce_after :: json_object
  ce_at :: instant

record assets =
  as_dns :: "dns_record list"
  as_services :: "service_row list"
  as_observations :: "service_obs list"
  as_technologies :: "technology list"
  as_findings :: "finding_row list"
  as_finding_obs :: "finding_obs list"
  as_name_obs :: "((uuid \<times> uuid \<times> uuid) \<times> instant) list"
  as_events :: "change_event list"

text \<open>Accounts, their sessions and tokens, and the accounts a private company is shared with.\<close>

record app_user =
  us_id :: uuid
  us_name :: string
  us_display :: string
  us_hash :: "string option"
  us_role :: string
  us_disabled :: bool
  us_must_change :: bool
  us_created_at :: instant
  us_created_by :: "uuid option"
  us_last_login :: "instant option"

record user_session =
  se_hash :: string
  se_user :: uuid
  se_created_at :: instant
  se_expires :: instant
  se_last_seen :: instant
  se_agent :: string
  se_ip :: "string option"

record api_token =
  at_id :: uuid
  at_hash :: string
  at_prefix :: string
  at_name :: string
  at_user :: uuid
  at_role :: string
  at_created_at :: instant
  at_expires :: "instant option"
  at_revoked :: "instant option"
  at_last_used :: "instant option"

record scope_member =
  mb_scope :: uuid
  mb_user :: uuid
  mb_added_by :: string
  mb_created_at :: instant

record ssh_exit =
  sx_id :: uuid
  sx_owner :: uuid
  sx_name :: string
  sx_host :: string
  sx_port :: int
  sx_username :: string
  sx_private_key :: string
  sx_public_key :: string
  sx_host_key :: "string option"
  sx_remote_port :: int
  sx_pool :: "uuid option"
  sx_worker_name :: string
  sx_status :: string
  sx_last_error :: "string option"
  sx_connected_at :: "instant option"
  sx_remote_addr :: "string option"
  sx_install_status :: string
  sx_install_log :: "string option"
  sx_installed_at :: "instant option"
  sx_deleting :: bool
  sx_created_by :: string
  sx_created_at :: instant

record audit_row =
  au_actor :: string
  au_user :: "uuid option"
  au_action :: string
  au_subject :: string

record accounts =
  ac_users :: "app_user list"
  ac_sessions :: "user_session list"
  ac_tokens :: "api_token list"
  ac_members :: "scope_member list"
  ac_attempts :: "(string \<times> instant) list"
  ac_exits :: "ssh_exit list"
  ac_audit :: "audit_row list"

text \<open>Notification channels and what was sent through them.\<close>

record notification_channel =
  nc_id :: uuid
  nc_scope :: uuid
  nc_name :: string
  nc_kind :: string
  nc_url :: string
  nc_events :: "string list"
  nc_min_severity :: string
  nc_enabled :: bool
  nc_created_by :: string
  nc_created_at :: instant
  nc_cadence :: string
  nc_digest_hour :: int
  nc_digest_through :: "instant option"

record notification_delivery =
  nd_channel :: uuid
  nd_run :: "uuid option"
  nd_events :: int
  nd_status :: string
  nd_error :: "string option"
  nd_sent_at :: instant

record notices =
  no_channels :: "notification_channel list"
  no_deliveries :: "notification_delivery list"
  no_beats :: "(string \<times> instant) list"

section \<open>The database\<close>

record db =
  db_now :: instant
  db_uuid :: "nat \<Rightarrow> uuid"
  db_drawn :: nat
  db_host :: "string \<Rightarrow> string option"
  db_uuid_text :: "uuid \<Rightarrow> string"
  db_uuid_parse :: "string \<Rightarrow> uuid option"
  db_runs :: "scan_run list"
  db_targets :: "run_target list"
  db_tasks :: "task list"
  db_origins :: "(uuid \<times> uuid) list"
  db_workers :: "worker list"
  db_pools :: "worker_pool list"
  db_scope_targets :: "scope_target list"
  db_groups :: "target_group list"
  db_wordlists :: "wordlist list"
  db_run_wordlists :: "(uuid \<times> uuid) list"
  db_fleets :: "run_fleet list"
  db_vpns :: "vpn_config list"
  db_profiles :: "scan_profile list"
  db_schedules :: "schedule list"
  db_tokens :: "enrollment_token list"
  db_domains :: "domain_row list"
  db_ips :: "ip_row list"
  db_domain_ips :: "domain_ip list"
  db_scopes :: "scope_row list"
  db_assets :: assets
  db_accounts :: accounts
  db_notices :: notices

text \<open>A reference that violates its foreign key.\<close>

definition dangling :: "uuid option \<Rightarrow> uuid list \<Rightarrow> bool" where
  "dangling r ids = (case r of None \<Rightarrow> False | Some i \<Rightarrow> i \<notin> set ids)"

text \<open>A reference whose foreign key says \<^verbatim>\<open>ON DELETE SET NULL\<close>, after the rows \<open>gone\<close> were deleted.\<close>

definition unset :: "(uuid \<Rightarrow> bool) \<Rightarrow> uuid option \<Rightarrow> uuid option" where
  "unset gone x = (case x of None \<Rightarrow> None | Some i \<Rightarrow> if gone i then None else Some i)"

text \<open>The next identifier, and the state after drawing it.\<close>

definition fresh :: "db \<Rightarrow> uuid" where
  "fresh d = db_uuid d (db_drawn d)"

definition drawn :: "db \<Rightarrow> db" where
  "drawn d = d\<lparr>db_drawn := Suc (db_drawn d)\<rparr>"

text \<open>What the properties assume of \<^verbatim>\<open>gen_random_uuid\<close>.\<close>

definition uuids_fresh :: "db \<Rightarrow> bool" where
  "uuids_fresh d \<longleftrightarrow> inj (db_uuid d) \<and> (\<forall>n. db_uuid d n \<noteq> uuid_Nil)"

definition used_ids :: "db \<Rightarrow> uuid set" where
  "used_ids d = db_uuid d ` {..< db_drawn d}"

lemma drawn_sel [simp]:
  "db_now (drawn d) = db_now d" "db_uuid (drawn d) = db_uuid d" "db_drawn (drawn d) = Suc (db_drawn d)"
  "db_runs (drawn d) = db_runs d" "db_targets (drawn d) = db_targets d" "db_tasks (drawn d) = db_tasks d"
  "db_origins (drawn d) = db_origins d" "db_workers (drawn d) = db_workers d" "db_pools (drawn d) = db_pools d"
  "db_scope_targets (drawn d) = db_scope_targets d" "db_host (drawn d) = db_host d" "db_scopes (drawn d) = db_scopes d"
  "db_assets (drawn d) = db_assets d" "db_accounts (drawn d) = db_accounts d" "db_notices (drawn d) = db_notices d"
  "db_domains (drawn d) = db_domains d" "db_ips (drawn d) = db_ips d" "db_domain_ips (drawn d) = db_domain_ips d"
  by (simp_all add: drawn_def)

lemma fresh_unused: "uuids_fresh d \<Longrightarrow> fresh d \<notin> used_ids d"
  by (auto simp: uuids_fresh_def fresh_def used_ids_def dest: injD)

lemma fresh_not_Nil: "uuids_fresh d \<Longrightarrow> fresh d \<noteq> uuid_Nil"
  by (simp add: uuids_fresh_def fresh_def)

lemma used_drawn: "used_ids (drawn d) = insert (fresh d) (used_ids d)"
  by (simp add: used_ids_def fresh_def lessThan_Suc)


text \<open>A database with no rows, whose identifiers count up from 1000.\<close>

definition no_assets :: assets where
  "no_assets = \<lparr>as_dns = [], as_services = [], as_observations = [], as_technologies = [], as_findings = [],
     as_finding_obs = [], as_name_obs = [], as_events = []\<rparr>"

definition no_accounts :: accounts where
  "no_accounts = \<lparr>ac_users = [], ac_sessions = [], ac_tokens = [], ac_members = [], ac_attempts = [], ac_exits = [], ac_audit = []\<rparr>"

definition empty_db :: db where
  "empty_db = \<lparr>db_now = 0, db_uuid = (\<lambda>n. n + 1000), db_drawn = 0, db_host = Some, db_uuid_text = itoa_nat,
     db_uuid_parse = (\<lambda>s. if s \<noteq> [] \<and> list_all is_digit s then Some (digits_val s) else None), db_runs = [],
     db_targets = [], db_tasks = [], db_origins = [], db_workers = [], db_pools = [],
     db_scope_targets = [], db_groups = [], db_wordlists = [], db_run_wordlists = [], db_fleets = [], db_vpns = [],
     db_profiles = [], db_schedules = [], db_tokens = [], db_domains = [], db_ips = [], db_domain_ips = [],
     db_scopes = [], db_assets = no_assets, db_accounts = no_accounts, db_notices = \<lparr>no_channels = [], no_deliveries = [], no_beats = []\<rparr>\<rparr>"

definition sample_run :: scan_run where
  "sample_run = \<lparr>run_id = 7, run_scope = 1, run_profile = ''standard'', run_trigger = ''manual'',
     run_status = RunRunning, run_pool = None, run_max_concurrency = 32, run_started_at = None,
     run_finished_at = None, run_created_at = 0, run_started_by = None, run_user = None, run_via = [],
     run_profile_id = None, run_params = Map.empty, run_vpn = None\<rparr>"

definition sample_run_target :: "uuid \<Rightarrow> string \<Rightarrow> string \<Rightarrow> run_target" where
  "sample_run_target i k v = \<lparr>rt_id = i, rt_run = 7, rt_kind = k, rt_value = v, rt_status = TargetPending,
     rt_skip_reason = None, rt_total = 0, rt_done = 0, rt_started_at = None, rt_finished_at = None\<rparr>"

definition sample_task :: "uuid \<Rightarrow> stage \<Rightarrow> task_status \<Rightarrow> task" where
  "sample_task i s st = \<lparr>t_id = i, t_run = 7, t_stage = s, t_target = no_target\<lparr>tg_domain := ''a.io''\<rparr>,
     t_requires = [], t_priority = 10, t_status = st, t_worker = None, t_worker_name = None,
     t_worker_kind = None, t_token = None, t_expires = None, t_attempts = 0, t_max = 3, t_error = None,
     t_result = None, t_started_at = None, t_finished_at = None, t_created_at = 0, t_pool = Some 5\<rparr>"

definition sample_worker :: "uuid \<Rightarrow> worker" where
  "sample_worker i = \<lparr>w_id = i, w_pool = Some 5, w_name = ''w'', w_kind = ''local'', w_status = WorkerActive,
     w_capabilities = [], w_max_concurrency = 8, w_running_tasks = 0, w_last_seen = 0, w_egress = None,
     w_cred = []\<rparr>"

definition sample_pool :: "uuid \<Rightarrow> string \<Rightarrow> worker_pool" where
  "sample_pool i n = \<lparr>p_id = i, p_name = n, p_default = True, p_run_scoped = False, p_takes_discovery = False\<rparr>"

lemma empty_db_fresh: "uuids_fresh (empty_db\<lparr>db_tasks := ts, db_runs := rs, db_targets := rts, db_origins := os,
    db_workers := ws, db_pools := ps, db_now := n\<rparr>)"
  by (simp add: empty_db_def uuids_fresh_def inj_def)

end
