(* ===== verification/TaskStore.thy ===== *)
theory TaskStore
  imports Tables
begin

text \<open>
  The task queue of \<^verbatim>\<open>internal/store/task.go\<close>: inserting a batch of tasks, leasing them to a worker,
  extending, completing, failing, re-adopting, reaping and cancelling them, and the queries the
  planner, the dispatcher and the run page read. Each operation is the SQL statement of its Go
  method; \<open>ReleaseWorkerLeases\<close> of \<^verbatim>\<open>store/worker.go\<close> is here as well, since it
  writes the task table. What each operation does to the invariant of the queue is in the
  theory \<open>TaskLife\<close>.
\<close>

section \<open>Inserting tasks\<close>

record task_spec =
  sp_stage :: stage
  sp_target :: job_target
  sp_requires :: "string list"
  sp_priority :: int
  sp_origins :: "uuid list"
  sp_wordlist :: string
  sp_pool :: "uuid option"

text \<open>
  The columns the statement leaves out take their defaults: no attempts of at most three, no lease.
\<close>

definition new_task :: "db \<Rightarrow> uuid \<Rightarrow> task_spec \<Rightarrow> task" where
  "new_task d run sp = \<lparr>t_id = fresh d, t_run = run, t_stage = sp_stage sp,
     t_target = (if sp_wordlist sp \<noteq> [] then (sp_target sp)\<lparr>tg_wordlist := sp_wordlist sp\<rparr> else sp_target sp),
     t_requires = sp_requires sp, t_priority = sp_priority sp, t_status = TaskPending,
     t_worker = None, t_worker_name = None, t_worker_kind = None, t_token = None, t_expires = None,
     t_attempts = 0, t_max = 3, t_error = None, t_result = None, t_started_at = None,
     t_finished_at = None, t_created_at = db_now d, t_pool = sp_pool sp\<rparr>"

definition bump_total :: "uuid \<Rightarrow> db \<Rightarrow> db" where
  "bump_total ot d = d\<lparr>db_targets := update_where (\<lambda>r. rt_id r = ot) (\<lambda>r. r\<lparr>rt_total := rt_total r + 1\<rparr>) (db_targets d)\<rparr>"

text \<open>An origin that is not a run target violates the foreign key, and the transaction rolls back.\<close>

fun insert_origins :: "uuid \<Rightarrow> uuid list \<Rightarrow> db \<Rightarrow> db result" where
  "insert_origins tid [] d = Inr d"
| "insert_origins tid (ot # os) d =
     (if ot = uuid_Nil then insert_origins tid os d
      else if ot \<notin> rt_id ` set (db_targets d) then Inl ''task_origin: foreign key''
      else insert_origins tid os (bump_total ot
        (d\<lparr>db_origins := (if (tid, ot) \<in> set (db_origins d) then db_origins d else db_origins d @ [(tid, ot)])\<rparr>)))"

definition insert_task :: "uuid \<Rightarrow> task_spec \<Rightarrow> db \<Rightarrow> db result" where
  "insert_task run sp d =
     (if run \<notin> run_id ` set (db_runs d) then Inl ''scan_task: foreign key''
      else if dangling (sp_pool sp) (map p_id (db_pools d)) then Inl ''scan_task: foreign key''
      else insert_origins (fresh d) (sp_origins sp) (drawn d\<lparr>db_tasks := db_tasks d @ [new_task d run sp]\<rparr>))"

fun insert_tasks :: "uuid \<Rightarrow> task_spec list \<Rightarrow> db \<Rightarrow> db result" where
  "insert_tasks run [] d = Inr d"
| "insert_tasks run (sp # sps) d = (case insert_task run sp d of
     Inl e \<Rightarrow> Inl e
   | Inr d' \<Rightarrow> insert_tasks run sps d')"

text \<open>\<open>InsertTasks\<close>: the error, if any, and the state after the commit or the rollback.\<close>

definition InsertTasks :: "uuid \<Rightarrow> task_spec list \<Rightarrow> db \<Rightarrow> string option \<times> db" where
  "InsertTasks run specs d = (case insert_tasks run specs d of
     Inl e \<Rightarrow> (Some e, d)
   | Inr d' \<Rightarrow> (None, d'))"

section \<open>Leasing\<close>

fun in_flight_status :: "task_status \<Rightarrow> bool" where
  "in_flight_status TaskLeased = True"
| "in_flight_status TaskRunning = True"
| "in_flight_status _ = False"

abbreviation in_flight :: "task \<Rightarrow> bool" where
  "in_flight t \<equiv> in_flight_status (t_status t)"

definition outstanding :: "task \<Rightarrow> bool" where
  "outstanding t \<longleftrightarrow> t_status t = TaskPending \<or> in_flight t"

datatype stage_filter = AnyStage | OnlyBrute | NoBrute

fun stage_passes :: "stage_filter \<Rightarrow> stage \<Rightarrow> bool" where
  "stage_passes AnyStage s = True"
| "stage_passes OnlyBrute s = (s = StageDNSBrute)"
| "stage_passes NoBrute s = (s \<noteq> StageDNSBrute)"

definition holds_brute :: "uuid \<Rightarrow> task \<Rightarrow> bool" where
  "holds_brute w t \<longleftrightarrow> t_worker t = Some w \<and> t_stage t = StageDNSBrute \<and> in_flight t"

definition BruteRoom :: "uuid \<Rightarrow> int \<Rightarrow> db \<Rightarrow> int" where
  "BruteRoom w lim d = lim - int (length (filter (holds_brute w) (db_tasks d)))"

definition run_of :: "db \<Rightarrow> uuid \<Rightarrow> scan_run option" where
  "run_of d r = find (\<lambda>x. run_id x = r) (db_runs d)"

definition scope_of :: "db \<Rightarrow> task \<Rightarrow> uuid option" where
  "scope_of d t = map_option run_scope (run_of d (t_run t))"

definition company_in_flight :: "db \<Rightarrow> uuid \<Rightarrow> nat" where
  "company_in_flight d sc = length (filter (\<lambda>t. in_flight t \<and> scope_of d t = Some sc) (db_tasks d))"

definition siblings_in_flight :: "db \<Rightarrow> task \<Rightarrow> nat" where
  "siblings_in_flight d t = length (filter (\<lambda>t2. in_flight t2 \<and>
     (\<exists>e \<in> set (db_origins d). fst e = t_id t \<and> (t_id t2, snd e) \<in> set (db_origins d))) (db_tasks d))"

definition default_pool :: "db \<Rightarrow> uuid option" where
  "default_pool d = map_option p_id (find p_default (db_pools d))"

definition lease_pool :: "db \<Rightarrow> uuid option \<Rightarrow> uuid option" where
  "lease_pool d pool = (case pool of Some p \<Rightarrow> Some p | None \<Rightarrow> default_pool d)"

text \<open>The WHERE clause. SQL equality never holds of NULL, so a task or a worker without a pool matches nothing.\<close>

definition lease_candidate :: "db \<Rightarrow> string list \<Rightarrow> uuid option \<Rightarrow> stage_filter \<Rightarrow> int \<Rightarrow> task \<Rightarrow> bool" where
  "lease_candidate d caps pool only per_company t \<longleftrightarrow>
     t_status t = TaskPending \<and> set (t_requires t) \<subseteq> set caps \<and>
     lease_pool d pool \<noteq> None \<and> t_pool t = lease_pool d pool \<and> stage_passes only (t_stage t) \<and>
     (case run_of d (t_run t) of
        None \<Rightarrow> False
      | Some r \<Rightarrow> run_status r = RunRunning \<and>
          (per_company \<le> 0 \<or> int (company_in_flight d (run_scope r)) < per_company))"

text \<open>The ORDER BY clause.\<close>

definition lease_key :: "db \<Rightarrow> task \<Rightarrow> nat \<times> nat \<times> int \<times> uuid" where
  "lease_key d t = ((case scope_of d t of None \<Rightarrow> 0 | Some sc \<Rightarrow> company_in_flight d sc),
     siblings_in_flight d t, t_priority t, t_id t)"

definition lease_choice ::
  "db \<Rightarrow> string list \<Rightarrow> uuid option \<Rightarrow> int \<Rightarrow> stage_filter \<Rightarrow> int \<Rightarrow> task list" where
  "lease_choice d caps pool limit only per_company =
     take (nat limit) (sort_key (lease_key d) (filter (lease_candidate d caps pool only per_company) (db_tasks d)))"

definition worker_of :: "db \<Rightarrow> uuid \<Rightarrow> worker option" where
  "worker_of d w = find (\<lambda>x. w_id x = w) (db_workers d)"

definition lease_row :: "db \<Rightarrow> uuid \<Rightarrow> int \<Rightarrow> uuid \<Rightarrow> task \<Rightarrow> task" where
  "lease_row d w secs tok t = t\<lparr>t_status := TaskLeased, t_worker := Some w,
     t_worker_name := map_option w_name (worker_of d w), t_worker_kind := map_option w_kind (worker_of d w),
     t_token := Some tok, t_expires := Some (db_now d + seconds secs),
     t_attempts := t_attempts t + 1, t_started_at := Some (db_now d)\<rparr>"

text \<open>The SET clause, row by row: each chosen row draws a token of its own.\<close>

fun lease_rows :: "(nat \<Rightarrow> uuid) \<Rightarrow> nat \<Rightarrow> uuid list \<Rightarrow> (uuid \<Rightarrow> task \<Rightarrow> task) \<Rightarrow> task list \<Rightarrow> task list" where
  "lease_rows u n ids f [] = []"
| "lease_rows u n ids f (t # ts) =
     (if t_id t \<in> set ids then f (u n) t # lease_rows u (Suc n) ids f ts else t # lease_rows u n ids f ts)"

definition job_targets :: "job_target \<Rightarrow> job_target list" where
  "job_targets tgt = (if tg_ips tgt \<noteq> []
     then map (\<lambda>ip. no_target\<lparr>tg_ip := ip, tg_ports := tg_ports tgt\<rparr>) (tg_ips tgt)
     else [tgt])"

definition job_of :: "task \<Rightarrow> job" where
  "job_of t = \<lparr>j_schema = JobSchema, j_job_id = t_id t, j_run_id = t_run t, j_task_id = t_id t,
     j_lease_token = (case t_token t of Some k \<Rightarrow> k | None \<Rightarrow> uuid_Nil), j_stage = t_stage t,
     j_targets = job_targets (t_target t)\<rparr>"

text \<open>
  \<open>LeaseTasksWhere\<close>: the jobs leased, or the error of the statement. A worker whose row is gone
  violates the foreign key of the task table as soon as a row would be updated.
\<close>

definition LeaseTasksWhere ::
  "uuid \<Rightarrow> string list \<Rightarrow> uuid option \<Rightarrow> int \<Rightarrow> int \<Rightarrow> stage_filter \<Rightarrow> int \<Rightarrow> db \<Rightarrow> job list result \<times> db" where
  "LeaseTasksWhere w caps pool limit secs only per_company d =
     (if limit \<le> 0 then (Inr [], d)
      else let ids = map t_id (lease_choice d caps pool limit only per_company);
               rows = lease_rows (db_uuid d) (db_drawn d) ids (lease_row d w secs) (db_tasks d)
           in if ids \<noteq> [] \<and> worker_of d w = None then (Inl ''scan_task: foreign key'', d)
              else (Inr (map job_of (filter (\<lambda>t. t_id t \<in> set ids) rows)),
                    d\<lparr>db_tasks := rows, db_drawn := db_drawn d + length ids\<rparr>))"

definition LeaseTasks :: "uuid \<Rightarrow> string list \<Rightarrow> uuid option \<Rightarrow> int \<Rightarrow> int \<Rightarrow> db \<Rightarrow> job list result \<times> db" where
  "LeaseTasks w caps pool limit secs d = LeaseTasksWhere w caps pool limit secs AnyStage 0 d"

section \<open>Keeping and closing a lease\<close>

definition set_tasks :: "(task \<Rightarrow> bool) \<Rightarrow> (task \<Rightarrow> task) \<Rightarrow> db \<Rightarrow> db" where
  "set_tasks p f d = d\<lparr>db_tasks := update_where p f (db_tasks d)\<rparr>"

definition held_by_worker :: "uuid \<Rightarrow> uuid \<Rightarrow> task \<Rightarrow> bool" where
  "held_by_worker tid w t \<longleftrightarrow> t_id t = tid \<and> t_worker t = Some w \<and> in_flight t"

definition held_on_token :: "uuid \<Rightarrow> uuid \<Rightarrow> task \<Rightarrow> bool" where
  "held_on_token tid tok t \<longleftrightarrow> t_id t = tid \<and> t_token t = Some tok \<and> in_flight t"

definition extend_row :: "db \<Rightarrow> int \<Rightarrow> task \<Rightarrow> task" where
  "extend_row d secs t = t\<lparr>t_expires := Some (db_now d + seconds secs), t_status := TaskRunning\<rparr>"

definition ExtendLeaseForWorker :: "uuid \<Rightarrow> uuid \<Rightarrow> int \<Rightarrow> db \<Rightarrow> bool \<times> db" where
  "ExtendLeaseForWorker tid w secs d =
     (0 < affected (held_by_worker tid w) (db_tasks d), set_tasks (held_by_worker tid w) (extend_row d secs) d)"

definition ExtendLease :: "uuid \<Rightarrow> uuid \<Rightarrow> int \<Rightarrow> db \<Rightarrow> db" where
  "ExtendLease tid tok secs d = set_tasks (held_on_token tid tok) (extend_row d secs) d"

definition done_row :: "db \<Rightarrow> task \<Rightarrow> task" where
  "done_row d t = t\<lparr>t_status := TaskDone, t_finished_at := Some (db_now d)\<rparr>"

definition bump_done :: "uuid \<Rightarrow> db \<Rightarrow> db" where
  "bump_done tid d = d\<lparr>db_targets := update_where (\<lambda>r. (tid, rt_id r) \<in> set (db_origins d))
     (\<lambda>r. r\<lparr>rt_done := rt_done r + 1\<rparr>) (db_targets d)\<rparr>"

definition CompleteTask :: "uuid \<Rightarrow> uuid \<Rightarrow> db \<Rightarrow> db" where
  "CompleteTask tid tok d =
     (if affected (held_on_token tid tok) (db_tasks d) = 0 then d
      else bump_done tid (set_tasks (held_on_token tid tok) (done_row d) d))"

definition exhausted :: "task \<Rightarrow> bool" where
  "exhausted t \<longleftrightarrow> t_attempts t \<ge> t_max t"

definition has_token :: "uuid \<Rightarrow> uuid \<Rightarrow> task \<Rightarrow> bool" where
  "has_token tid tok t \<longleftrightarrow> t_id t = tid \<and> t_token t = Some tok"

definition fail_row :: "string \<Rightarrow> task \<Rightarrow> task" where
  "fail_row msg t = t\<lparr>t_status := (if exhausted t then TaskFailed else TaskPending), t_error := Some msg,
     t_token := None, t_worker := None, t_expires := None,
     t_worker_name := (if exhausted t then t_worker_name t else None),
     t_worker_kind := (if exhausted t then t_worker_kind t else None)\<rparr>"

text \<open>\<open>FailTask\<close> matches on the identifier and the token only, whatever the status.\<close>

definition FailTask :: "uuid \<Rightarrow> uuid \<Rightarrow> string \<Rightarrow> db \<Rightarrow> db" where
  "FailTask tid tok msg d = set_tasks (has_token tid tok) (fail_row msg) d"

definition fail_for_good_row :: "db \<Rightarrow> string \<Rightarrow> task \<Rightarrow> task" where
  "fail_for_good_row d msg t = t\<lparr>t_status := TaskFailed, t_error := Some msg, t_token := None,
     t_worker := None, t_expires := None, t_finished_at := Some (db_now d)\<rparr>"

definition FailTaskPermanently :: "uuid \<Rightarrow> uuid \<Rightarrow> string \<Rightarrow> db \<Rightarrow> db" where
  "FailTaskPermanently tid tok msg d = set_tasks (has_token tid tok) (fail_for_good_row d msg) d"

definition lease_expired_mark :: string where
  "lease_expired_mark = ''[lease expired]''"

text \<open>A task the reaper put back: pending, without a token, its error naming the expired lease.\<close>

definition reaped :: "uuid \<Rightarrow> task \<Rightarrow> bool" where
  "reaped tid t \<longleftrightarrow> t_id t = tid \<and> t_status t = TaskPending \<and> t_token t = None \<and>
     (case t_error t of None \<Rightarrow> False | Some e \<Rightarrow> str_index e lease_expired_mark \<noteq> None)"

definition readopt_row :: "db \<Rightarrow> uuid \<Rightarrow> uuid \<Rightarrow> int \<Rightarrow> task \<Rightarrow> task" where
  "readopt_row d w tok secs t = t\<lparr>t_status := TaskRunning, t_worker := Some w, t_token := Some tok,
     t_expires := Some (db_now d + seconds secs),
     t_worker_name := map_option w_name (worker_of d w), t_worker_kind := map_option w_kind (worker_of d w)\<rparr>"

definition ReadoptTask :: "uuid \<Rightarrow> uuid \<Rightarrow> uuid \<Rightarrow> int \<Rightarrow> db \<Rightarrow> bool result \<times> db" where
  "ReadoptTask tid w tok secs d =
     (if affected (reaped tid) (db_tasks d) = 0 then (Inr False, d)
      else if worker_of d w = None then (Inl ''scan_task: foreign key'', d)
      else (Inr True, set_tasks (reaped tid) (readopt_row d w tok secs) d))"

section \<open>Reaping and cancelling\<close>

definition lease_expired :: "db \<Rightarrow> task \<Rightarrow> bool" where
  "lease_expired d t \<longleftrightarrow> in_flight t \<and> (case t_expires t of None \<Rightarrow> False | Some e \<Rightarrow> e < db_now d)"

definition reap_row :: "task \<Rightarrow> task" where
  "reap_row t = t\<lparr>t_status := (if exhausted t then TaskFailed else TaskPending),
     t_token := None, t_worker := None, t_expires := None,
     t_worker_name := (if exhausted t then t_worker_name t else None),
     t_worker_kind := (if exhausted t then t_worker_kind t else None),
     t_error := Some ((case t_error t of None \<Rightarrow> [] | Some e \<Rightarrow> e) @ '' '' @ lease_expired_mark)\<rparr>"

text \<open>The JSON document of a target has a key only when the field is not empty.\<close>

definition target_label :: "job_target \<Rightarrow> string" where
  "target_label t = (if tg_domain t \<noteq> [] then tg_domain t else if tg_ip t \<noteq> [] then tg_ip t
     else if tg_url t \<noteq> [] then tg_url t else tg_cidr t)"

record reaped_lease =
  rl_task :: uuid
  rl_run :: uuid
  rl_stage :: stage
  rl_target :: string
  rl_worker_name :: string
  rl_attempts :: int
  rl_max :: int
  rl_late :: int
  rl_status :: task_status

definition reaped_lease_of :: "db \<Rightarrow> task \<Rightarrow> reaped_lease" where
  "reaped_lease_of d t = \<lparr>rl_task = t_id t, rl_run = t_run t, rl_stage = t_stage t,
     rl_target = target_label (t_target t),
     rl_worker_name = (case t_worker_name t of None \<Rightarrow> [] | Some n \<Rightarrow> n),
     rl_attempts = t_attempts t, rl_max = t_max t,
     rl_late = (case t_expires t of None \<Rightarrow> 0 | Some e \<Rightarrow> db_now d - e),
     rl_status = t_status (reap_row t)\<rparr>"

definition ReapExpiredLeases :: "db \<Rightarrow> reaped_lease list \<times> db" where
  "ReapExpiredLeases d = (map (reaped_lease_of d) (filter (lease_expired d) (db_tasks d)),
     set_tasks (lease_expired d) reap_row d)"

definition CancelRunTasks :: "uuid \<Rightarrow> db \<Rightarrow> db" where
  "CancelRunTasks run d =
     set_tasks (\<lambda>t. t_run t = run \<and> outstanding t) (\<lambda>t. t\<lparr>t_status := TaskCancelled\<rparr>) d"

definition release_row :: "task \<Rightarrow> task" where
  "release_row t = t\<lparr>t_status := TaskPending, t_token := None, t_worker := None, t_expires := None\<rparr>"

definition ReleaseWorkerLeases :: "uuid \<Rightarrow> db \<Rightarrow> nat \<times> db" where
  "ReleaseWorkerLeases w d =
     (affected (\<lambda>t. t_worker t = Some w \<and> in_flight t) (db_tasks d),
      set_tasks (\<lambda>t. t_worker t = Some w \<and> in_flight t) release_row d)"

section \<open>Reading the queue\<close>

record task_brief =
  tb_stage :: stage
  tb_target :: string
  tb_status :: task_status
  tb_worker_name :: string
  tb_attempts :: int
  tb_expires :: "instant option"

definition task_of :: "db \<Rightarrow> uuid \<Rightarrow> task option" where
  "task_of d tid = find (\<lambda>t. t_id t = tid) (db_tasks d)"

definition TaskBrief :: "uuid \<Rightarrow> db \<Rightarrow> task_brief option" where
  "TaskBrief tid d = map_option (\<lambda>t. \<lparr>tb_stage = t_stage t, tb_target = target_label (t_target t),
     tb_status = t_status t, tb_worker_name = (case t_worker_name t of None \<Rightarrow> [] | Some n \<Rightarrow> n),
     tb_attempts = t_attempts t, tb_expires = t_expires t\<rparr>) (task_of d tid)"

record run_progress =
  pr_total :: nat
  pr_done :: nat
  pr_failed :: nat
  pr_outstanding :: nat

definition run_tasks :: "db \<Rightarrow> uuid \<Rightarrow> task list" where
  "run_tasks d run = filter (\<lambda>t. t_run t = run) (db_tasks d)"

definition RunProgress :: "uuid \<Rightarrow> db \<Rightarrow> run_progress" where
  "RunProgress run d = \<lparr>pr_total = length (run_tasks d run),
     pr_done = length (filter (\<lambda>t. t_status t = TaskDone) (run_tasks d run)),
     pr_failed = length (filter (\<lambda>t. t_status t = TaskFailed) (run_tasks d run)),
     pr_outstanding = length (filter outstanding (run_tasks d run))\<rparr>"

definition TasksByStage :: "uuid \<Rightarrow> stage \<Rightarrow> db \<Rightarrow> task list" where
  "TasksByStage run s d = filter (\<lambda>t. t_stage t = s) (run_tasks d run)"

definition StageOutstanding :: "uuid \<Rightarrow> stage list \<Rightarrow> db \<Rightarrow> nat" where
  "StageOutstanding run ss d = length (filter (\<lambda>t. t_stage t \<in> set ss \<and> outstanding t) (run_tasks d run))"

definition StageExists :: "uuid \<Rightarrow> stage \<Rightarrow> db \<Rightarrow> bool" where
  "StageExists run s d \<longleftrightarrow> length (TasksByStage run s d) > 0"

definition SetTaskResult :: "uuid \<Rightarrow> stage_summary \<Rightarrow> db \<Rightarrow> db" where
  "SetTaskResult tid sm d = set_tasks (\<lambda>t. t_id t = tid) (\<lambda>t. t\<lparr>t_result := Some sm\<rparr>) d"

definition TaskResult :: "uuid \<Rightarrow> db \<Rightarrow> stage_summary option" where
  "TaskResult tid d = (case task_of d tid of None \<Rightarrow> None | Some t \<Rightarrow> t_result t)"

definition OriginsForTask :: "uuid \<Rightarrow> db \<Rightarrow> uuid list" where
  "OriginsForTask tid d = map snd (filter (\<lambda>e. fst e = tid) (db_origins d))"

definition ScannedAddresses :: "uuid \<Rightarrow> db \<Rightarrow> string list" where
  "ScannedAddresses run d =
     concat (map (\<lambda>t. tg_ips (t_target t)) (TasksByStage run StagePortScan d)) @
     map (\<lambda>t. tg_ip (t_target t)) (filter (\<lambda>t. tg_ip (t_target t) \<noteq> []) (TasksByStage run StagePortScan d))"

definition endpoint_key :: "string \<Rightarrow> int \<Rightarrow> string" where
  "endpoint_key ip port = ip @ '':'' @ Itoa port"

text \<open>
  A probe stored without a port has no \<^verbatim>\<open>port\<close> key; its row is NULL, which cannot be scanned into a
  string, and the query fails.
\<close>

definition ProbedEndpoints :: "uuid \<Rightarrow> db \<Rightarrow> string list result" where
  "ProbedEndpoints run d =
     (let rows = filter (\<lambda>t. tg_ip (t_target t) \<noteq> []) (TasksByStage run StageServiceProbe d)
      in if \<exists>t \<in> set rows. tg_port (t_target t) = 0 then Inl ''cannot scan NULL''
         else Inr (map (\<lambda>t. endpoint_key (tg_ip (t_target t)) (tg_port (t_target t))) rows))"

record task_result =
  tr_names :: nat
  tr_addresses :: nat
  tr_services :: nat
  tr_urls :: nat
  tr_sources :: "string \<rightharpoonup> int"

definition taskResultCounts :: "stage_summary option \<Rightarrow> task_result option" where
  "taskResultCounts raw = (case raw of None \<Rightarrow> None | Some s \<Rightarrow>
     (if sm_domains s = [] \<and> sm_ips s = [] \<and> sm_services s = [] \<and> sm_urls s = [] then None
      else Some \<lparr>tr_names = length (sm_domains s), tr_addresses = length (sm_ips s),
        tr_services = length (sm_services s), tr_urls = length (sm_urls s), tr_sources = sm_sources s\<rparr>))"

text \<open>A pending task no live worker of its pool can run.\<close>

definition WorkerStaleAfter :: int where
  "WorkerStaleAfter = seconds 90"

definition can_serve :: "db \<Rightarrow> task \<Rightarrow> worker \<Rightarrow> bool" where
  "can_serve d t w \<longleftrightarrow> w_status w = WorkerActive \<and> w_last_seen w > db_now d - WorkerStaleAfter \<and>
     w_pool w = t_pool t \<and> set (t_requires t) \<subseteq> set (w_capabilities w)"

definition stranded :: "db \<Rightarrow> int \<Rightarrow> task \<Rightarrow> bool" where
  "stranded d age t \<longleftrightarrow> t_status t = TaskPending \<and>
     (case run_of d (t_run t) of None \<Rightarrow> False | Some r \<Rightarrow> run_status r = RunRunning) \<and>
     t_created_at t < db_now d - age \<and>
     \<not> (\<exists>f \<in> set (db_fleets d). rf_run f = t_run t \<and> rf_status f = ''requested'') \<and>
     \<not> (\<exists>w \<in> set (db_workers d). can_serve d t w)"

record stranded_row =
  sr_run :: uuid
  sr_pool :: "uuid option"
  sr_stage :: stage
  sr_tasks :: nat
  sr_oldest :: instant

definition stranded_group :: "task \<Rightarrow> uuid \<times> uuid option \<times> stage" where
  "stranded_group t = (t_run t, t_pool t, t_stage t)"

definition StrandedTasks :: "int \<Rightarrow> db \<Rightarrow> stranded_row list" where
  "StrandedTasks age d =
     (let ts = filter (stranded d age) (db_tasks d)
      in sort_key sr_oldest (map (\<lambda>g.
           let rows = filter (\<lambda>t. stranded_group t = g) ts
           in \<lparr>sr_run = fst g, sr_pool = fst (snd g), sr_stage = snd (snd g), sr_tasks = length rows,
               sr_oldest = Min (set (map t_created_at rows))\<rparr>)
         (remdups (map stranded_group ts))))"

end
