(* ===== verification/RunStore.thy ===== *)
theory RunStore
  imports TaskStore
begin

text \<open>
  Scan runs and what they are made of: \<^verbatim>\<open>internal/store/run.go\<close>, the target list of
  \<^verbatim>\<open>store/scope.go\<close>, the run's wordlists (\<^verbatim>\<open>store/wordlist.go\<close>), its parameters
  (\<^verbatim>\<open>store/scanprofile.go\<close>) and the reads of the asset graph the planner makes
  (\<^verbatim>\<open>store/asset.go\<close>). \<open>ListTargetsMerged\<close> is where duplicate scope targets are folded.
\<close>

section \<open>Creating a run\<close>

definition fresh_target :: "db \<Rightarrow> uuid \<Rightarrow> run_target \<Rightarrow> run_target" where
  "fresh_target d run t = \<lparr>rt_id = fresh d, rt_run = run, rt_kind = rt_kind t, rt_value = rt_value t,
     rt_status = TargetPending, rt_skip_reason = None, rt_total = 0, rt_done = 0,
     rt_started_at = None, rt_finished_at = None\<rparr>"

text \<open>
  One \<^verbatim>\<open>INSERT INTO run_target\<close> per target. The table is unique in run, kind and value. The
  targets handed back carry the run and their own identifier; Go leaves their status empty, and
  the only test made of it is against \<open>skipped\<close>, which the pending status fails alike.
\<close>

fun create_targets :: "uuid \<Rightarrow> run_target list \<Rightarrow> db \<Rightarrow> (run_target list \<times> db) result" where
  "create_targets run [] d = Inr ([], d)"
| "create_targets run (t # ts) d =
     (if \<exists>r \<in> set (db_targets d). rt_run r = run \<and> rt_kind r = rt_kind t \<and> rt_value r = rt_value t
      then Inl ''run_target: unique''
      else case create_targets run ts (drawn d\<lparr>db_targets := db_targets d @ [fresh_target d run t]\<rparr>) of
          Inl e \<Rightarrow> Inl e
        | Inr (saved, d') \<Rightarrow> Inr (fresh_target d run t # saved, d'))"

definition queued_run :: "db \<Rightarrow> scan_run \<Rightarrow> scan_run" where
  "queued_run d r = r\<lparr>run_id := fresh d, run_status := RunQueued, run_created_at := db_now d,
     run_started_at := None, run_finished_at := None, run_profile_id := None, run_params := Map.empty,
     run_vpn := None\<rparr>"

definition CreateRun :: "scan_run \<Rightarrow> run_target list \<Rightarrow> db \<Rightarrow> (scan_run \<times> run_target list) result \<times> db" where
  "CreateRun run targets d =
     (if dangling (run_pool run) (map p_id (db_pools d)) then (Inl ''scan_run: foreign key'', d)
      else let r = queued_run d run
           in case create_targets (run_id r) targets (drawn d\<lparr>db_runs := db_runs d @ [r]\<rparr>) of
                Inl e \<Rightarrow> (Inl e, d)
              | Inr (saved, d') \<Rightarrow> (Inr (r, saved), d'))"

section \<open>The life of a run\<close>

definition GetRun :: "uuid \<Rightarrow> db \<Rightarrow> scan_run option" where
  "GetRun r d = run_of d r"

definition set_runs :: "(scan_run \<Rightarrow> bool) \<Rightarrow> (scan_run \<Rightarrow> scan_run) \<Rightarrow> db \<Rightarrow> db" where
  "set_runs p f d = d\<lparr>db_runs := update_where p f (db_runs d)\<rparr>"

definition status_row :: "db \<Rightarrow> run_status \<Rightarrow> scan_run \<Rightarrow> scan_run" where
  "status_row d s r = (let r' = r\<lparr>run_status := s\<rparr> in
     if s = RunRunning
     then r'\<lparr>run_started_at := (case run_started_at r of None \<Rightarrow> Some (db_now d) | Some i \<Rightarrow> Some i)\<rparr>
     else if s \<in> {RunCompleted, RunFailed, RunCancelled} then r'\<lparr>run_finished_at := Some (db_now d)\<rparr>
     else r')"

definition SetRunStatus :: "uuid \<Rightarrow> run_status \<Rightarrow> db \<Rightarrow> db" where
  "SetRunStatus rid s d = set_runs (\<lambda>r. run_id r = rid) (status_row d s) d"

definition PauseRun :: "uuid \<Rightarrow> db \<Rightarrow> bool \<times> db" where
  "PauseRun rid d = (let p = (\<lambda>r. run_id r = rid \<and> run_status r = RunRunning) in
     (0 < affected p (db_runs d), set_runs p (\<lambda>r. r\<lparr>run_status := RunPaused\<rparr>) d))"

definition ResumeRun :: "uuid \<Rightarrow> db \<Rightarrow> bool \<times> db" where
  "ResumeRun rid d = (let p = (\<lambda>r. run_id r = rid \<and> run_status r = RunPaused) in
     (0 < affected p (db_runs d), set_runs p (\<lambda>r. r\<lparr>run_status := RunRunning\<rparr>) d))"

definition SetRunPool :: "uuid \<Rightarrow> uuid \<Rightarrow> db \<Rightarrow> db" where
  "SetRunPool rid pool d = set_runs (\<lambda>r. run_id r = rid) (\<lambda>r. r\<lparr>run_pool := Some pool\<rparr>) d"

definition SetRunVPN :: "uuid \<Rightarrow> uuid \<Rightarrow> db \<Rightarrow> db" where
  "SetRunVPN rid v d = set_runs (\<lambda>r. run_id r = rid) (\<lambda>r. r\<lparr>run_vpn := Some v\<rparr>) d"

definition SetRunParams :: "uuid \<Rightarrow> uuid option \<Rightarrow> params \<Rightarrow> db \<Rightarrow> db" where
  "SetRunParams rid prof ps d =
     set_runs (\<lambda>r. run_id r = rid) (\<lambda>r. r\<lparr>run_profile_id := prof, run_params := ps\<rparr>) d"

definition GetRunParams :: "uuid \<Rightarrow> db \<Rightarrow> params option" where
  "GetRunParams rid d = map_option run_params (run_of d rid)"

definition zombie :: "db \<Rightarrow> int \<Rightarrow> scan_run \<Rightarrow> bool" where
  "zombie d age r \<longleftrightarrow> run_status r = RunQueued \<and> run_created_at r < db_now d - age \<and>
     \<not> (\<exists>t \<in> set (db_tasks d). t_run t = run_id r)"

definition FailZombieRuns :: "int \<Rightarrow> db \<Rightarrow> nat \<times> db" where
  "FailZombieRuns age d = (affected (zombie d age) (db_runs d),
     set_runs (zombie d age) (\<lambda>r. r\<lparr>run_status := RunFailed, run_finished_at := Some (db_now d)\<rparr>) d)"

definition ScopeHasActiveRun :: "uuid \<Rightarrow> db \<Rightarrow> bool" where
  "ScopeHasActiveRun sc d \<longleftrightarrow> 0 < affected (\<lambda>r. run_scope r = sc \<and>
     run_status r \<in> {RunQueued, RunPlanning, RunRunning, RunPaused}) (db_runs d)"

definition QueuedRuns :: "db \<Rightarrow> scan_run list" where
  "QueuedRuns d = take 20 (sort_key run_created_at (filter (\<lambda>r. run_status r = RunQueued) (db_runs d)))"

definition RunningRuns :: "db \<Rightarrow> scan_run list" where
  "RunningRuns d = take 100 (sort_key run_created_at (filter (\<lambda>r. run_status r = RunRunning) (db_runs d)))"

text \<open>\<^verbatim>\<open>ORDER BY finished_at DESC NULLS LAST\<close>.\<close>

definition desc_nulls_last :: "instant option \<Rightarrow> bool \<times> int" where
  "desc_nulls_last x = (case x of None \<Rightarrow> (True, 0) | Some i \<Rightarrow> (False, - i))"

definition PreviousRun :: "uuid \<Rightarrow> uuid \<Rightarrow> db \<Rightarrow> uuid option" where
  "PreviousRun sc exclude d =
     (case sort_key (\<lambda>r. desc_nulls_last (run_finished_at r))
        (filter (\<lambda>r. run_scope r = sc \<and> run_status r = RunCompleted \<and> run_id r \<noteq> exclude) (db_runs d)) of
        [] \<Rightarrow> None
      | r # _ \<Rightarrow> Some (run_id r))"

text \<open>Deleting runs with their foreign keys: everything keyed to a run goes with it.\<close>

definition delete_runs :: "(uuid \<Rightarrow> bool) \<Rightarrow> db \<Rightarrow> db" where
  "delete_runs gone d = d\<lparr>db_runs := filter (\<lambda>r. \<not> gone (run_id r)) (db_runs d),
     db_targets := filter (\<lambda>r. \<not> gone (rt_run r)) (db_targets d),
     db_tasks := filter (\<lambda>t. \<not> gone (t_run t)) (db_tasks d),
     db_origins := filter (\<lambda>e. (\<forall>t \<in> set (db_tasks d). gone (t_run t) \<longrightarrow> t_id t \<noteq> fst e) \<and>
                               (\<forall>r \<in> set (db_targets d). gone (rt_run r) \<longrightarrow> rt_id r \<noteq> snd e)) (db_origins d),
     db_run_wordlists := filter (\<lambda>e. \<not> gone (fst e)) (db_run_wordlists d),
     db_fleets := filter (\<lambda>f. \<not> gone (rf_run f)) (db_fleets d),
     db_schedules := map (\<lambda>s. s\<lparr>sc_last_run := unset gone (sc_last_run s)\<rparr>) (db_schedules d),
     db_assets := (db_assets d)\<lparr>as_observations := filter (\<lambda>r. \<not> gone (so_run r)) (as_observations (db_assets d)),
       as_finding_obs := filter (\<lambda>r. \<not> gone (fo_run r)) (as_finding_obs (db_assets d)),
       as_name_obs := filter (\<lambda>r. \<not> gone (snd (snd (fst r)))) (as_name_obs (db_assets d)),
       as_events := filter (\<lambda>r. \<not> gone (ce_run r)) (as_events (db_assets d))\<rparr>,
     db_notices := (db_notices d)\<lparr>no_deliveries := map (\<lambda>r. r\<lparr>nd_run := unset gone (nd_run r)\<rparr>) (no_deliveries (db_notices d))\<rparr>\<rparr>"

definition DeleteRun :: "uuid \<Rightarrow> db \<Rightarrow> bool \<times> db" where
  "DeleteRun rid d = (0 < affected (\<lambda>r. run_id r = rid) (db_runs d), delete_runs (\<lambda>i. i = rid) d)"

section \<open>Run targets\<close>

definition ListRunTargets :: "uuid \<Rightarrow> db \<Rightarrow> run_target list" where
  "ListRunTargets rid d = sort_key rt_value (filter (\<lambda>r. rt_run r = rid) (db_targets d))"

definition set_targets :: "(run_target \<Rightarrow> bool) \<Rightarrow> (run_target \<Rightarrow> run_target) \<Rightarrow> db \<Rightarrow> db" where
  "set_targets p f d = d\<lparr>db_targets := update_where p f (db_targets d)\<rparr>"

definition target_status_row :: "db \<Rightarrow> target_status \<Rightarrow> string option \<Rightarrow> run_target \<Rightarrow> run_target" where
  "target_status_row d s why r = r\<lparr>rt_status := s, rt_skip_reason := why,
     rt_started_at := (if s = TargetRunning
       then (case rt_started_at r of None \<Rightarrow> Some (db_now d) | Some i \<Rightarrow> Some i) else rt_started_at r),
     rt_finished_at := (if s \<in> {TargetCompleted, TargetIncomplete, TargetFailed, TargetSkipped}
       then Some (db_now d) else rt_finished_at r)\<rparr>"

definition SetRunTargetStatus :: "uuid \<Rightarrow> target_status \<Rightarrow> string option \<Rightarrow> db \<Rightarrow> db" where
  "SetRunTargetStatus rt s why d = set_targets (\<lambda>r. rt_id r = rt) (target_status_row d s why) d"

section \<open>Starting a run like an old one\<close>

record rerun_spec =
  rs_scope :: uuid
  rs_profile :: string
  rs_profile_id :: "uuid option"
  rs_params :: params
  rs_wordlists :: "uuid list"
  rs_exit :: string
  rs_vpn :: "uuid option"
  rs_pool :: "uuid option"
  rs_workers :: int
  rs_targets :: "string list"

definition fleet_of :: "db \<Rightarrow> uuid \<Rightarrow> run_fleet option" where
  "fleet_of d rid = find (\<lambda>f. rf_run f = rid) (db_fleets d)"

definition RerunSpec :: "uuid \<Rightarrow> db \<Rightarrow> rerun_spec option" where
  "RerunSpec rid d = (case run_of d rid of None \<Rightarrow> None | Some r \<Rightarrow>
     (let f = fleet_of d rid in Some \<lparr>rs_scope = run_scope r, rs_profile = run_profile r,
       rs_profile_id = run_profile_id r, rs_params = run_params r,
       rs_wordlists = map snd (filter (\<lambda>e. fst e = rid) (db_run_wordlists d)),
       rs_exit = (if run_profile r = ''passive'' then [] else if f \<noteq> None then ''local''
         else if run_pool r \<noteq> None then ''remote'' else []),
       rs_vpn = (case f of None \<Rightarrow> None | Some x \<Rightarrow> rf_vpn x), rs_pool = run_pool r,
       rs_workers = (case f of None \<Rightarrow> 0 | Some x \<Rightarrow> if rf_auto x then 0 else rf_workers x),
       rs_targets = sort (map rt_value (filter (\<lambda>t. rt_run t = rid) (db_targets d)))\<rparr>))"

section \<open>The targets of a scope\<close>

definition ListTargets :: "uuid \<Rightarrow> string \<Rightarrow> db \<Rightarrow> scope_target list" where
  "ListTargets sc tag d = sort_key (\<lambda>t. (st_kind t, st_value t))
     (filter (\<lambda>t. st_scope t = sc \<and> (tag \<noteq> [] \<longrightarrow> tag \<in> set (st_tags t))) (db_scope_targets d))"

definition ListTargetsMerged :: "uuid \<Rightarrow> string \<Rightarrow> db \<Rightarrow> scope_target list" where
  "ListTargetsMerged sc tag d = MergeTargets (ListTargets sc tag d)"

section \<open>Wordlists and profiles\<close>

definition GetWordlist :: "uuid \<Rightarrow> db \<Rightarrow> wordlist option" where
  "GetWordlist i d = find (\<lambda>w. wl_id w = i) (db_wordlists d)"

definition DefaultWordlists :: "string \<Rightarrow> db \<Rightarrow> wordlist list" where
  "DefaultWordlists kind d = sort_key wl_name
     (filter (\<lambda>w. wl_kind w = kind \<and> wl_default w \<and> wl_status w = ''ready'') (db_wordlists d))"

fun SetRunWordlists :: "uuid \<Rightarrow> uuid list \<Rightarrow> db \<Rightarrow> string option \<times> db" where
  "SetRunWordlists rid [] d = (None, d)"
| "SetRunWordlists rid (i # is) d =
     (if i \<notin> wl_id ` set (db_wordlists d) then (Some ''run_wordlist: foreign key'', d)
      else SetRunWordlists rid is (if (rid, i) \<in> set (db_run_wordlists d) then d
        else d\<lparr>db_run_wordlists := db_run_wordlists d @ [(rid, i)]\<rparr>))"

definition RunWordlists :: "uuid \<Rightarrow> db \<Rightarrow> wordlist list" where
  "RunWordlists rid d = sort_key wl_name (concat (map (\<lambda>e.
     filter (\<lambda>w. wl_id w = snd e \<and> wl_status w = ''ready'') (db_wordlists d))
     (filter (\<lambda>e. fst e = rid) (db_run_wordlists d))))"

definition RunWordlistsByKind :: "uuid \<Rightarrow> string \<Rightarrow> db \<Rightarrow> wordlist list" where
  "RunWordlistsByKind rid kind d = filter (\<lambda>w. wl_kind w = kind) (RunWordlists rid d)"

definition GetScanProfileParams :: "uuid \<Rightarrow> db \<Rightarrow> params option" where
  "GetScanProfileParams i d = map_option pf_params (find (\<lambda>p. pf_id p = i) (db_profiles d))"

section \<open>What the planner reads of the asset graph\<close>

definition SharedAddresses :: "uuid \<Rightarrow> db \<Rightarrow> string list" where
  "SharedAddresses sc d = map ip_addr (filter (\<lambda>a. ip_scope a = sc \<and> ip_shared a) (db_ips d))"

text \<open>
  \<open>NamesResolvingTo\<close>; an address PostgreSQL cannot read fails the query. Addresses are stored in
  their canonical text.
\<close>

definition NamesResolvingTo :: "uuid \<Rightarrow> string \<Rightarrow> int \<Rightarrow> db \<Rightarrow> string list result" where
  "NamesResolvingTo sc ip limit d = (case db_host d ip of
     None \<Rightarrow> Inl ''invalid input syntax for type inet''
   | Some addr \<Rightarrow> Inr (take (nat limit) (sort_key (\<lambda>n. (length n, n)) (remdups
       (map dn_name (filter (\<lambda>n. dn_scope n = sc \<and>
          (\<exists>e \<in> set (db_domain_ips d). di_domain e = dn_id n \<and> di_via e \<noteq> Some ''wildcard'' \<and>
             (\<exists>a \<in> set (db_ips d). ip_id a = di_ip e \<and> ip_addr a = addr))) (db_domains d)))))))"

end
