(* ===== verification/TaskLife.thy ===== *)
theory TaskLife
  imports RunStore
begin

text \<open>
  The life of a task. \<open>queue_inv\<close> is the invariant of the task queue: unique identifiers, a pending
  task holds no lease, a task in flight holds a token and an expiry, and the progress counters of
  a run target equal the tasks that serve it and those of them that are done. \<open>queue_step\<close> is every
  change the control plane makes to the queue; the interpretation of \<open>guarded_system\<close> shows that
  each keeps the invariant, and \<open>lifecycle\<close> is the abstract state machine they refine.
\<close>

section \<open>The invariant\<close>

definition task_ok :: "task \<Rightarrow> bool" where
  "task_ok t \<longleftrightarrow>
     (t_status t = TaskPending \<longrightarrow> t_token t = None \<and> t_worker t = None \<and> t_expires t = None) \<and>
     (in_flight t \<longrightarrow> t_token t \<noteq> None \<and> t_expires t \<noteq> None) \<and> 0 \<le> t_attempts t"

definition serving :: "db \<Rightarrow> uuid \<Rightarrow> task list" where
  "serving d rt = filter (\<lambda>t. (t_id t, rt) \<in> set (db_origins d)) (db_tasks d)"

definition counters_ok :: "db \<Rightarrow> bool" where
  "counters_ok d \<longleftrightarrow> (\<forall>r \<in> set (db_targets d).
     rt_total r = int (length (serving d (rt_id r))) \<and>
     rt_done r = int (length (filter (\<lambda>t. t_status t = TaskDone) (serving d (rt_id r)))))"

definition keys_ok :: "db \<Rightarrow> bool" where
  "keys_ok d \<longleftrightarrow> uuids_fresh d \<and> distinct (map t_id (db_tasks d)) \<and> distinct (map rt_id (db_targets d)) \<and>
     t_id ` set (db_tasks d) \<subseteq> used_ids d \<and> rt_id ` set (db_targets d) \<subseteq> used_ids d \<and>
     (\<forall>e \<in> set (db_origins d). fst e \<in> t_id ` set (db_tasks d) \<and> snd e \<in> rt_id ` set (db_targets d))"

definition queue_inv :: "db \<Rightarrow> bool" where
  "queue_inv d \<longleftrightarrow> keys_ok d \<and> (\<forall>t \<in> set (db_tasks d). task_ok t) \<and> counters_ok d"

lemma new_task_sel [simp]:
  "t_id (new_task d run sp) = fresh d" "t_status (new_task d run sp) = TaskPending"
  "t_run (new_task d run sp) = run" "t_stage (new_task d run sp) = sp_stage sp"
  "t_pool (new_task d run sp) = sp_pool sp" "t_token (new_task d run sp) = None"
  by (simp_all add: new_task_def)

lemma task_ok_new: "task_ok (new_task d run sp)"
  by (simp add: task_ok_def new_task_def)

section \<open>Steps that rewrite rows in place\<close>

text \<open>A row and what a statement made of it: same task, still well formed, done exactly when it was.\<close>

definition row_step :: "task \<Rightarrow> task \<Rightarrow> bool" where
  "row_step t t' \<longleftrightarrow> t_id t' = t_id t \<and> (task_ok t \<longrightarrow> task_ok t') \<and>
     (t_status t' = TaskDone \<longleftrightarrow> t_status t = TaskDone)"

lemma row_step_refl [simp]: "row_step t t"
  by (simp add: row_step_def)

lemma row_step_ids: "list_all2 row_step ts ts' \<Longrightarrow> map t_id ts' = map t_id ts"
  by (induction rule: list_all2_induct) (simp_all add: row_step_def)

lemma row_step_ok: "list_all2 row_step ts ts' \<Longrightarrow> \<forall>t \<in> set ts. task_ok t \<Longrightarrow> \<forall>t \<in> set ts'. task_ok t"
  by (induction rule: list_all2_induct) (simp_all add: row_step_def)

lemma row_step_count:
  "list_all2 row_step ts ts' \<Longrightarrow>
   length (filter (\<lambda>t. P (t_id t)) ts') = length (filter (\<lambda>t. P (t_id t)) ts) \<and>
   length (filter (\<lambda>t. t_status t = TaskDone) (filter (\<lambda>t. P (t_id t)) ts')) =
   length (filter (\<lambda>t. t_status t = TaskDone) (filter (\<lambda>t. P (t_id t)) ts))"
  by (induction rule: list_all2_induct) (auto simp: row_step_def)

text \<open>The tables the invariant reads, apart from the tasks, are the same; identifiers may have been drawn.\<close>

definition same_keys :: "db \<Rightarrow> db \<Rightarrow> bool" where
  "same_keys d d' \<longleftrightarrow> db_uuid d' = db_uuid d \<and> db_drawn d \<le> db_drawn d' \<and> db_origins d' = db_origins d \<and>
     db_targets d' = db_targets d"

lemma used_ids_mono: "db_uuid d' = db_uuid d \<Longrightarrow> db_drawn d \<le> db_drawn d' \<Longrightarrow> used_ids d \<subseteq> used_ids d'"
  by (auto simp: used_ids_def)

lemma keys_ok_cong:
  assumes "keys_ok d" and "map t_id (db_tasks d') = map t_id (db_tasks d)"
    and "map rt_id (db_targets d') = map rt_id (db_targets d)" and "db_origins d' = db_origins d"
    and "db_uuid d' = db_uuid d" and "db_drawn d \<le> db_drawn d'"
  shows "keys_ok d'"
proof -
  have "t_id ` set (db_tasks d') = t_id ` set (db_tasks d)" "rt_id ` set (db_targets d') = rt_id ` set (db_targets d)"
    using assms(2,3) by (metis list.set_map)+
  moreover have "used_ids d \<subseteq> used_ids d'" using assms used_ids_mono by blast
  ultimately show ?thesis using assms unfolding keys_ok_def uuids_fresh_def by auto
qed

lemma row_step_inv:
  assumes inv: "queue_inv d" and rw: "list_all2 row_step (db_tasks d) (db_tasks d')" and sk: "same_keys d d'"
  shows "queue_inv d'"
proof -
  have "keys_ok d'"
    by (rule keys_ok_cong [of d]) (use inv sk row_step_ids [OF rw] in \<open>simp_all add: queue_inv_def same_keys_def\<close>)
  moreover have "\<forall>t \<in> set (db_tasks d'). task_ok t"
    using row_step_ok [OF rw] inv by (simp add: queue_inv_def)
  moreover have "counters_ok d'"
  proof -
    have "length (serving d' rt) = length (serving d rt) \<and>
        length (filter (\<lambda>t. t_status t = TaskDone) (serving d' rt)) =
        length (filter (\<lambda>t. t_status t = TaskDone) (serving d rt))" for rt
      using row_step_count [OF rw, of "\<lambda>i. (i, rt) \<in> set (db_origins d)"] sk
      by (simp only: serving_def same_keys_def)
    then show ?thesis using inv sk by (simp add: queue_inv_def counters_ok_def same_keys_def)
  qed
  ultimately show ?thesis by (simp add: queue_inv_def)
qed

lemma update_where_row_step:
  "(\<And>t. t \<in> set ts \<Longrightarrow> p t \<Longrightarrow> row_step t (f t)) \<Longrightarrow> list_all2 row_step ts (update_where p f ts)"
  by (auto simp: update_where_def list_all2_map2 intro!: list.rel_refl_strong)

lemma set_tasks_sel [simp]:
  "db_tasks (set_tasks p f d) = update_where p f (db_tasks d)" "db_targets (set_tasks p f d) = db_targets d"
  "db_origins (set_tasks p f d) = db_origins d" "db_uuid (set_tasks p f d) = db_uuid d"
  "db_drawn (set_tasks p f d) = db_drawn d" "db_now (set_tasks p f d) = db_now d"
  "db_runs (set_tasks p f d) = db_runs d" "db_workers (set_tasks p f d) = db_workers d"
  "db_pools (set_tasks p f d) = db_pools d"
  by (simp_all add: set_tasks_def)

lemma set_tasks_inv:
  assumes "queue_inv d" and "\<And>t. t \<in> set (db_tasks d) \<Longrightarrow> p t \<Longrightarrow> row_step t (f t)"
  shows "queue_inv (set_tasks p f d)"
  by (rule row_step_inv [OF assms(1)]) (auto simp: same_keys_def intro: update_where_row_step assms(2))

named_theorems row_defs \<open>the rows the statements write and the conditions they match\<close>

lemmas [row_defs] = row_step_def task_ok_def lease_row_def extend_row_def done_row_def fail_row_def
  fail_for_good_row_def readopt_row_def reap_row_def release_row_def held_by_worker_def held_on_token_def
  has_token_def reaped_def lease_expired_def outstanding_def

lemma extend_row_step: "in_flight t \<Longrightarrow> row_step t (extend_row d secs t)"
  by (auto simp: row_defs)

lemma fail_row_step: "in_flight t \<Longrightarrow> row_step t (fail_row msg t)"
  by (auto simp: row_defs)

lemma fail_for_good_row_step: "in_flight t \<Longrightarrow> row_step t (fail_for_good_row d msg t)"
  by (auto simp: row_defs)

lemma readopt_row_step: "t_status t = TaskPending \<Longrightarrow> row_step t (readopt_row d w tok secs t)"
  by (auto simp: row_defs)

lemma reap_row_step: "in_flight t \<Longrightarrow> row_step t (reap_row t)"
  by (auto simp: row_defs)

lemma release_row_step: "in_flight t \<Longrightarrow> row_step t (release_row t)"
  by (auto simp: row_defs)

lemma lease_row_step: "t_status t = TaskPending \<Longrightarrow> row_step t (lease_row d w secs tok t)"
  by (auto simp: row_defs)

lemma cancel_row_step: "outstanding t \<Longrightarrow> row_step t (t\<lparr>t_status := TaskCancelled\<rparr>)"
  by (auto simp: row_defs)

text \<open>The lease: the chosen rows and only those are rewritten, each with a token drawn for it.\<close>

lemma lease_rows_row_step:
  "(\<And>t tok. t \<in> set ts \<Longrightarrow> t_id t \<in> set ids \<Longrightarrow> row_step t (f tok t)) \<Longrightarrow>
   list_all2 row_step ts (lease_rows u n ids f ts)"
  by (induction ts arbitrary: n) auto

lemma lease_choice_candidate:
  "t \<in> set (lease_choice d caps pool limit only pc) \<Longrightarrow>
   t \<in> set (db_tasks d) \<and> lease_candidate d caps pool only pc t"
  unfolding lease_choice_def by (auto dest: in_set_takeD)

lemma chosen_id_candidate:
  assumes "distinct (map t_id (db_tasks d))" and "t \<in> set (db_tasks d)"
    and "t_id t \<in> set (map t_id (lease_choice d caps pool limit only pc))"
  shows "lease_candidate d caps pool only pc t"
proof -
  obtain c where c: "c \<in> set (lease_choice d caps pool limit only pc)" "t_id c = t_id t" using assms(3) by auto
  then have "c = t" using assms lease_choice_candidate distinct_key_unique by metis
  then show ?thesis using c lease_choice_candidate by blast
qed

lemma LeaseTasksWhere_inv:
  assumes "queue_inv d"
  shows "queue_inv (snd (LeaseTasksWhere w caps pool limit secs only pc d))"
proof -
  let ?ids = "map t_id (lease_choice d caps pool limit only pc)"
  have "distinct (map t_id (db_tasks d))" using assms by (simp add: queue_inv_def keys_ok_def)
  then have "t_status t = TaskPending" if "t \<in> set (db_tasks d)" "t_id t \<in> set ?ids" for t
    using chosen_id_candidate that by (auto simp: lease_candidate_def)
  then have "list_all2 row_step (db_tasks d)
      (lease_rows (db_uuid d) (db_drawn d) ?ids (lease_row d w secs) (db_tasks d))"
    by (auto intro!: lease_rows_row_step lease_row_step)
  then have "queue_inv (d\<lparr>db_tasks := lease_rows (db_uuid d) (db_drawn d) ?ids (lease_row d w secs) (db_tasks d),
      db_drawn := db_drawn d + length ?ids\<rparr>)"
    by (intro row_step_inv [OF assms]) (auto simp: same_keys_def)
  then show ?thesis using assms by (auto simp: LeaseTasksWhere_def Let_def)
qed


section \<open>Completing a task\<close>

lemma update_where_one:
  assumes "distinct (map k ts)" and "tk \<in> set ts" and "p tk" and "\<And>t. p t \<Longrightarrow> k t = k tk"
  obtains a b where "ts = a @ tk # b" and "update_where p f ts = a @ f tk # b"
proof -
  obtain a b where ab: "ts = a @ tk # b" using assms(2) by (auto simp: in_set_conv_decomp)
  have "\<not> p t" if "t \<in> set a \<union> set b" for t
    using assms(1,4) that ab by (auto simp: image_iff)
  then have "update_where p f ts = a @ f tk # b"
    using ab assms(3) by (auto simp: update_where_def intro: map_idI)
  then show ?thesis using ab that by blast
qed

abbreviation dones :: "task list \<Rightarrow> nat" where
  "dones ts \<equiv> length (filter (\<lambda>t. t_status t = TaskDone) ts)"

lemma counters_ok_step:
  assumes "counters_ok d"
    and "\<And>r'. r' \<in> set (db_targets d') \<Longrightarrow> \<exists>r \<in> set (db_targets d). rt_id r' = rt_id r \<and>
      rt_total r' = rt_total r + int (m (rt_id r)) \<and> rt_done r' = rt_done r + int (n (rt_id r))"
    and "\<And>rt. length (serving d' rt) = length (serving d rt) + m rt"
    and "\<And>rt. dones (serving d' rt) = dones (serving d rt) + n rt"
  shows "counters_ok d'"
  unfolding counters_ok_def
proof (intro ballI conjI)
  fix r'
  assume "r' \<in> set (db_targets d')"
  then obtain r where r: "r \<in> set (db_targets d)" "rt_id r' = rt_id r"
      "rt_total r' = rt_total r + int (m (rt_id r))" "rt_done r' = rt_done r + int (n (rt_id r))"
    using assms(2) by blast
  have c: "rt_total r = int (length (serving d (rt_id r)))" "rt_done r = int (dones (serving d (rt_id r)))"
    using assms(1) r(1) by (simp_all add: counters_ok_def)
  show "rt_total r' = int (length (serving d' (rt_id r')))" using r c assms(3) by simp
  show "rt_done r' = int (dones (serving d' (rt_id r')))" unfolding r(2) assms(4) using r(4) c(2) by simp
qed

lemma CompleteTask_inv:
  assumes "queue_inv d"
  shows "queue_inv (CompleteTask tid tok d)"
proof (cases "affected (held_on_token tid tok) (db_tasks d) = 0")
  case True
  then show ?thesis using assms by (simp add: CompleteTask_def)
next
  case False
  then obtain tk where tk: "tk \<in> set (db_tasks d)" "held_on_token tid tok tk" using affected_pos [of "held_on_token tid tok" "db_tasks d"] by auto
  let ?f = "done_row d" and ?p = "held_on_token tid tok"
  have dist: "distinct (map t_id (db_tasks d))" using assms by (simp add: queue_inv_def keys_ok_def)
  obtain a b where ab: "db_tasks d = a @ tk # b" and up: "update_where ?p ?f (db_tasks d) = a @ ?f tk # b"
    by (rule update_where_one [where k = t_id and p = ?p and f = ?f, OF dist tk]) (use tk(2) in \<open>auto simp: held_on_token_def\<close>)
  let ?d = "CompleteTask tid tok d"
  have tid: "t_id tk = tid" "t_status tk \<noteq> TaskDone" "task_ok (?f tk)"
    using tk assms by (auto simp: row_defs queue_inv_def)
  have sel: "db_tasks ?d = a @ ?f tk # b" "db_origins ?d = db_origins d" "db_uuid ?d = db_uuid d"
      "db_drawn ?d = db_drawn d"
      "db_targets ?d = update_where (\<lambda>r. (tid, rt_id r) \<in> set (db_origins d)) (\<lambda>r. r\<lparr>rt_done := rt_done r + 1\<rparr>) (db_targets d)"
    using False up by (simp_all add: CompleteTask_def bump_done_def)
  have idf: "t_id (?f tk) = t_id tk" by (simp add: done_row_def)
  have "keys_ok ?d"
  proof (rule keys_ok_cong [of d])
    show "map t_id (db_tasks ?d) = map t_id (db_tasks d)" by (simp add: sel(1) ab idf)
    show "map rt_id (db_targets ?d) = map rt_id (db_targets d)" unfolding sel by (rule map_update_where) simp
  qed (use assms sel in \<open>simp_all add: queue_inv_def\<close>)
  moreover have "\<forall>t \<in> set (db_tasks ?d). task_ok t"
    using assms ab tid by (auto simp: queue_inv_def sel)
  moreover have "counters_ok ?d"
  proof (rule counters_ok_step [where m = "\<lambda>_. 0" and n = "\<lambda>rt. if (tid, rt) \<in> set (db_origins d) then 1 else 0"])
    show "counters_ok d" using assms by (simp add: queue_inv_def)
    show "length (serving ?d rt) = length (serving d rt) + 0" for rt
      unfolding serving_def sel using idf by (simp add: ab)
    show "dones (serving ?d rt) = dones (serving d rt) + (if (tid, rt) \<in> set (db_origins d) then 1 else 0)" for rt
      unfolding serving_def sel using tid idf by (simp add: ab done_row_def)
  qed (unfold sel set_update_where, force)
  ultimately show ?thesis by (simp add: queue_inv_def)
qed


section \<open>Inserting tasks\<close>

lemma bump_total_sel [simp]:
  "db_tasks (bump_total ot d) = db_tasks d" "db_origins (bump_total ot d) = db_origins d"
  "db_uuid (bump_total ot d) = db_uuid d" "db_drawn (bump_total ot d) = db_drawn d"
  "db_runs (bump_total ot d) = db_runs d" "db_pools (bump_total ot d) = db_pools d"
  "db_now (bump_total ot d) = db_now d"
  "map rt_id (db_targets (bump_total ot d)) = map rt_id (db_targets d)"
  by (simp_all add: bump_total_def map_update_where)

lemma bump_total_ids [simp]: "rt_id ` set (db_targets (bump_total ot d)) = rt_id ` set (db_targets d)"
  by (metis bump_total_sel(8) list.set_map)

definition add_origin :: "uuid \<Rightarrow> uuid \<Rightarrow> db \<Rightarrow> db" where
  "add_origin tid ot d = bump_total ot (d\<lparr>db_origins := db_origins d @ [(tid, ot)]\<rparr>)"

lemma add_origin_count:
  assumes "distinct (map t_id ts)" and "tk \<in> set ts" and "t_id tk = tid" and "t_status tk \<noteq> TaskDone"
    and "(tid, ot) \<notin> set os"
  shows "length (filter (\<lambda>t. (t_id t, rt) \<in> set (os @ [(tid, ot)])) ts) =
      length (filter (\<lambda>t. (t_id t, rt) \<in> set os) ts) + (if rt = ot then 1 else 0)"
    and "filter (\<lambda>t. t_status t = TaskDone) (filter (\<lambda>t. (t_id t, rt) \<in> set (os @ [(tid, ot)])) ts) =
      filter (\<lambda>t. t_status t = TaskDone) (filter (\<lambda>t. (t_id t, rt) \<in> set os) ts)"
proof -
  obtain a b where ab: "ts = a @ tk # b" using assms(2) by (auto simp: in_set_conv_decomp)
  have other: "filter (\<lambda>t. (t_id t, rt) \<in> set (os @ [(tid, ot)])) xs = filter (\<lambda>t. (t_id t, rt) \<in> set os) xs"
    if "xs = a \<or> xs = b" for xs
    by (rule filter_cong) (use that assms ab in \<open>auto simp: image_iff\<close>)
  note oa = other [OF disjI1, OF refl] and ob = other [OF disjI2, OF refl]
  show "length (filter (\<lambda>t. (t_id t, rt) \<in> set (os @ [(tid, ot)])) ts) =
      length (filter (\<lambda>t. (t_id t, rt) \<in> set os) ts) + (if rt = ot then 1 else 0)"
    unfolding ab filter_append filter.simps(2) oa ob
    using assms(3,5) by auto
  show "filter (\<lambda>t. t_status t = TaskDone) (filter (\<lambda>t. (t_id t, rt) \<in> set (os @ [(tid, ot)])) ts) =
      filter (\<lambda>t. t_status t = TaskDone) (filter (\<lambda>t. (t_id t, rt) \<in> set os) ts)"
    unfolding ab filter_append filter.simps(2) oa ob using assms(4) by auto
qed

lemma add_origin_inv:
  assumes inv: "queue_inv d" and tk: "tk \<in> set (db_tasks d)" "t_id tk = tid" "t_status tk \<noteq> TaskDone"
    and ot: "ot \<in> rt_id ` set (db_targets d)" "(tid, ot) \<notin> set (db_origins d)"
  shows "queue_inv (add_origin tid ot d)"
proof -
  let ?d = "add_origin tid ot d"
  have dist: "distinct (map t_id (db_tasks d))" using inv by (simp add: queue_inv_def keys_ok_def)
  have sel: "db_tasks ?d = db_tasks d" "db_origins ?d = db_origins d @ [(tid, ot)]"
    by (simp_all add: add_origin_def)
  have "keys_ok ?d"
    using inv tk ot unfolding queue_inv_def keys_ok_def uuids_fresh_def used_ids_def add_origin_def by auto
  moreover have "counters_ok ?d"
  proof (rule counters_ok_step [where m = "\<lambda>rt. if rt = ot then 1 else 0" and n = "\<lambda>_. 0"])
    note cnt = add_origin_count [OF dist tk ot(2)]
    show "counters_ok d" using inv by (simp add: queue_inv_def)
    show "length (serving ?d rt) = length (serving d rt) + (if rt = ot then 1 else 0)" for rt
      unfolding serving_def sel by (rule cnt(1))
    show "dones (serving ?d rt) = dones (serving d rt) + 0" for rt
      unfolding serving_def sel cnt(2) by simp
  qed (unfold add_origin_def bump_total_def, auto simp: set_update_where)
  ultimately show ?thesis using inv by (simp add: queue_inv_def sel)
qed

lemma insert_origins_inv:
  assumes "queue_inv d" and "tk \<in> set (db_tasks d)" "t_id tk = tid" "t_status tk \<noteq> TaskDone"
    and "distinct os" and "\<forall>ot \<in> set os. (tid, ot) \<notin> set (db_origins d)"
    and "insert_origins tid os d = Inr d'"
  shows "queue_inv d'"
  using assms
proof (induction os arbitrary: d)
  case Nil
  then show ?case by simp
next
  case (Cons ot os)
  show ?case
  proof (cases "ot = uuid_Nil")
    case True
    then show ?thesis using Cons by simp
  next
    case False
    then have ot: "ot \<in> rt_id ` set (db_targets d)" and rest: "insert_origins tid os (add_origin tid ot d) = Inr d'"
      using Cons.prems by (auto simp: add_origin_def split: if_splits)
    have "queue_inv (add_origin tid ot d)" using add_origin_inv Cons.prems ot by simp
    then show ?thesis
      by (rule Cons.IH [OF _ _ _ _ _ _ rest]) (use Cons.prems in \<open>auto simp: add_origin_def\<close>)
  qed
qed

lemma append_task_inv:
  assumes inv: "queue_inv d"
  shows "queue_inv (drawn d\<lparr>db_tasks := db_tasks d @ [new_task d run sp]\<rparr>)"
proof -
  let ?d = "drawn d\<lparr>db_tasks := db_tasks d @ [new_task d run sp]\<rparr>"
  have k: "keys_ok d" and fr: "fresh d \<notin> used_ids d"
    using inv fresh_unused by (auto simp: queue_inv_def keys_ok_def)
  have used: "used_ids ?d = insert (fresh d) (used_ids d)" by (simp add: used_ids_def fresh_def lessThan_Suc)
  have new: "fresh d \<notin> t_id ` set (db_tasks d)" using k fr by (auto simp: keys_ok_def)
  then have "keys_ok ?d" using k used unfolding keys_ok_def uuids_fresh_def by auto
  moreover have "serving ?d rt = serving d rt" for rt
    using k new by (auto simp: serving_def keys_ok_def)
  ultimately show ?thesis using inv task_ok_new by (auto simp: queue_inv_def counters_ok_def)
qed

lemma insert_task_inv:
  assumes inv: "queue_inv d" and dist: "distinct (sp_origins sp)" and ins: "insert_task run sp d = Inr d'"
  shows "queue_inv d'"
proof -
  have "fresh d \<notin> used_ids d" using inv fresh_unused by (auto simp: queue_inv_def keys_ok_def)
  then have "\<forall>ot \<in> set (sp_origins sp). (fresh d, ot) \<notin> set (db_origins d)"
    using inv unfolding queue_inv_def keys_ok_def by fastforce
  moreover have "insert_origins (fresh d) (sp_origins sp) (drawn d\<lparr>db_tasks := db_tasks d @ [new_task d run sp]\<rparr>) = Inr d'"
    using ins by (simp add: insert_task_def split: if_splits)
  ultimately show ?thesis
    using dist insert_origins_inv [OF append_task_inv [OF inv, of run sp], of "new_task d run sp" "fresh d"] by simp
qed

lemma insert_tasks_inv:
  "queue_inv d \<Longrightarrow> \<forall>sp \<in> set sps. distinct (sp_origins sp) \<Longrightarrow> insert_tasks run sps d = Inr d' \<Longrightarrow> queue_inv d'"
proof (induction sps arbitrary: d)
  case Nil
  then show ?case by simp
next
  case (Cons sp sps)
  then obtain d1 where "insert_task run sp d = Inr d1" "insert_tasks run sps d1 = Inr d'"
    by (auto split: sum.splits)
  moreover from this have "queue_inv d1" using insert_task_inv Cons.prems by (meson list.set_intros(1))
  ultimately show ?case using Cons by simp
qed

lemma InsertTasks_inv:
  "queue_inv d \<Longrightarrow> \<forall>sp \<in> set sps. distinct (sp_origins sp) \<Longrightarrow> queue_inv (snd (InsertTasks run sps d))"
  using insert_tasks_inv by (auto simp: InsertTasks_def split: sum.splits)


section \<open>New runs, and changes beside the queue\<close>

lemma append_target_inv:
  assumes inv: "queue_inv d"
  shows "queue_inv (drawn d\<lparr>db_targets := db_targets d @ [fresh_target d run t]\<rparr>)"
proof -
  let ?d = "drawn d\<lparr>db_targets := db_targets d @ [fresh_target d run t]\<rparr>"
  have ft: "rt_id (fresh_target d run t) = fresh d" "rt_total (fresh_target d run t) = 0"
      "rt_done (fresh_target d run t) = 0"
    by (simp_all add: fresh_target_def)
  have k: "keys_ok d" and fr: "fresh d \<notin> used_ids d"
    using inv fresh_unused by (auto simp: queue_inv_def keys_ok_def)
  have used: "used_ids ?d = insert (fresh d) (used_ids d)" by (simp add: used_ids_def fresh_def lessThan_Suc)
  have new: "fresh d \<notin> rt_id ` set (db_targets d)" using k fr by (auto simp: keys_ok_def)
  then have "keys_ok ?d" using k ft used unfolding keys_ok_def uuids_fresh_def by auto
  moreover have "serving ?d rt = serving d rt" for rt by (simp add: serving_def)
  moreover have "serving d (fresh d) = []" using k new by (fastforce simp: serving_def keys_ok_def filter_empty_conv)
  ultimately show ?thesis using inv ft by (auto simp: queue_inv_def counters_ok_def)
qed

lemma create_targets_inv:
  "queue_inv d \<Longrightarrow> create_targets run ts d = Inr (saved, d') \<Longrightarrow> queue_inv d'"
proof (induction ts arbitrary: d saved)
  case Nil
  then show ?case by simp
next
  case (Cons t ts)
  then obtain saved' where "create_targets run ts (drawn d\<lparr>db_targets := db_targets d @ [fresh_target d run t]\<rparr>) = Inr (saved', d')"
    by (auto split: sum.splits if_splits)
  then show ?case using Cons.IH append_target_inv [OF Cons.prems(1)] by blast
qed

text \<open>
  Every table the invariant does not read may change, identifiers may be drawn, and so may the
  status columns of a run target, as long as its identifier and counters stay.
\<close>

definition same_queue :: "db \<Rightarrow> db \<Rightarrow> bool" where
  "same_queue d d' \<longleftrightarrow> db_uuid d' = db_uuid d \<and> db_drawn d \<le> db_drawn d' \<and> db_origins d' = db_origins d \<and>
     db_tasks d' = db_tasks d \<and>
     list_all2 (\<lambda>r r'. rt_id r' = rt_id r \<and> rt_total r' = rt_total r \<and> rt_done r' = rt_done r)
       (db_targets d) (db_targets d')"

lemma same_queue_targets:
  "list_all2 (\<lambda>r r'. rt_id r' = rt_id r \<and> rt_total r' = rt_total r \<and> rt_done r' = rt_done r) rs rs' \<Longrightarrow>
   map rt_id rs' = map rt_id rs \<and>
   (\<forall>r' \<in> set rs'. \<exists>r \<in> set rs. rt_id r' = rt_id r \<and> rt_total r' = rt_total r \<and> rt_done r' = rt_done r)"
  by (induction rule: list_all2_induct) auto

lemma same_queue_inv:
  assumes inv: "queue_inv d" and sq: "same_queue d d'"
  shows "queue_inv d'"
proof -
  have rs: "map rt_id (db_targets d') = map rt_id (db_targets d)"
    "\<And>r'. r' \<in> set (db_targets d') \<Longrightarrow> \<exists>r \<in> set (db_targets d). rt_id r' = rt_id r \<and> rt_total r' = rt_total r \<and> rt_done r' = rt_done r"
    using same_queue_targets sq by (auto simp: same_queue_def)
  have "keys_ok d'"
    by (rule keys_ok_cong [of d]) (use inv sq rs in \<open>simp_all add: queue_inv_def same_queue_def\<close>)
  moreover have "counters_ok d'"
    by (rule counters_ok_step [of d d' "\<lambda>_. 0" "\<lambda>_. 0"])
      (use inv sq rs in \<open>simp_all add: queue_inv_def same_queue_def serving_def\<close>)
  ultimately show ?thesis using inv sq by (simp add: queue_inv_def same_queue_def)
qed

lemma CreateRun_inv:
  assumes "queue_inv d"
  shows "queue_inv (snd (CreateRun run targets d))"
proof -
  have "queue_inv (drawn d\<lparr>db_runs := db_runs d @ [queued_run d run]\<rparr>)"
    by (rule same_queue_inv [OF assms]) (simp add: same_queue_def list.rel_refl)
  then show ?thesis using assms create_targets_inv
    by (auto simp: CreateRun_def Let_def split: sum.splits)
qed

section \<open>The steps of the queue\<close>

text \<open>
  Everything that changes the queue. A failure is reported by the worker that holds the task: the
  gateway looks the lease up first (\<open>loadTask\<close>), so the rules for \<open>FailTask\<close> and
  \<open>FailTaskPermanently\<close> have that as their guard. The specifications the planner inserts name no
  origin twice. Deleting a worker clears it from its tasks.
\<close>

inductive queue_step :: "db \<Rightarrow> db \<Rightarrow> bool" where
  qs_create: "queue_step d (snd (CreateRun run targets d))"
| qs_insert: "\<forall>sp \<in> set sps. distinct (sp_origins sp) \<Longrightarrow> queue_step d (snd (InsertTasks run sps d))"
| qs_lease: "queue_step d (snd (LeaseTasksWhere w caps pool limit secs only pc d))"
| qs_beat: "queue_step d (snd (ExtendLeaseForWorker tid w secs d))"
| qs_extend: "queue_step d (ExtendLease tid tok secs d)"
| qs_complete: "queue_step d (CompleteTask tid tok d)"
| qs_fail: "t \<in> set (db_tasks d) \<Longrightarrow> held_on_token tid tok t \<Longrightarrow> queue_step d (FailTask tid tok msg d)"
| qs_fail_for_good: "t \<in> set (db_tasks d) \<Longrightarrow> held_on_token tid tok t \<Longrightarrow>
    queue_step d (FailTaskPermanently tid tok msg d)"
| qs_readopt: "queue_step d (snd (ReadoptTask tid w tok secs d))"
| qs_reap: "queue_step d (snd (ReapExpiredLeases d))"
| qs_cancel: "queue_step d (CancelRunTasks run d)"
| qs_release: "queue_step d (snd (ReleaseWorkerLeases w d))"
| qs_result: "queue_step d (SetTaskResult tid sm d)"
| qs_forget_worker: "queue_step d (set_tasks (\<lambda>t. t_worker t = Some w) (\<lambda>t. t\<lparr>t_worker := None\<rparr>) d)"
| qs_other: "same_queue d d' \<Longrightarrow> queue_step d d'"

lemma held_unique:
  assumes "queue_inv d" and "t \<in> set (db_tasks d)" and "held_on_token tid tok t"
    and "u \<in> set (db_tasks d)" and "has_token tid tok u"
  shows "in_flight u"
proof -
  have "u = t" using assms distinct_key_unique [of t_id "db_tasks d" u t]
    by (simp add: queue_inv_def keys_ok_def row_defs)
  then show ?thesis using assms(3) by (simp add: row_defs)
qed

lemma queue_step_inv: "queue_inv d \<Longrightarrow> queue_step d d' \<Longrightarrow> queue_inv d'"
proof (erule queue_step.cases, goal_cases)
  case 1 then show ?case by (simp add: CreateRun_inv)
next
  case 2 then show ?case by (simp add: InsertTasks_inv)
next
  case 3 then show ?case by (simp add: LeaseTasksWhere_inv)
next
  case 4 then show ?case
    by (auto simp: ExtendLeaseForWorker_def held_by_worker_def intro!: set_tasks_inv extend_row_step)
next
  case 5 then show ?case
    by (auto simp: ExtendLease_def held_on_token_def intro!: set_tasks_inv extend_row_step)
next
  case 6 then show ?case by (simp add: CompleteTask_inv)
next
  case 7 then show ?case
    by (auto simp: FailTask_def intro!: set_tasks_inv fail_row_step intro: held_unique)
next
  case 8 then show ?case
    by (auto simp: FailTaskPermanently_def intro!: set_tasks_inv fail_for_good_row_step intro: held_unique)
next
  case 9 then show ?case
    by (auto simp: ReadoptTask_def reaped_def intro!: set_tasks_inv readopt_row_step)
next
  case 10 then show ?case
    by (auto simp: ReapExpiredLeases_def lease_expired_def intro!: set_tasks_inv reap_row_step)
next
  case 11 then show ?case by (auto simp: CancelRunTasks_def intro!: set_tasks_inv cancel_row_step)
next
  case 12 then show ?case by (auto simp: ReleaseWorkerLeases_def intro!: set_tasks_inv release_row_step)
next
  case 13 then show ?case by (auto simp: SetTaskResult_def row_defs intro!: set_tasks_inv)
next
  case 14 then show ?case by (auto simp: row_defs intro!: set_tasks_inv)
next
  case 15 then show ?case using same_queue_inv by blast
qed

interpretation queue: guarded_system queue_step queue_inv
  by unfold_locales (rule queue_step_inv)


section \<open>The life cycle the steps refine\<close>

text \<open>
  The abstract machine: a task waits, is held, goes back to waiting or ends, and what has ended
  never moves again.
\<close>

definition lifecycle :: "task_status \<Rightarrow> task_status \<Rightarrow> bool" where
  "lifecycle s s' \<longleftrightarrow> s' = s \<or> (s = TaskPending \<and> s' \<in> {TaskLeased, TaskRunning, TaskCancelled}) \<or>
     (in_flight_status s \<and> s' \<in> {TaskRunning, TaskDone, TaskFailed, TaskPending, TaskCancelled})"

definition ended :: "task_status \<Rightarrow> bool" where
  "ended s \<longleftrightarrow> s \<in> {TaskDone, TaskFailed, TaskCancelled}"

text \<open>What stays of a task: what it is, and that its attempts only grow.\<close>

definition moves :: "task \<Rightarrow> task \<Rightarrow> bool" where
  "moves t t' \<longleftrightarrow> t_id t' = t_id t \<and> t_run t' = t_run t \<and> t_stage t' = t_stage t \<and> t_target t' = t_target t \<and>
     t_requires t' = t_requires t \<and> t_pool t' = t_pool t \<and> t_max t' = t_max t \<and> t_attempts t \<le> t_attempts t' \<and>
     lifecycle (t_status t) (t_status t')"

lemma moves_refl [simp]: "moves t t"
  by (simp add: moves_def lifecycle_def)

lemma ended_final: "lifecycle s s' \<Longrightarrow> ended s \<Longrightarrow> s' = s"
  by (cases s) (auto simp: lifecycle_def ended_def)

definition all_move :: "task list \<Rightarrow> task list \<Rightarrow> bool" where
  "all_move ts ts' \<longleftrightarrow> (\<forall>t \<in> set ts. \<exists>t' \<in> set ts'. moves t t')"

lemma all_move_refl [simp]: "all_move ts ts"
  unfolding all_move_def using moves_refl by blast

lemma all_move_subset: "set ts \<subseteq> set ts' \<Longrightarrow> all_move ts ts'"
  unfolding all_move_def using moves_refl by blast

lemma all_move_update:
  "(\<And>t. t \<in> set ts \<Longrightarrow> p t \<Longrightarrow> moves t (f t)) \<Longrightarrow> all_move ts (update_where p f ts)"
  unfolding all_move_def set_update_where
proof (intro ballI)
  fix t
  assume "\<And>t. t \<in> set ts \<Longrightarrow> p t \<Longrightarrow> moves t (f t)" and "t \<in> set ts"
  then have "moves t (if p t then f t else t)" and "t \<in> set ts" by auto
  then show "\<exists>t' \<in> (\<lambda>r. if p r then f r else r) ` set ts. moves t t'" by blast
qed

lemma all_move_lease:
  "(\<And>t tok. t \<in> set ts \<Longrightarrow> t_id t \<in> set ids \<Longrightarrow> moves t (f tok t)) \<Longrightarrow> all_move ts (lease_rows u n ids f ts)"
proof (induction ts arbitrary: n)
  case Nil
  then show ?case by simp
next
  case (Cons t ts)
  then have "all_move ts (lease_rows u m ids f ts)" for m by simp
  then show ?case using Cons.prems by (auto simp: all_move_def)
qed

lemma insert_origins_tasks: "insert_origins tid os d = Inr d' \<Longrightarrow> db_tasks d' = db_tasks d"
  by (induction tid os d rule: insert_origins.induct) (auto split: if_splits)

lemma insert_tasks_tasks:
  "insert_tasks run sps d = Inr d' \<Longrightarrow> set (db_tasks d) \<subseteq> set (db_tasks d')"
proof (induction sps arbitrary: d)
  case Nil
  then show ?case by simp
next
  case (Cons sp sps)
  then obtain d1 where d1: "insert_task run sp d = Inr d1" "insert_tasks run sps d1 = Inr d'"
    by (auto split: sum.splits)
  then have "set (db_tasks d) \<subseteq> set (db_tasks d1)"
    using insert_origins_tasks by (fastforce simp: insert_task_def split: if_splits)
  then show ?case using Cons.IH d1 by blast
qed

lemma create_targets_tasks: "create_targets run ts d = Inr (saved, d') \<Longrightarrow> db_tasks d' = db_tasks d"
proof (induction ts arbitrary: d saved)
  case Nil
  then show ?case by simp
next
  case (Cons t ts)
  then show ?case by (fastforce split: sum.splits if_splits)
qed

lemmas move_defs = moves_def lifecycle_def row_defs

lemma queue_step_moves: "queue_inv d \<Longrightarrow> queue_step d d' \<Longrightarrow> all_move (db_tasks d) (db_tasks d')"
proof (erule queue_step.cases, goal_cases)
  case 1 then show ?case
    using create_targets_tasks by (fastforce simp: CreateRun_def Let_def split: sum.splits)
next
  case 2 then show ?case
    by (auto simp: InsertTasks_def intro!: all_move_subset dest: insert_tasks_tasks split: sum.splits)
next
  case (3 e w caps pool limit secs only pc)
  then have "distinct (map t_id (db_tasks d))" by (simp add: queue_inv_def keys_ok_def)
  then have "t_status t = TaskPending"
    if "t \<in> set (db_tasks d)" "t_id t \<in> set (map t_id (lease_choice d caps pool limit only pc))" for t
    using chosen_id_candidate that by (auto simp: lease_candidate_def)
  then show ?case using 3
    by (auto simp: LeaseTasksWhere_def Let_def move_defs intro!: all_move_lease)
next
  case 4 then show ?case by (auto simp: ExtendLeaseForWorker_def move_defs intro!: all_move_update)
next
  case 5 then show ?case by (auto simp: ExtendLease_def move_defs intro!: all_move_update)
next
  case 6 then show ?case by (auto simp: CompleteTask_def bump_done_def move_defs intro!: all_move_update)
next
  case (7 t e tid tok msg)
  then have "in_flight u" if "u \<in> set (db_tasks d)" "has_token tid tok u" for u using held_unique that by blast
  then show ?case using 7 by (auto simp: FailTask_def moves_def lifecycle_def fail_row_def intro!: all_move_update)
next
  case (8 t e tid tok msg)
  then have "in_flight u" if "u \<in> set (db_tasks d)" "has_token tid tok u" for u using held_unique that by blast
  then show ?case
    using 8 by (auto simp: FailTaskPermanently_def moves_def lifecycle_def fail_for_good_row_def intro!: all_move_update)
next
  case 9 then show ?case by (auto simp: ReadoptTask_def move_defs intro!: all_move_update)
next
  case 10 then show ?case by (auto simp: ReapExpiredLeases_def move_defs intro!: all_move_update)
next
  case 11 then show ?case by (auto simp: CancelRunTasks_def move_defs intro!: all_move_update)
next
  case 12 then show ?case by (auto simp: ReleaseWorkerLeases_def move_defs intro!: all_move_update)
next
  case 13 then show ?case by (auto simp: SetTaskResult_def move_defs intro!: all_move_update)
next
  case 14 then show ?case by (auto simp: move_defs intro!: all_move_update)
next
  case 15 then show ?case by (simp add: same_queue_def)
qed


section \<open>Properties of the queue\<close>

definition empty_queue :: "db \<Rightarrow> bool" where
  "empty_queue d \<longleftrightarrow> uuids_fresh d \<and> db_tasks d = [] \<and> db_targets d = [] \<and> db_origins d = []"

lemma empty_queue_inv: "empty_queue d \<Longrightarrow> queue_inv d"
  by (simp add: empty_queue_def queue_inv_def keys_ok_def counters_ok_def)

text \<open>
  C2: The progress of a run target is exact. However the queue is worked on from an empty
  database, \<open>tasks_total\<close> of a run target is the number of tasks that serve it and \<open>tasks_done\<close> the
  number of those that are done: no task is counted twice and none is lost.
\<close>

theorem counters_exact:
  assumes "empty_queue d" and "queue_step\<^sup>*\<^sup>* d d'" and "r \<in> set (db_targets d')"
  shows "rt_total r = int (length (serving d' (rt_id r))) \<and> rt_done r = int (dones (serving d' (rt_id r)))"
  using queue.run_inv [OF assms(2) empty_queue_inv [OF assms(1)]] assms(3)
  by (simp add: queue_inv_def counters_ok_def)

definition sample_spec :: "uuid \<Rightarrow> task_spec" where
  "sample_spec ot = \<lparr>sp_stage = StagePassiveEnum, sp_target = no_target\<lparr>tg_domain := ''a.io''\<rparr>, sp_requires = [],
     sp_priority = 10, sp_origins = [ot], sp_wordlist = [], sp_pool = None\<rparr>"

definition worked_db :: db where
  "worked_db = snd (InsertTasks 1000 [sample_spec 1001]
     (snd (CreateRun sample_run [sample_run_target 1 ''domain'' ''a.io''] empty_db)))"

lemma worked_db_reached: "empty_queue empty_db" "queue_step\<^sup>*\<^sup>* empty_db worked_db"
proof -
  show "empty_queue empty_db" by (simp add: empty_queue_def uuids_fresh_def empty_db_def inj_def)
  have "queue_step\<^sup>*\<^sup>* empty_db (snd (CreateRun sample_run [sample_run_target 1 ''domain'' ''a.io''] empty_db))"
    by (rule r_into_rtranclp) (rule qs_create)
  then show "queue_step\<^sup>*\<^sup>* empty_db worked_db"
    unfolding worked_db_def by (rule rtranclp.rtrancl_into_rtrancl) (rule qs_insert, simp add: sample_spec_def)
qed

theorem counters_exact_witness:
  "db_targets worked_db \<noteq> [] \<and> rt_total (hd (db_targets worked_db)) = 1 \<and>
   rt_total (hd (db_targets worked_db)) = int (length (serving worked_db (rt_id (hd (db_targets worked_db)))))"
proof -
  have "db_targets worked_db \<noteq> []" and "rt_total (hd (db_targets worked_db)) = 1" by code_simp+
  then show ?thesis using counters_exact [OF worked_db_reached, of "hd (db_targets worked_db)"] by simp
qed

text \<open>
  C3: Lease discipline. In every state the queue can reach from an empty database, task identifiers
  are unique, a pending task holds no worker, no token and no expiry, and a task that is leased or
  running has a token and an expiry, so the reaper can always find it.
\<close>

theorem lease_discipline:
  assumes "empty_queue d" and "queue_step\<^sup>*\<^sup>* d d'"
  shows "distinct (map t_id (db_tasks d')) \<and> (\<forall>t \<in> set (db_tasks d').
     (t_status t = TaskPending \<longrightarrow> t_token t = None \<and> t_worker t = None \<and> t_expires t = None) \<and>
     (in_flight t \<longrightarrow> t_token t \<noteq> None \<and> t_expires t \<noteq> None))"
  using queue.run_inv [OF assms(2) empty_queue_inv [OF assms(1)]]
  by (simp add: queue_inv_def keys_ok_def task_ok_def)

theorem lease_discipline_witness:
  "map t_id (db_tasks worked_db) = [1002] \<and> distinct (map t_id (db_tasks worked_db)) \<and>
   t_token (hd (db_tasks worked_db)) = None"
proof -
  have ids: "map t_id (db_tasks worked_db) = [1002]" by code_simp
  moreover have "t_status (hd (db_tasks worked_db)) = TaskPending" by code_simp
  moreover have "hd (db_tasks worked_db) \<in> set (db_tasks worked_db)"
    using ids by (cases "db_tasks worked_db") auto
  ultimately show ?thesis using lease_discipline [OF worked_db_reached] by blast
qed

text \<open>
  C4: The queue refines the life cycle of a task. Every step that changes the queue keeps each
  task, with its run, stage, target, capabilities and pool, never lowers its attempts, and moves
  its status along an edge of the abstract machine \<open>lifecycle\<close>.
\<close>

theorem queue_refines_lifecycle:
  assumes "queue_inv d" and "queue_step d d'" and "t \<in> set (db_tasks d)"
  shows "\<exists>t' \<in> set (db_tasks d'). t_id t' = t_id t \<and> t_run t' = t_run t \<and> t_stage t' = t_stage t \<and>
     t_target t' = t_target t \<and> t_requires t' = t_requires t \<and> t_pool t' = t_pool t \<and>
     t_attempts t \<le> t_attempts t' \<and> lifecycle (t_status t) (t_status t')"
  using queue_step_moves [OF assms(1,2)] assms(3) unfolding all_move_def moves_def by blast

definition one_task_db :: "task \<Rightarrow> db" where
  "one_task_db t = empty_db\<lparr>db_tasks := [t], db_runs := [sample_run], db_targets := [], db_origins := [],
     db_workers := [sample_worker 3], db_pools := [sample_pool 5 ''local''], db_now := 100, db_drawn := 1\<rparr>"

lemma one_task_inv: "t_id t = 1000 \<Longrightarrow> task_ok t \<Longrightarrow> queue_inv (one_task_db t)"
  by (simp add: queue_inv_def keys_ok_def counters_ok_def one_task_db_def uuids_fresh_def used_ids_def
      empty_db_def inj_def)

theorem queue_refines_lifecycle_witness:
  "\<exists>t' \<in> set (db_tasks (CancelRunTasks 7 (one_task_db (sample_task 1000 StagePassiveEnum TaskPending)))).
     t_id t' = 1000 \<and> lifecycle TaskPending (t_status t')"
proof -
  let ?t = "sample_task 1000 StagePassiveEnum TaskPending"
  have "queue_inv (one_task_db ?t)" by (rule one_task_inv) (simp_all add: sample_task_def task_ok_def)
  moreover have "?t \<in> set (db_tasks (one_task_db ?t))" by (simp add: one_task_db_def)
  ultimately show ?thesis
    using queue_refines_lifecycle [OF _ qs_cancel, of "one_task_db ?t" ?t 7] by (fastforce simp: sample_task_def)
qed

text \<open>
  C5: What has ended stays ended. Over any sequence of steps, a task that is done, failed or
  cancelled keeps that status; in particular it is never leased again. A failure counts as a step only
  on a lease that is held, which the gateway checks before it reports one.
\<close>

theorem ended_stays_ended:
  assumes "queue_inv d" and "queue_step\<^sup>*\<^sup>* d d'" and "t \<in> set (db_tasks d)" and "ended (t_status t)"
  shows "\<exists>t' \<in> set (db_tasks d'). t_id t' = t_id t \<and> t_status t' = t_status t"
proof -
  have step: "\<exists>t' \<in> set (db_tasks v). t_id t' = t_id t \<and> t_status t' = t_status t"
    if u: "queue_inv u" "queue_step u v" and keep: "\<exists>t' \<in> set (db_tasks u). t_id t' = t_id t \<and> t_status t' = t_status t" for u v
  proof -
    obtain x where x: "x \<in> set (db_tasks u)" "t_id x = t_id t" "t_status x = t_status t" using keep by blast
    then obtain y where "y \<in> set (db_tasks v)" "moves x y"
      using queue_step_moves [OF u] by (auto simp: all_move_def)
    then show ?thesis using x assms(4) ended_final by (auto simp: moves_def)
  qed
  show ?thesis
    by (rule queue.run_keeps [OF assms(2,1), of "\<lambda>u. \<exists>t' \<in> set (db_tasks u). t_id t' = t_id t \<and> t_status t' = t_status t"])
      (use assms(3) step in auto)
qed

theorem ended_stays_ended_witness:
  "\<exists>t' \<in> set (db_tasks (CancelRunTasks 7 (one_task_db (sample_task 1000 StagePassiveEnum TaskDone)))).
     t_id t' = 1000 \<and> t_status t' = TaskDone"
proof -
  let ?t = "sample_task 1000 StagePassiveEnum TaskDone"
  have "queue_inv (one_task_db ?t)" by (rule one_task_inv) (simp_all add: sample_task_def task_ok_def)
  moreover have "?t \<in> set (db_tasks (one_task_db ?t))" by (simp add: one_task_db_def)
  moreover have "queue_step\<^sup>*\<^sup>* (one_task_db ?t) (CancelRunTasks 7 (one_task_db ?t))"
    by (rule r_into_rtranclp) (rule qs_cancel)
  ultimately show ?thesis
    using ended_stays_ended [of "one_task_db ?t" _ ?t] by (fastforce simp: sample_task_def ended_def)
qed


subsection \<open>Expired leases\<close>

lemma HasPrefix_append: "HasPrefix (p @ s) p"
  by (induction p) auto

lemma str_index_found: "str_index (a @ p @ b) p \<noteq> None"
proof (induction a)
  case Nil
  show ?case using HasPrefix_append [of p b] by (cases "p @ b") auto
next
  case (Cons c a)
  then show ?case by auto
qed

lemma reap_row_reaped: "\<not> exhausted t \<Longrightarrow> reaped (t_id t) (reap_row t)"
  using str_index_found [of "(case t_error t of None \<Rightarrow> [] | Some e \<Rightarrow> e) @ '' ''" lease_expired_mark "[]"]
  by (simp add: reaped_def reap_row_def)

lemma reap_row_not_in_flight: "\<not> in_flight (reap_row t)"
  by (simp add: reap_row_def)


definition running_task :: task where
  "running_task = (sample_task 1000 StageDNSResolve TaskRunning)\<lparr>t_worker := Some 3, t_token := Some 77,
     t_expires := Some 50, t_attempts := 1\<rparr>"


text \<open>
  A reaped task can be taken back, by anyone. Right after its lease was reaped with attempts
  left, \<open>ReadoptTask\<close> hands the task to whichever enrolled worker asks, on whatever token it names:
  neither the worker nor the token it had before is compared.
\<close>

theorem ReadoptTask_any_token:
  assumes "distinct (map t_id (db_tasks d))" and "t \<in> set (db_tasks d)" and "lease_expired d t"
    and "t_attempts t < t_max t" and "worker_of d w \<noteq> None"
  shows "fst (ReadoptTask (t_id t) w tok secs (snd (ReapExpiredLeases d))) = Inr True \<and>
    (\<exists>t' \<in> set (db_tasks (snd (ReadoptTask (t_id t) w tok secs (snd (ReapExpiredLeases d))))).
       t_id t' = t_id t \<and> t_status t' = TaskRunning \<and> t_worker t' = Some w \<and> t_token t' = Some tok)"
proof -
  let ?r = "snd (ReapExpiredLeases d)"
  have in_r: "reap_row t \<in> set (db_tasks ?r)"
    using assms(2,3) by (force simp: ReapExpiredLeases_def set_update_where)
  have rp: "reaped (t_id t) (reap_row t)" using assms(4) by (intro reap_row_reaped) (simp add: exhausted_def)
  then have pos: "affected (reaped (t_id t)) (db_tasks ?r) \<noteq> 0"
    using affected_pos [of "reaped (t_id t)" "db_tasks ?r"] in_r by auto
  have w: "worker_of ?r w \<noteq> None" using assms(5) by (simp add: worker_of_def ReapExpiredLeases_def)
  have "readopt_row ?r w tok secs (reap_row t) \<in> set (db_tasks (snd (ReadoptTask (t_id t) w tok secs ?r)))"
    using in_r rp pos w by (force simp: ReadoptTask_def set_update_where)
  moreover have "t_id (readopt_row ?r w tok secs (reap_row t)) = t_id t \<and>
      t_status (readopt_row ?r w tok secs (reap_row t)) = TaskRunning \<and>
      t_worker (readopt_row ?r w tok secs (reap_row t)) = Some w \<and>
      t_token (readopt_row ?r w tok secs (reap_row t)) = Some tok"
    by (simp add: readopt_row_def reap_row_def)
  moreover have "fst (ReadoptTask (t_id t) w tok secs ?r) = Inr True" using pos w by (simp add: ReadoptTask_def)
  ultimately show ?thesis by blast
qed

theorem ReadoptTask_any_token_witness:
  "t_worker running_task = Some 3 \<and>
   fst (ReadoptTask 1000 4 99 60 (snd (ReapExpiredLeases ((one_task_db running_task)\<lparr>db_workers := [sample_worker 4]\<rparr>)))) = Inr True"
proof -
  let ?d = "(one_task_db running_task)\<lparr>db_workers := [sample_worker 4]\<rparr>"
  have "distinct (map t_id (db_tasks ?d))" and "running_task \<in> set (db_tasks ?d)" and "lease_expired ?d running_task"
      and "t_attempts running_task < t_max running_task" and "worker_of ?d 4 \<noteq> None"
    by (simp_all add: one_task_db_def running_task_def sample_task_def lease_expired_def worker_of_def sample_worker_def)
  from ReadoptTask_any_token [OF this, of 99 60] show ?thesis by (simp add: running_task_def sample_task_def)
qed

subsection \<open>Closing a task\<close>

text \<open>
  A task completes once. Delivering the closing batch again on the same lease changes nothing,
  so the done counter of a run target cannot be raised twice by one task.
\<close>

theorem CompleteTask_once: "CompleteTask tid tok (CompleteTask tid tok d) = CompleteTask tid tok d"
proof (cases "affected (held_on_token tid tok) (db_tasks d) = 0")
  case True
  then show ?thesis by (simp add: CompleteTask_def)
next
  case False
  then have "db_tasks (CompleteTask tid tok d) = update_where (held_on_token tid tok) (done_row d) (db_tasks d)"
    by (simp add: CompleteTask_def bump_done_def)
  moreover have "\<not> held_on_token tid tok (done_row d t)" for t by (simp add: row_defs)
  ultimately have "affected (held_on_token tid tok) (db_tasks (CompleteTask tid tok d)) = 0"
    by (auto simp: affected_def filter_empty_conv set_update_where)
  then show ?thesis by (simp add: CompleteTask_def [of tid tok "CompleteTask tid tok d"])
qed



end
