(* ===== verification/Dispatch.thy ===== *)
theory Dispatch
  imports TaskLife
begin

text \<open>
  The dispatcher of \<^verbatim>\<open>internal/dispatch/dispatch.go\<close> over the task queue, and what a lease
  promises: only tasks of the worker's pool that it is able to run, no more than asked for, the
  ones first in the fair order, each on a token nobody has held, and never more brute-force tasks
  on one worker than its cap.
\<close>

section \<open>The dispatcher\<close>

record dispatcher =
  leaseTTL :: int
  bruteCap :: int
  perCompany :: int

definition WithCompanyCap :: "int \<Rightarrow> dispatcher \<Rightarrow> dispatcher" where
  "WithCompanyCap n x = x\<lparr>perCompany := n\<rparr>"

definition NewDispatcher :: "int \<Rightarrow> dispatcher" where
  "NewDispatcher ttl = \<lparr>leaseTTL = ttl, bruteCap = 1, perCompany = 0\<rparr>"

definition WithBruteCap :: "int \<Rightarrow> dispatcher \<Rightarrow> dispatcher" where
  "WithBruteCap n x = x\<lparr>bruteCap := (if n < 1 then 1 else n)\<rparr>"

text \<open>The jobs handed out, the error if one stopped it, and the state after.\<close>

definition Lease ::
  "dispatcher \<Rightarrow> uuid \<Rightarrow> string list \<Rightarrow> uuid option \<Rightarrow> int \<Rightarrow> db \<Rightarrow> job list \<times> string option \<times> db" where
  "Lease x w caps pool limit d =
     (let room = BruteRoom w (bruteCap x) d;
          first = (if room > 0
            then LeaseTasksWhere w caps pool (if room > limit then limit else room) (leaseTTL x) OnlyBrute (perCompany x) d
            else (Inr [], d))
      in case first of
           (Inl e, d1) \<Rightarrow> ([], Some e, d1)
         | (Inr jobs, d1) \<Rightarrow>
             (let rest = limit - int (length jobs)
              in if rest > 0
                 then (case LeaseTasksWhere w caps pool rest (leaseTTL x) NoBrute (perCompany x) d1 of
                         (Inl e, d2) \<Rightarrow> (jobs, Some e, d2)
                       | (Inr others, d2) \<Rightarrow> (jobs @ others, None, d2))
                 else (jobs, None, d1)))"

definition Heartbeat :: "dispatcher \<Rightarrow> uuid \<Rightarrow> uuid \<Rightarrow> db \<Rightarrow> db" where
  "Heartbeat x tid tok d = ExtendLease tid tok (leaseTTL x) d"

definition Complete :: "uuid \<Rightarrow> uuid \<Rightarrow> stage_summary option \<Rightarrow> db \<Rightarrow> db" where
  "Complete tid tok summary d = CompleteTask tid tok (case summary of None \<Rightarrow> d | Some sm \<Rightarrow> SetTaskResult tid sm d)"

definition Fail :: "uuid \<Rightarrow> uuid \<Rightarrow> string \<Rightarrow> db \<Rightarrow> db" where
  "Fail tid tok msg d = FailTask tid tok msg d"

definition FailForGood :: "uuid \<Rightarrow> uuid \<Rightarrow> string \<Rightarrow> db \<Rightarrow> db" where
  "FailForGood tid tok msg d = FailTaskPermanently tid tok msg d"

definition CanRun :: "string list \<Rightarrow> stage \<Rightarrow> bool" where
  "CanRun caps s \<longleftrightarrow> list_all (\<lambda>req. req \<in> set caps) (StageRequires s)"

section \<open>What one lease statement takes\<close>

lemma distinct_ids_tasks: "distinct (map t_id ts) \<Longrightarrow> distinct ts"
  by (simp add: distinct_map)

lemma distinct_lease_choice:
  "distinct (map t_id (db_tasks d)) \<Longrightarrow> distinct (map t_id (lease_choice d caps pool limit only pc))"
proof -
  assume "distinct (map t_id (db_tasks d))"
  then have "inj_on t_id (set (db_tasks d))" and "distinct (db_tasks d)" by (simp_all add: distinct_map)
  moreover have "set (lease_choice d caps pool limit only pc) \<subseteq> set (db_tasks d)"
    using lease_choice_candidate by blast
  ultimately show ?thesis by (auto simp: distinct_map lease_choice_def intro: inj_on_subset)
qed

lemma chosen_rows:
  assumes "distinct (map t_id (db_tasks d))"
  shows "set (filter (\<lambda>t. t_id t \<in> set (map t_id (lease_choice d caps pool limit only pc))) (db_tasks d)) =
      set (lease_choice d caps pool limit only pc)" (is "set (filter ?p ?ts) = set ?c")
    and "length (filter (\<lambda>t. t_id t \<in> set (map t_id (lease_choice d caps pool limit only pc))) (db_tasks d)) =
      length (lease_choice d caps pool limit only pc)"
proof -
  show eq: "set (filter ?p ?ts) = set ?c"
  proof
    show "set (filter ?p ?ts) \<subseteq> set ?c"
    proof
      fix t assume "t \<in> set (filter ?p ?ts)"
      then obtain c where "t \<in> set ?ts" "c \<in> set ?c" "t_id t = t_id c" by auto
      then show "t \<in> set ?c" using assms lease_choice_candidate distinct_key_unique by metis
    qed
    show "set ?c \<subseteq> set (filter ?p ?ts)" using lease_choice_candidate by fastforce
  qed
  have "distinct (filter ?p ?ts)" and "distinct ?c"
    using assms distinct_lease_choice [OF assms] by (simp_all add: distinct_map)
  then show "length (filter ?p ?ts) = length ?c" using eq by (metis distinct_card)
qed

text \<open>The chosen rows, each with the token drawn for it, in the order of the table.\<close>

definition with_tokens :: "(nat \<Rightarrow> uuid) \<Rightarrow> nat \<Rightarrow> (uuid \<Rightarrow> task \<Rightarrow> task) \<Rightarrow> task list \<Rightarrow> task list" where
  "with_tokens u n f ts = map2 (\<lambda>k t. f (u k) t) [n ..< n + length ts] ts"

lemma with_tokens_Cons: "with_tokens u n f (t # ts) = f (u n) t # with_tokens u (Suc n) f ts"
proof -
  have "[n ..< n + length (t # ts)] = n # [Suc n ..< Suc n + length ts]"
    by (simp add: upt_conv_Cons del: upt_Suc)
  then show ?thesis unfolding with_tokens_def by simp
qed

lemma lease_rows_chosen:
  assumes "\<And>tok t. t_id (f tok t) = t_id t"
  shows "filter (\<lambda>t. t_id t \<in> set ids) (lease_rows u n ids f ts) =
    with_tokens u n f (filter (\<lambda>t. t_id t \<in> set ids) ts)"
proof (induction ts arbitrary: n)
  case Nil
  then show ?case by (simp add: with_tokens_def)
next
  case (Cons t ts)
  then show ?case using assms by (simp add: with_tokens_Cons)
qed

lemma lease_rows_rest:
  "t_id t \<notin> set ids \<Longrightarrow> t \<in> set ts \<Longrightarrow> t \<in> set (lease_rows u n ids f ts)"
  by (induction ts arbitrary: n) auto

lemma lease_row_id [simp]: "t_id (lease_row d w secs tok t) = t_id t"
  by (simp add: lease_row_def)

lemma LeaseTasksWhere_result:
  assumes "LeaseTasksWhere w caps pool limit secs only pc d = (Inr jobs, d')" and "0 < limit"
  defines "c \<equiv> lease_choice d caps pool limit only pc"
  defines "chosen \<equiv> filter (\<lambda>t. t_id t \<in> set (map t_id c)) (db_tasks d)"
  shows "jobs = map job_of (with_tokens (db_uuid d) (db_drawn d) (lease_row d w secs) chosen)"
    and "set (with_tokens (db_uuid d) (db_drawn d) (lease_row d w secs) chosen) \<subseteq> set (db_tasks d')"
    and "db_tasks d' = lease_rows (db_uuid d) (db_drawn d) (map t_id c) (lease_row d w secs) (db_tasks d)"
    and "db_now d' = db_now d" and "db_runs d' = db_runs d" and "db_origins d' = db_origins d"
proof -
  let ?rows = "lease_rows (db_uuid d) (db_drawn d) (map t_id c) (lease_row d w secs) (db_tasks d)"
  have eq: "filter (\<lambda>t. t_id t \<in> set (map t_id c)) ?rows =
      with_tokens (db_uuid d) (db_drawn d) (lease_row d w secs) chosen"
    unfolding chosen_def by (rule lease_rows_chosen) simp
  have d': "jobs = map job_of (filter (\<lambda>t. t_id t \<in> set (map t_id c)) ?rows)"
      "d' = d\<lparr>db_tasks := ?rows, db_drawn := db_drawn d + length (map t_id c)\<rparr>"
    using assms(1,2) unfolding c_def LeaseTasksWhere_def Let_def by (auto split: if_splits)
  then show "jobs = map job_of (with_tokens (db_uuid d) (db_drawn d) (lease_row d w secs) chosen)"
    using eq by simp
  show "set (with_tokens (db_uuid d) (db_drawn d) (lease_row d w secs) chosen) \<subseteq> set (db_tasks d')"
    using d' eq [symmetric] by auto
  show "db_tasks d' = ?rows" "db_now d' = db_now d" "db_runs d' = db_runs d" "db_origins d' = db_origins d"
    using d' by simp_all
qed

lemma in_with_tokens:
  assumes "t' \<in> set (with_tokens u n f ts)"
  obtains k t where "t \<in> set ts" and "n \<le> k" and "k < n + length ts" and "t' = f (u k) t"
proof -
  from assms obtain i where "i < length ts" "t' = f (u (n + i)) (ts ! i)"
    by (auto simp: with_tokens_def in_set_zip)
  then show thesis using that [of "ts ! i" "n + i"] by simp
qed

lemma with_tokens_tokens:
  assumes "\<And>tok t. t_token (f tok t) = Some tok"
  shows "map t_token (with_tokens u n f ts) = map (\<lambda>k. Some (u k)) [n ..< n + length ts]"
  by (rule nth_equalityI) (simp_all add: with_tokens_def assms)

section \<open>Properties of a lease\<close>

text \<open>
  C6: A worker is handed only what it may run. Each job of a lease is a task that was pending, in
  a run that is running, of the worker's own pool (the default pool for a worker without one),
  with its required capabilities among the worker's and its stage let through by the filter; the
  row is now leased to that worker on the job's token, with one more attempt and an expiry in the
  future; and there are no more jobs than were asked for.
\<close>

theorem lease_hands_out_own_work:
  assumes "distinct (map t_id (db_tasks d))"
    and "LeaseTasksWhere w caps pool limit secs only pc d = (Inr jobs, d')"
  shows "length jobs \<le> nat limit \<and> (\<forall>j \<in> set jobs. \<exists>t \<in> set (db_tasks d). \<exists>t' \<in> set (db_tasks d').
     t_id t = j_task_id j \<and> t_id t' = j_task_id j \<and> j_stage j = t_stage t \<and> j_targets j = job_targets (t_target t) \<and>
     t_status t = TaskPending \<and> set (t_requires t) \<subseteq> set caps \<and> t_pool t \<noteq> None \<and> t_pool t = lease_pool d pool \<and>
     stage_passes only (t_stage t) \<and> (\<exists>r. run_of d (t_run t) = Some r \<and> run_status r = RunRunning) \<and>
     t_status t' = TaskLeased \<and> t_worker t' = Some w \<and> t_token t' = Some (j_lease_token j) \<and>
     t_expires t' = Some (db_now d + seconds secs) \<and> t_attempts t' = t_attempts t + 1)"
proof (cases "0 < limit")
  case False
  then show ?thesis using assms(2) by (simp add: LeaseTasksWhere_def)
next
  case True
  let ?c = "lease_choice d caps pool limit only pc"
  let ?chosen = "filter (\<lambda>t. t_id t \<in> set (map t_id ?c)) (db_tasks d)"
  let ?rows = "with_tokens (db_uuid d) (db_drawn d) (lease_row d w secs) ?chosen"
  note res = LeaseTasksWhere_result [OF assms(2) True]
  have "length jobs \<le> nat limit"
    using res(1) chosen_rows(2) [OF assms(1), of caps pool limit only pc] by (simp add: with_tokens_def lease_choice_def)
  moreover have "\<exists>t \<in> set (db_tasks d). \<exists>t' \<in> set (db_tasks d').
     t_id t = j_task_id j \<and> t_id t' = j_task_id j \<and> j_stage j = t_stage t \<and> j_targets j = job_targets (t_target t) \<and>
     t_status t = TaskPending \<and> set (t_requires t) \<subseteq> set caps \<and> t_pool t \<noteq> None \<and> t_pool t = lease_pool d pool \<and>
     stage_passes only (t_stage t) \<and> (\<exists>r. run_of d (t_run t) = Some r \<and> run_status r = RunRunning) \<and>
     t_status t' = TaskLeased \<and> t_worker t' = Some w \<and> t_token t' = Some (j_lease_token j) \<and>
     t_expires t' = Some (db_now d + seconds secs) \<and> t_attempts t' = t_attempts t + 1" if j: "j \<in> set jobs" for j
  proof -
    obtain t' where t': "t' \<in> set ?rows" "j = job_of t'" using j res(1) by auto
    then obtain k t where k: "t \<in> set ?chosen" "t' = lease_row d w secs (db_uuid d k) t"
      by (auto elim: in_with_tokens)
    then have "lease_candidate d caps pool only pc t" using chosen_id_candidate [OF assms(1), of t caps pool limit only pc] by simp
    moreover have "t' \<in> set (db_tasks d')" using res(2) t'(1) by blast
    ultimately show ?thesis using k t'(2)
      by (intro bexI [of _ t] bexI [of _ t'])
        (auto simp: job_of_def lease_row_def lease_candidate_def split: option.splits)
  qed
  ultimately show ?thesis by blast
qed

definition queue_db :: "task list \<Rightarrow> db" where
  "queue_db ts = empty_db\<lparr>db_tasks := ts, db_runs := [sample_run], db_targets := [], db_origins := [],
     db_workers := [sample_worker 3], db_pools := [sample_pool 5 ''local''], db_now := 100\<rparr>"

definition two_tasks :: db where
  "two_tasks = queue_db [sample_task 11 StagePassiveEnum TaskPending, sample_task 10 StageDNSResolve TaskPending]"

theorem lease_hands_out_own_work_witness:
  "\<exists>jobs d'. LeaseTasksWhere 3 [] (Some 5) 1 60 AnyStage 0 two_tasks = (Inr jobs, d') \<and> map j_task_id jobs = [10] \<and>
     (\<forall>j \<in> set jobs. \<exists>t' \<in> set (db_tasks d'). t_id t' = j_task_id j \<and> t_status t' = TaskLeased)"
proof -
  obtain r d' where r: "LeaseTasksWhere 3 [] (Some 5) 1 60 AnyStage 0 two_tasks = (r, d')"
    by (cases "LeaseTasksWhere 3 [] (Some 5) 1 60 AnyStage 0 two_tasks")
  have "map_sum id (map j_task_id) (fst (LeaseTasksWhere 3 [] (Some 5) 1 60 AnyStage 0 two_tasks)) = Inr [10]" by code_simp
  then obtain jobs where j: "r = Inr jobs" "map j_task_id jobs = [10]" using r by (cases r) auto
  have "distinct (map t_id (db_tasks two_tasks))" by code_simp
  note own = conjunct2 [OF lease_hands_out_own_work [OF this r [unfolded j(1)]]]
  have "\<exists>t' \<in> set (db_tasks d'). t_id t' = j_task_id x \<and> t_status t' = TaskLeased" if "x \<in> set jobs" for x
    using bspec [OF own that] by (elim bexE conjE) (rule bexI, intro conjI)
  then show ?thesis
    using r [unfolded j(1)] j(2) by (intro exI [of _ jobs] exI [of _ d'] conjI ballI) simp_all
qed






section \<open>The brute-force cap\<close>

definition brute_held :: "uuid \<Rightarrow> db \<Rightarrow> nat" where
  "brute_held w d = length (filter (holds_brute w) (db_tasks d))"

lemma lease_rows_brute:
  assumes "\<And>t. t \<in> set ts \<Longrightarrow> t_id t \<in> set ids \<Longrightarrow> t_status t = TaskPending"
  shows "length (filter (holds_brute w) (lease_rows u n ids (lease_row d w' secs) ts)) \<le>
    length (filter (holds_brute w) ts) + length (filter (\<lambda>t. t_id t \<in> set ids \<and> t_stage t = StageDNSBrute) ts)"
  using assms
proof (induction ts arbitrary: n)
  case Nil
  then show ?case by simp
next
  case (Cons t ts)
  have "length (filter (holds_brute w) (lease_rows u m ids (lease_row d w' secs) ts)) \<le>
      length (filter (holds_brute w) ts) + length (filter (\<lambda>t. t_id t \<in> set ids \<and> t_stage t = StageDNSBrute) ts)" for m
    by (rule Cons.IH) (use Cons.prems in simp)
  note ih = this [of n] this [of "Suc n"]
  show ?case
  proof (cases "t_id t \<in> set ids")
    case True
    then have "\<not> holds_brute w t" using Cons.prems [of t] by (simp add: holds_brute_def)
    moreover have "holds_brute w (lease_row d w' secs (u n) t) \<Longrightarrow> t_stage t = StageDNSBrute"
      by (simp add: holds_brute_def lease_row_def)
    ultimately show ?thesis using True ih by simp
  next
    case False
    then show ?thesis using ih by simp
  qed
qed

lemma lease_brute_growth:
  assumes "distinct (map t_id (db_tasks d))" and "LeaseTasksWhere w caps pool limit secs only pc d = (r, d')"
  shows "brute_held w d' \<le> brute_held w d + (if only = NoBrute then 0 else nat limit)"
proof (cases "0 < limit")
  case False
  then show ?thesis using assms(2) by (simp add: LeaseTasksWhere_def)
next
  case True
  let ?c = "lease_choice d caps pool limit only pc"
  let ?ids = "map t_id ?c"
  let ?br = "filter (\<lambda>t. t_id t \<in> set ?ids \<and> t_stage t = StageDNSBrute) (db_tasks d)"
  have cand: "lease_candidate d caps pool only pc t" if "t \<in> set (db_tasks d)" "t_id t \<in> set ?ids" for t
    using chosen_id_candidate [OF assms(1)] that by blast
  have "?br = filter (\<lambda>t. t_stage t = StageDNSBrute) (filter (\<lambda>t. t_id t \<in> set ?ids) (db_tasks d))" by simp
  then have "length ?br \<le> length (filter (\<lambda>t. t_id t \<in> set ?ids) (db_tasks d))"
    by (simp only: length_filter_le)
  then have "length ?br \<le> nat limit"
    using chosen_rows(2) [OF assms(1), of caps pool limit only pc] by (simp add: lease_choice_def)
  moreover have "only = NoBrute \<Longrightarrow> ?br = []"
    using cand by (auto simp: filter_empty_conv lease_candidate_def)
  moreover have "length (filter (holds_brute w) (lease_rows (db_uuid d) (db_drawn d) ?ids (lease_row d w secs) (db_tasks d)))
      \<le> brute_held w d + length ?br"
    unfolding brute_held_def by (rule lease_rows_brute) (use cand in \<open>auto simp: lease_candidate_def\<close>)
  moreover have "db_tasks d' = db_tasks d \<or>
      db_tasks d' = lease_rows (db_uuid d) (db_drawn d) ?ids (lease_row d w secs) (db_tasks d)"
    using assms(2) True by (auto simp: LeaseTasksWhere_def Let_def split: if_splits)
  ultimately show ?thesis by (auto simp: brute_held_def)
qed

lemma LeaseTasksWhere_ids:
  "LeaseTasksWhere w caps pool limit secs only pc d = (r, d') \<Longrightarrow> map t_id (db_tasks d') = map t_id (db_tasks d)"
proof -
  have "map t_id (lease_rows u n ids (lease_row d w secs) ts) = map t_id ts" for u n ids ts
    by (induction ts arbitrary: n) auto
  then show "LeaseTasksWhere w caps pool limit secs only pc d = (r, d') \<Longrightarrow> map t_id (db_tasks d') = map t_id (db_tasks d)"
    by (auto simp: LeaseTasksWhere_def Let_def split: if_splits)
qed

text \<open>
  C9: The brute-force cap. However often a worker asks for work, the dispatcher never raises the
  number of brute-force tasks it holds above its cap.
\<close>

theorem Lease_brute_cap:
  assumes "distinct (map t_id (db_tasks d))" and "Lease x w caps pool limit d = (jobs, err, d')"
  shows "int (brute_held w d') \<le> max (bruteCap x) (int (brute_held w d))"
proof -
  let ?room = "BruteRoom w (bruteCap x) d"
  obtain first d1 where f: "(if ?room > 0 then LeaseTasksWhere w caps pool (if ?room > limit then limit else ?room)
      (leaseTTL x) OnlyBrute (perCompany x) d else (Inr [], d)) = (first, d1)" by fastforce
  have room: "?room = bruteCap x - int (brute_held w d)" by (simp add: BruteRoom_def brute_held_def)
  have d1: "int (brute_held w d1) \<le> max (bruteCap x) (int (brute_held w d))"
  proof (cases "?room > 0")
    case True
    then have "brute_held w d1 \<le> brute_held w d + nat (if ?room > limit then limit else ?room)"
      using lease_brute_growth [OF assms(1), of w caps pool] f by fastforce
    then show ?thesis using room True by (auto split: if_splits)
  next
    case False
    then show ?thesis using f by simp
  qed
  have "distinct (map t_id (db_tasks d1))"
    using f assms(1) LeaseTasksWhere_ids by (auto split: if_splits)
  then have "brute_held w d' \<le> brute_held w d1"
    using assms(2) lease_brute_growth [of d1 w caps pool _ _ NoBrute] unfolding Lease_def Let_def f
    by (fastforce split: sum.splits if_splits prod.splits)
  then show ?thesis using d1 by linarith
qed


definition two_brutes :: db where
  "two_brutes = queue_db [sample_task 11 StageDNSBrute TaskPending, sample_task 10 StageDNSBrute TaskPending]"

theorem Lease_brute_cap_witness:
  "brute_held 3 (snd (snd (Lease (NewDispatcher 60) 3 [] (Some 5) 8 two_brutes))) = 1 \<and>
   int (brute_held 3 (snd (snd (Lease (NewDispatcher 60) 3 [] (Some 5) 8 two_brutes)))) \<le> 1"
proof -
  obtain jobs err d' where l: "Lease (NewDispatcher 60) 3 [] (Some 5) 8 two_brutes = (jobs, err, d')"
    by (cases "Lease (NewDispatcher 60) 3 [] (Some 5) 8 two_brutes")
  have "distinct (map t_id (db_tasks two_brutes))" and "brute_held 3 two_brutes = 0" by code_simp+
  then have "int (brute_held 3 d') \<le> 1" using Lease_brute_cap [OF _ l] by (simp add: NewDispatcher_def)
  moreover have "brute_held 3 (snd (snd (Lease (NewDispatcher 60) 3 [] (Some 5) 8 two_brutes))) = 1" by code_simp
  ultimately show ?thesis using l by simp
qed

section \<open>The company cap\<close>

text \<open>
  The company cap is a gate, not a ceiling. The lease statement compares the company's tasks in
  flight with the cap as they were before the statement, so one lease can take a company from below
  its cap to above it: with a cap of one, a worker asking for two tasks is given two.
\<close>

theorem company_cap_overshoots:
  "company_in_flight two_tasks 1 = 0 \<and>
   company_in_flight (snd (LeaseTasksWhere 3 [] (Some 5) 2 60 AnyStage 1 two_tasks)) 1 = 2"
  by code_simp

text \<open>
  A company at its cap waits. As long as a company has as many tasks in flight as the cap
  allows, no lease hands out another task of its runs.
\<close>

theorem company_cap_blocks:
  assumes "0 < pc" and "pc \<le> int (company_in_flight d sc)"
    and "t \<in> set (lease_choice d caps pool limit only pc)"
  shows "scope_of d t \<noteq> Some sc"
  using lease_choice_candidate [OF assms(3)] assms(1,2)
  by (auto simp: lease_candidate_def scope_of_def split: option.splits)

definition capped_db :: db where
  "capped_db = queue_db [running_task, (sample_task 10 StageDNSResolve TaskPending)\<lparr>t_run := 8\<rparr>]
     \<lparr>db_runs := [sample_run, sample_run\<lparr>run_id := 8, run_scope := 2\<rparr>]\<rparr>"

theorem company_cap_blocks_witness:
  "map t_id (lease_choice capped_db [] (Some 5) 2 AnyStage 1) = [10] \<and>
   Some 1 \<notin> scope_of capped_db ` set (lease_choice capped_db [] (Some 5) 2 AnyStage 1)"
proof
  show "map t_id (lease_choice capped_db [] (Some 5) 2 AnyStage 1) = [10]" by code_simp
  have "company_in_flight capped_db 1 = 1" by code_simp
  then have "scope_of capped_db t \<noteq> Some 1" if "t \<in> set (lease_choice capped_db [] (Some 5) 2 AnyStage 1)" for t
    using that by (intro company_cap_blocks [of 1 capped_db 1]) simp_all
  then show "Some 1 \<notin> scope_of capped_db ` set (lease_choice capped_db [] (Some 5) 2 AnyStage 1)" by fastforce
qed

end
