(* ===== verification/WorkerStore.thy ===== *)
theory WorkerStore
  imports RunStore
begin

text \<open>
  The fleet: workers and their enrolment (\<^verbatim>\<open>internal/store/worker.go\<close>), the pools tasks are routed
  to (\<^verbatim>\<open>store/pool.go\<close>) and the containers a run brings up for itself (\<^verbatim>\<open>store/fleet.go\<close>). The
  dispatcher and the gateway are built on these statements, and the properties about them are there.
\<close>

section \<open>Enrolment tokens\<close>

definition CreateEnrollmentToken :: "string \<Rightarrow> uuid option \<Rightarrow> int \<Rightarrow> int \<Rightarrow> string \<Rightarrow> db \<Rightarrow> string option \<times> db" where
  "CreateEnrollmentToken hash pool ttl max_uses kind d =
     (if hash \<in> et_hash ` set (db_tokens d) then (Some ''enrollment_token: unique'', d)
      else if dangling pool (map p_id (db_pools d)) then (Some ''enrollment_token: foreign key'', d)
      else (None, d\<lparr>db_tokens := db_tokens d @ [\<lparr>et_hash = hash, et_pool = pool, et_expires = db_now d + ttl,
        et_max_uses = max_uses, et_uses = 0, et_kind = kind, et_revoked = False, et_preapproved = False,
        et_egress_hint = None\<rparr>]\<rparr>))"

definition set_tokens :: "(enrollment_token \<Rightarrow> bool) \<Rightarrow> (enrollment_token \<Rightarrow> enrollment_token) \<Rightarrow> db \<Rightarrow> db" where
  "set_tokens p f d = d\<lparr>db_tokens := update_where p f (db_tokens d)\<rparr>"

definition ExtendEnrollmentWindow :: "string \<Rightarrow> int \<Rightarrow> db \<Rightarrow> db" where
  "ExtendEnrollmentWindow hash ttl d =
     set_tokens (\<lambda>t. et_hash t = hash \<and> \<not> et_revoked t) (\<lambda>t. t\<lparr>et_expires := db_now d + ttl\<rparr>) d"

text \<open>\<open>in_ten_years\<close> is the database's calendar: \<^verbatim>\<open>now() + interval '10 years'\<close>.\<close>

definition EnsureBootstrapToken :: "(instant \<Rightarrow> instant) \<Rightarrow> string \<Rightarrow> uuid option \<Rightarrow> db \<Rightarrow> db" where
  "EnsureBootstrapToken in_ten_years hash pool d =
     (if hash \<in> et_hash ` set (db_tokens d)
      then set_tokens (\<lambda>t. et_hash t = hash) (\<lambda>t. t\<lparr>et_pool := pool, et_expires := in_ten_years (db_now d),
             et_max_uses := 1000000, et_kind := ''local'', et_revoked := False\<rparr>) d
      else d\<lparr>db_tokens := db_tokens d @ [\<lparr>et_hash = hash, et_pool = pool, et_expires = in_ten_years (db_now d),
             et_max_uses = 1000000, et_uses = 0, et_kind = ''local'', et_revoked = False,
             et_preapproved = False, et_egress_hint = None\<rparr>]\<rparr>)"

record enrollment =
  en_pool :: "uuid option"
  en_kind :: string
  en_preapproved :: bool
  en_egress_hint :: "string option"

definition redeemable :: "db \<Rightarrow> string \<Rightarrow> enrollment_token \<Rightarrow> bool" where
  "redeemable d hash t \<longleftrightarrow> et_hash t = hash \<and> \<not> et_revoked t \<and> et_expires t > db_now d \<and> et_uses t < et_max_uses t"

definition RedeemEnrollment :: "string \<Rightarrow> db \<Rightarrow> enrollment option \<times> db" where
  "RedeemEnrollment hash d = (case find (redeemable d hash) (db_tokens d) of
     None \<Rightarrow> (None, d)
   | Some t \<Rightarrow> (Some \<lparr>en_pool = et_pool t, en_kind = et_kind t, en_preapproved = et_preapproved t,
         en_egress_hint = et_egress_hint t\<rparr>,
       set_tokens (redeemable d hash) (\<lambda>t. t\<lparr>et_uses := et_uses t + 1\<rparr>) d))"

section \<open>Workers\<close>

text \<open>
  The tools, the version and the country of a worker are stored and shown; nothing decides by them.
  The egress column is an address, kept as its host; \<open>w_cred\<close> is the hash of the credential.
\<close>

definition CreateWorker :: "worker \<Rightarrow> string \<Rightarrow> worker_status \<Rightarrow> db \<Rightarrow> uuid result \<times> db" where
  "CreateWorker w hash status d =
     (if dangling (w_pool w) (map p_id (db_pools d)) then (Inl ''worker: foreign key'', d)
      else if w_egress w \<noteq> None \<and> Option.bind (w_egress w) (db_host d) = None
      then (Inl ''invalid input syntax for type inet'', d)
      else (Inr (fresh d), drawn d\<lparr>db_workers := db_workers d @
        [w\<lparr>w_id := fresh d, w_status := status, w_running_tasks := 0, w_last_seen := db_now d,
           w_egress := Option.bind (w_egress w) (db_host d), w_cred := hash\<rparr>]\<rparr>))"

definition set_workers :: "(worker \<Rightarrow> bool) \<Rightarrow> (worker \<Rightarrow> worker) \<Rightarrow> db \<Rightarrow> db" where
  "set_workers p f d = d\<lparr>db_workers := update_where p f (db_workers d)\<rparr>"

text \<open>Deleting workers clears them from the tasks they held and the observations they made.\<close>

definition delete_workers :: "(worker \<Rightarrow> bool) \<Rightarrow> db \<Rightarrow> nat \<times> db" where
  "delete_workers p d = (affected p (db_workers d),
     d\<lparr>db_workers := filter (\<lambda>w. \<not> p w) (db_workers d),
       db_tasks := update_where (\<lambda>t. \<exists>w \<in> set (db_workers d). p w \<and> t_worker t = Some (w_id w))
         (\<lambda>t. t\<lparr>t_worker := None\<rparr>) (db_tasks d),
       db_assets := (db_assets d)\<lparr>as_observations := map (\<lambda>r. r\<lparr>so_worker :=
         unset (\<lambda>i. \<exists>w \<in> set (db_workers d). p w \<and> w_id w = i) (so_worker r)\<rparr>) (as_observations (db_assets d))\<rparr>\<rparr>)"

definition ReapStaleLocalWorkers :: "int \<Rightarrow> db \<Rightarrow> nat \<times> db" where
  "ReapStaleLocalWorkers cutoff d = delete_workers (\<lambda>w. w_kind w = ''local'' \<and> w_status w \<noteq> WorkerQuarantined \<and>
     w_last_seen w < db_now d - cutoff) d"

definition WorkerForAuth :: "uuid \<Rightarrow> db \<Rightarrow> (worker \<times> string) option" where
  "WorkerForAuth i d = map_option (\<lambda>w. (w, w_cred w)) (worker_of d i)"

definition SetWorkerStatus :: "uuid \<Rightarrow> worker_status \<Rightarrow> db \<Rightarrow> db" where
  "SetWorkerStatus i s d = set_workers (\<lambda>w. w_id w = i) (\<lambda>w. w\<lparr>w_status := s\<rparr>) d"

text \<open>An egress address that is not an address fails the statement.\<close>

definition TouchWorker :: "uuid \<Rightarrow> string \<Rightarrow> db \<Rightarrow> string option \<times> db" where
  "TouchWorker i egress d =
     (if egress \<noteq> [] \<and> db_host d egress = None then (Some ''invalid input syntax for type inet'', d)
      else (None, set_workers (\<lambda>w. w_id w = i) (\<lambda>w. w\<lparr>w_last_seen := db_now d,
        w_egress := (if egress \<noteq> [] then db_host d egress else w_egress w)\<rparr>) d))"

definition SetWorkerConcurrency :: "uuid \<Rightarrow> int \<Rightarrow> db \<Rightarrow> bool \<times> db" where
  "SetWorkerConcurrency i n d = (let p = (\<lambda>w. w_id w = i \<and> w_max_concurrency w \<noteq> n) in
     (0 < affected p (db_workers d), set_workers p (\<lambda>w. w\<lparr>w_max_concurrency := n\<rparr>) d))"

definition MarkStaleWorkers :: "int \<Rightarrow> db \<Rightarrow> nat \<times> db" where
  "MarkStaleWorkers cutoff d = (let p = (\<lambda>w. w_status w = WorkerActive \<and> w_last_seen w < db_now d - cutoff) in
     (affected p (db_workers d), set_workers p (\<lambda>w. w\<lparr>w_status := WorkerStale\<rparr>) d))"

definition DeleteWorker :: "uuid \<Rightarrow> db \<Rightarrow> db" where
  "DeleteWorker i d = snd (delete_workers (\<lambda>w. w_id w = i) d)"

definition ReviveWorker :: "uuid \<Rightarrow> db \<Rightarrow> db" where
  "ReviveWorker i d = set_workers (\<lambda>w. w_id w = i \<and> w_status w = WorkerStale)
     (\<lambda>w. w\<lparr>w_status := WorkerActive, w_last_seen := db_now d\<rparr>) d"

definition MarkWorkerDisconnected :: "uuid \<Rightarrow> db \<Rightarrow> db" where
  "MarkWorkerDisconnected i d = set_workers (\<lambda>w. w_id w = i \<and> w_status w = WorkerActive)
     (\<lambda>w. w\<lparr>w_status := WorkerStale\<rparr>) d"

definition PruneReplacedWorker :: "string \<Rightarrow> string \<Rightarrow> db \<Rightarrow> nat \<times> db" where
  "PruneReplacedWorker name kind d =
     (if name = [] then (0, d)
      else delete_workers (\<lambda>w. w_name w = name \<and> w_kind w = kind \<and>
        (w_status w \<in> {WorkerStale, WorkerPending} \<or>
         (w_status w = WorkerActive \<and> w_last_seen w < db_now d - WorkerStaleAfter))) d)"

section \<open>Pools\<close>

definition PoolByName :: "string \<Rightarrow> db \<Rightarrow> uuid option" where
  "PoolByName name d = map_option p_id (find (\<lambda>p. p_name p = name) (db_pools d))"

definition DefaultPool :: "db \<Rightarrow> uuid option" where
  "DefaultPool d = default_pool d"

definition active_in_pool :: "db \<Rightarrow> uuid \<Rightarrow> worker \<Rightarrow> bool" where
  "active_in_pool d pid w \<longleftrightarrow> w_pool w = Some pid \<and> w_status w = WorkerActive"

definition PassivePool :: "db \<Rightarrow> uuid option" where
  "PassivePool d =
     (case sort_key p_name (filter (\<lambda>p. p_takes_discovery p \<and> \<not> p_run_scoped p \<and>
         (\<exists>w \<in> set (db_workers d). active_in_pool d (p_id p) w)) (db_pools d)) of
        p # _ \<Rightarrow> Some (p_id p)
      | [] \<Rightarrow> (case PoolByName ''local'' d of Some i \<Rightarrow> Some i | None \<Rightarrow> DefaultPool d))"

definition set_pools :: "(worker_pool \<Rightarrow> bool) \<Rightarrow> (worker_pool \<Rightarrow> worker_pool) \<Rightarrow> db \<Rightarrow> db" where
  "set_pools p f d = d\<lparr>db_pools := update_where p f (db_pools d)\<rparr>"

definition SetPoolTakesDiscovery :: "uuid \<Rightarrow> bool \<Rightarrow> db \<Rightarrow> bool \<times> db" where
  "SetPoolTakesDiscovery i v d = (let p = (\<lambda>x. p_id x = i \<and> \<not> p_run_scoped x) in
     (0 < affected p (db_pools d), set_pools p (\<lambda>x. x\<lparr>p_takes_discovery := v\<rparr>) d))"

text \<open>A pool as an exit: the row, and how many of its workers are active and not local.\<close>

definition exit_workers :: "db \<Rightarrow> uuid \<Rightarrow> nat" where
  "exit_workers d pid = affected (\<lambda>w. active_in_pool d pid w \<and> w_kind w \<noteq> ''local'') (db_workers d)"

definition ListExitPools :: "db \<Rightarrow> (worker_pool \<times> nat) list" where
  "ListExitPools d = map (\<lambda>p. (p, exit_workers d (p_id p)))
     (sort_key (\<lambda>p. (\<not> p_default p, p_name p)) (filter (\<lambda>p. \<not> p_run_scoped p) (db_pools d)))"

definition GetExitPool :: "uuid \<Rightarrow> db \<Rightarrow> (worker_pool \<times> nat) option" where
  "GetExitPool i d = map_option (\<lambda>p. (p, exit_workers d (p_id p)))
     (find (\<lambda>p. p_id p = i \<and> \<not> p_run_scoped p) (db_pools d))"

section \<open>The fleet of a run\<close>

definition CreateRunPool :: "string \<Rightarrow> db \<Rightarrow> uuid result \<times> db" where
  "CreateRunPool name d =
     (if name \<in> p_name ` set (db_pools d) then (Inl ''worker_pool: unique'', d)
      else (Inr (fresh d), drawn d\<lparr>db_pools := db_pools d @ [\<lparr>p_id = fresh d, p_name = name, p_default = False,
        p_run_scoped = True, p_takes_discovery = False\<rparr>]\<rparr>))"

definition CreateRunFleet :: "uuid \<Rightarrow> uuid \<Rightarrow> int \<Rightarrow> bool \<Rightarrow> string \<Rightarrow> uuid option \<Rightarrow> db \<Rightarrow> string option \<times> db" where
  "CreateRunFleet rid pool n auto_size token vpn d =
     (if rid \<in> rf_run ` set (db_fleets d) then (Some ''run_fleet: unique'', d)
      else if rid \<notin> run_id ` set (db_runs d) \<or> dangling (Some pool) (map p_id (db_pools d)) \<or>
        dangling vpn (map vc_id (db_vpns d)) then (Some ''run_fleet: foreign key'', d)
      else (None, d\<lparr>db_fleets := db_fleets d @ [\<lparr>rf_run = rid, rf_pool = Some pool, rf_workers = n, rf_auto = auto_size,
        rf_token = token, rf_vpn = vpn, rf_status = ''requested'', rf_error = None, rf_egress = None,
        rf_created_at = db_now d, rf_ready_at = None, rf_torn_down_at = None\<rparr>]\<rparr>))"

definition GetRunFleet :: "uuid \<Rightarrow> db \<Rightarrow> run_fleet option" where
  "GetRunFleet rid d = fleet_of d rid"

definition fleetsWhere :: "(run_fleet \<Rightarrow> scan_run \<Rightarrow> bool) \<Rightarrow> db \<Rightarrow> run_fleet list" where
  "fleetsWhere cond d = sort_key rf_created_at
     (filter (\<lambda>f. case run_of d (rf_run f) of None \<Rightarrow> False | Some r \<Rightarrow> cond f r) (db_fleets d))"

definition FleetsToBuild :: "db \<Rightarrow> run_fleet list" where
  "FleetsToBuild d = fleetsWhere (\<lambda>f r. rf_status f = ''requested'' \<and>
     run_status r \<in> {RunQueued, RunPlanning, RunRunning}) d"

definition FleetsToTearDown :: "db \<Rightarrow> run_fleet list" where
  "FleetsToTearDown d = fleetsWhere (\<lambda>f r. rf_status f \<in> {''up'', ''failed'', ''requested''} \<and>
     run_status r \<notin> {RunQueued, RunPlanning, RunRunning, RunPaused}) d"

definition LiveFleets :: "db \<Rightarrow> run_fleet list" where
  "LiveFleets d = fleetsWhere (\<lambda>f r. rf_status f = ''up'' \<and>
     run_status r \<in> {RunQueued, RunPlanning, RunRunning, RunPaused}) d"

definition set_fleets :: "(run_fleet \<Rightarrow> bool) \<Rightarrow> (run_fleet \<Rightarrow> run_fleet) \<Rightarrow> db \<Rightarrow> db" where
  "set_fleets p f d = d\<lparr>db_fleets := update_where p f (db_fleets d)\<rparr>"

definition SetFleetStatus :: "uuid \<Rightarrow> string \<Rightarrow> string option \<Rightarrow> string option \<Rightarrow> db \<Rightarrow> db" where
  "SetFleetStatus rid s err egress d = set_fleets (\<lambda>f. rf_run f = rid) (\<lambda>f. f\<lparr>rf_status := s, rf_error := err,
     rf_egress := (case egress of Some e \<Rightarrow> Some e | None \<Rightarrow> rf_egress f),
     rf_ready_at := (if s = ''up'' \<and> rf_ready_at f = None then Some (db_now d) else rf_ready_at f),
     rf_torn_down_at := (if s = ''torn_down'' then Some (db_now d) else rf_torn_down_at f)\<rparr>) d"

definition CountLiveFleets :: "db \<Rightarrow> nat" where
  "CountLiveFleets d = affected (\<lambda>f. rf_status f = ''up'') (db_fleets d)"

definition MarkFleetTornDown :: "uuid \<Rightarrow> db \<Rightarrow> db" where
  "MarkFleetTornDown rid d = set_fleets (\<lambda>f. rf_run f = rid)
     (\<lambda>f. f\<lparr>rf_status := ''torn_down'', rf_torn_down_at := Some (db_now d)\<rparr>) d"

text \<open>Deleting a pool: every reference to it is \<^verbatim>\<open>ON DELETE SET NULL\<close>.\<close>

definition delete_pools :: "(worker_pool \<Rightarrow> bool) \<Rightarrow> db \<Rightarrow> db" where
  "delete_pools p d = (let gone = (\<lambda>i. \<exists>x \<in> set (db_pools d). p x \<and> p_id x = i) in
     d\<lparr>db_pools := filter (\<lambda>x. \<not> p x) (db_pools d),
       db_workers := map (\<lambda>w. w\<lparr>w_pool := unset gone (w_pool w)\<rparr>) (db_workers d),
       db_runs := map (\<lambda>r. r\<lparr>run_pool := unset gone (run_pool r)\<rparr>) (db_runs d),
       db_tasks := map (\<lambda>t. t\<lparr>t_pool := unset gone (t_pool t)\<rparr>) (db_tasks d),
       db_tokens := map (\<lambda>t. t\<lparr>et_pool := unset gone (et_pool t)\<rparr>) (db_tokens d),
       db_fleets := map (\<lambda>f. f\<lparr>rf_pool := unset gone (rf_pool f)\<rparr>) (db_fleets d),
       db_schedules := map (\<lambda>s. s\<lparr>sc_pool := unset gone (sc_pool s)\<rparr>) (db_schedules d),
       db_scopes := map (\<lambda>s. s\<lparr>sco_pool := unset gone (sco_pool s)\<rparr>) (db_scopes d),
       db_scope_targets := map (\<lambda>s. s\<lparr>st_pool := unset gone (st_pool s)\<rparr>) (db_scope_targets d),
       db_accounts := (db_accounts d)\<lparr>ac_exits := map (\<lambda>x. x\<lparr>sx_pool := unset gone (sx_pool x)\<rparr>) (ac_exits (db_accounts d))\<rparr>\<rparr>)"

definition DeleteRunPoolAndWorkers :: "uuid \<Rightarrow> db \<Rightarrow> nat \<times> db" where
  "DeleteRunPoolAndWorkers pid d = (let (n, d1) = delete_workers (\<lambda>w. w_pool w = Some pid) d in
     (n, delete_pools (\<lambda>p. p_id p = pid \<and> p_run_scoped p) d1))"

definition ActiveWorkersInPool :: "uuid \<Rightarrow> db \<Rightarrow> nat" where
  "ActiveWorkersInPool pid d = affected (active_in_pool d pid) (db_workers d)"

definition RunHasFleet :: "uuid \<Rightarrow> db \<Rightarrow> bool" where
  "RunHasFleet rid d \<longleftrightarrow> 0 < affected (\<lambda>f. rf_run f = rid) (db_fleets d)"

end
