(* ===== verification/AuthCore.thy ===== *)
theory AuthCore
  imports Prelude
begin

text \<open>
  \<^verbatim>\<open>internal/auth\<close>: roles, secrets and passwords. Go strings are byte strings here, so
  \<^verbatim>\<open>[]byte(s)\<close> is \<open>s\<close> itself. What the package takes from elsewhere is a parameter: \<open>idkey\<close> is
  \<^verbatim>\<open>argon2.IDKey\<close> applied to password, salt, time, memory, threads and key length, \<open>sha\<close> is
  \<^verbatim>\<open>sha256.Sum256\<close>, and the random bytes a function reads are an argument. The standard library's
  unpadded base64 and the part of \<^verbatim>\<open>fmt.Sscanf\<close> the hash format needs are modelled.
\<close>

section \<open>Roles\<close>

definition RoleViewer :: string where
  "RoleViewer = ''viewer''"

definition RoleOperator :: string where
  "RoleOperator = ''operator''"

definition RoleAdmin :: string where
  "RoleAdmin = ''admin''"

definition rank :: "string \<Rightarrow> nat" where
  "rank r = (if r = RoleAdmin then 3 else if r = RoleOperator then 2 else if r = RoleViewer then 1 else 0)"

definition AtLeast :: "string \<Rightarrow> string \<Rightarrow> bool" where
  "AtLeast r least \<longleftrightarrow> rank r \<ge> rank least \<and> rank r > 0"

definition Valid :: "string \<Rightarrow> bool" where
  "Valid r \<longleftrightarrow> rank r > 0"

record identity =
  id_user :: uuid
  id_username :: string
  id_role :: string
  id_via :: string
  id_token :: "uuid option"

definition SessionCookie :: string where
  "SessionCookie = ''pg_session''"

definition TokenPrefix :: string where
  "TokenPrefix = ''pgt_''"

section \<open>Base64 without padding\<close>

text \<open>The two alphabets differ in their last two characters.\<close>

definition b64_char :: "bool \<Rightarrow> nat \<Rightarrow> char" where
  "b64_char url n = (if n < 26 then char_of (65 + n) else if n < 52 then char_of (71 + n) else if n < 62 then char_of (n - 4)
     else if n = 62 then (if url then CHR ''-'' else CHR ''+'') else (if url then CHR ''_'' else CHR ''/''))"

definition b64_value :: "bool \<Rightarrow> char \<Rightarrow> nat option" where
  "b64_value url c = (if is_upper_alpha c then Some (code c - 65) else if is_lower_alpha c then Some (code c - 71)
     else if is_digit c then Some (code c + 4)
     else if c = (if url then CHR ''-'' else CHR ''+'') then Some 62
     else if c = (if url then CHR ''_'' else CHR ''/'') then Some 63 else None)"

fun b64_encode :: "bool \<Rightarrow> string \<Rightarrow> string" where
  "b64_encode u [] = []"
| "b64_encode u [a] = [b64_char u (code a div 4), b64_char u (code a mod 4 * 16)]"
| "b64_encode u [a, b] = [b64_char u (code a div 4), b64_char u (code a mod 4 * 16 + code b div 16), b64_char u (code b mod 16 * 4)]"
| "b64_encode u (a # b # c # s) =
     b64_char u (code a div 4) # b64_char u (code a mod 4 * 16 + code b div 16) #
     b64_char u (code b mod 16 * 4 + code c div 64) # b64_char u (code c mod 64) # b64_encode u s"

text \<open>Decoding skips line breaks; the bits a last short group has too many are ignored.\<close>

fun b64_values :: "nat list \<Rightarrow> string option" where
  "b64_values [] = Some []"
| "b64_values [a] = None"
| "b64_values [a, b] = Some [char_of (a * 4 + b div 16)]"
| "b64_values [a, b, c] = Some [char_of (a * 4 + b div 16), char_of (b mod 16 * 16 + c div 4)]"
| "b64_values (a # b # c # e # s) =
     map_option (\<lambda>r. char_of (a * 4 + b div 16) # char_of (b mod 16 * 16 + c div 4) # char_of (c mod 4 * 64 + e) # r) (b64_values s)"

definition b64_decode :: "bool \<Rightarrow> string \<Rightarrow> string option" where
  "b64_decode u s = (let vs = map (b64_value u) (filter (\<lambda>c. code c \<noteq> 10 \<and> code c \<noteq> 13) s)
     in if None \<in> set vs then None else b64_values (map the vs))"

section \<open>Reading numbers out of a format\<close>

text \<open>
  \<^verbatim>\<open>fmt.Sscanf\<close> with a literal and \<open>%d\<close>: blanks before the number are skipped; a signed number may
  carry a sign; the rest of the input is left for what follows and need not be empty at the end.
\<close>

fun scan_literal :: "string \<Rightarrow> string \<Rightarrow> string option" where
  "scan_literal [] s = Some s"
| "scan_literal (c # cs) [] = None"
| "scan_literal (c # cs) (x # s) = (if c = x then scan_literal cs s else None)"

definition skip_blanks :: "string \<Rightarrow> string" where
  "skip_blanks s = dropWhile (\<lambda>c. is_space c \<and> code c \<noteq> 10 \<and> code c \<noteq> 13) s"

definition scan_uint :: "nat \<Rightarrow> string \<Rightarrow> (nat \<times> string) option" where
  "scan_uint bits s = (let ds = takeWhile is_digit (skip_blanks s)
     in if ds = [] \<or> digits_val ds \<ge> 2 ^ bits then None else Some (digits_val ds, dropWhile is_digit (skip_blanks s)))"

definition scan_int :: "string \<Rightarrow> (int \<times> string) option" where
  "scan_int s = (let t = skip_blanks s;
       neg = HasPrefix t ''-'';
       u = (if HasPrefix t ''-'' \<or> HasPrefix t ''+'' then tl t else t);
       ds = takeWhile is_digit u;
       n = (if neg then - int (digits_val ds) else int (digits_val ds))
     in if ds = [] \<or> n > max_int64 \<or> n < min_int64 then None else Some (n, dropWhile is_digit u))"

section \<open>Passwords\<close>

definition argonTime :: nat where
  "argonTime = 3"

definition argonMemory :: nat where
  "argonMemory = 64 * 1024"

definition argonThreads :: nat where
  "argonThreads = 4"

definition argonKeyLen :: nat where
  "argonKeyLen = 32"

definition argonSaltLen :: nat where
  "argonSaltLen = 16"

text \<open>\<^verbatim>\<open>argon2.Version\<close> is 19 (0x13).\<close>

definition argonVersion :: nat where
  "argonVersion = 19"

type_synonym idkey = "string \<Rightarrow> string \<Rightarrow> nat \<Rightarrow> nat \<Rightarrow> nat \<Rightarrow> nat \<Rightarrow> string"

definition HashPassword :: "idkey \<Rightarrow> string \<Rightarrow> string \<Rightarrow> string" where
  "HashPassword idkey salt pw =
     ''$argon2id$v='' @ itoa_nat argonVersion @ ''$m='' @ itoa_nat argonMemory @ '',t='' @ itoa_nat argonTime @
     '',p='' @ itoa_nat argonThreads @ ''$'' @ b64_encode False salt @ ''$'' @
     b64_encode False (idkey pw salt argonTime argonMemory argonThreads argonKeyLen)"

definition scan_costs :: "string \<Rightarrow> (nat \<times> nat \<times> nat) option" where
  "scan_costs s = (case scan_literal ''m='' s of None \<Rightarrow> None | Some s1 \<Rightarrow>
     (case scan_uint 32 s1 of None \<Rightarrow> None | Some (mem, s2) \<Rightarrow>
     (case scan_literal '',t='' s2 of None \<Rightarrow> None | Some s3 \<Rightarrow>
     (case scan_uint 32 s3 of None \<Rightarrow> None | Some (time, s4) \<Rightarrow>
     (case scan_literal '',p='' s4 of None \<Rightarrow> None | Some s5 \<Rightarrow>
     (case scan_uint 8 s5 of None \<Rightarrow> None | Some (threads, s6) \<Rightarrow> Some (mem, time, threads)))))))"

text \<open>Whether the password matches, or that the stored hash is malformed (\<^verbatim>\<open>ErrBadHash\<close>).\<close>

definition VerifyPassword :: "idkey \<Rightarrow> string \<Rightarrow> string \<Rightarrow> bool option" where
  "VerifyPassword idkey encoded pw = (case split_on CHR ''$'' encoded of
     [p0, p1, p2, p3, p4, p5] \<Rightarrow>
       (if p1 \<noteq> ''argon2id'' then None
        else case scan_literal ''v='' p2 of None \<Rightarrow> None | Some v \<Rightarrow>
          (case scan_int v of None \<Rightarrow> None | Some (version, r) \<Rightarrow>
           (if version \<noteq> int argonVersion then None
            else case scan_costs p3 of None \<Rightarrow> None | Some (mem, time, threads) \<Rightarrow>
              (case b64_decode False p4 of None \<Rightarrow> None | Some salt \<Rightarrow>
               (case b64_decode False p5 of None \<Rightarrow> None | Some want \<Rightarrow>
                  Some (idkey pw salt time mem threads (length want) = want))))))
   | _ \<Rightarrow> None)"

text \<open>Single-byte characters are counted as runes.\<close>

definition CheckPasswordPolicy :: "string \<Rightarrow> string option" where
  "CheckPasswordPolicy pw =
     (if length pw < 12 then Some ''password must be at least 12 characters''
      else if length pw > 1024 then Some ''password must be at most 1024 bytes'' else None)"

definition DefaultUsername :: string where
  "DefaultUsername = ''admin''"

definition DefaultAdminPassword :: "string \<Rightarrow> string" where
  "DefaultAdminPassword env = (if env = ''-'' then [] else env)"

definition SeedDisabled :: "string \<Rightarrow> bool" where
  "SeedDisabled env \<longleftrightarrow> env = ''-''"

definition GeneratePassword :: "string \<Rightarrow> string" where
  "GeneratePassword raw = b64_encode True raw"

section \<open>Secrets\<close>

definition HashSecret :: "(string \<Rightarrow> string) \<Rightarrow> string \<Rightarrow> string" where
  "HashSecret sha secret = sha secret"

definition NewSecret :: "(string \<Rightarrow> string) \<Rightarrow> string \<Rightarrow> string \<times> string" where
  "NewSecret sha raw = (let secret = b64_encode True raw in (secret, sha secret))"

text \<open>The token a request presents: the \<^verbatim>\<open>Authorization\<close> header, or the \<^verbatim>\<open>X-API-Token\<close> header.\<close>

definition BearerToken :: "string \<Rightarrow> string \<Rightarrow> string" where
  "BearerToken authorization api_token =
     (if HasPrefix authorization ''Bearer '' then TrimSpace (drop 7 authorization) else TrimSpace api_token)"

section \<open>Round trips\<close>

lemma b64_char_value: "n < 64 \<Longrightarrow> b64_value u (b64_char u n) = Some n"
proof -
  assume "n < 64"
  then consider "n < 26" | "26 \<le> n \<and> n < 52" | "52 \<le> n \<and> n < 62" | "n = 62" | "n = 63" by linarith
  then show ?thesis
    by cases (auto simp: b64_char_def b64_value_def is_upper_alpha_def is_lower_alpha_def is_digit_def code_char_of code_def)
qed

lemma b64_char_visible: "n < 64 \<Longrightarrow> code (b64_char u n) \<noteq> 10 \<and> code (b64_char u n) \<noteq> 13 \<and> b64_char u n \<noteq> CHR ''$''"
proof -
  assume "n < 64"
  then consider "n < 26" | "26 \<le> n \<and> n < 52" | "52 \<le> n \<and> n < 62" | "n = 62" | "n = 63" by linarith
  then have "36 < code (b64_char u n)" by cases (auto simp: b64_char_def code_char_of code_def)
  then show ?thesis by (auto simp: code_def)
qed

lemma code_less: "code c < 256"
  unfolding code_def by (rule nat_of_char_less_256)

lemma char_of_code: "char_of (code c) = c"
  by (simp add: code_def)

lemma b64_encode_values:
  "\<exists>vs. b64_encode u s = map (b64_char u) vs \<and> (\<forall>v \<in> set vs. v < 64) \<and> b64_values vs = Some s"
proof (induction u s rule: b64_encode.induct)
  case (1 u)
  show ?case by (intro exI [of _ "[]"]) simp
next
  case (2 u a)
  have "char_of (code a div 4 * 4 + code a mod 4 * 16 div 16) = a" by (simp add: char_of_code)
  then show ?case using code_less [of a]
    by (intro exI [of _ "[code a div 4, code a mod 4 * 16]"]) auto
next
  case (3 u a b)
  have "char_of (code a div 4 * 4 + (code a mod 4 * 16 + code b div 16) div 16) = a" using code_less [of b]
    by (simp add: char_of_code)
  moreover have "(code a mod 4 * 16 + code b div 16) mod 16 = code b div 16" using code_less [of b] by auto
  then have "char_of ((code a mod 4 * 16 + code b div 16) mod 16 * 16 + code b mod 16 * 4 div 4) = b" by (simp add: char_of_code)
  ultimately show ?case using code_less [of a] code_less [of b]
    by (intro exI [of _ "[code a div 4, code a mod 4 * 16 + code b div 16, code b mod 16 * 4]"]) auto
next
  case (4 u a b c s)
  then obtain vs where vs: "b64_encode u s = map (b64_char u) vs" "\<forall>v \<in> set vs. v < 64" "b64_values vs = Some s" by blast
  have "char_of (code a div 4 * 4 + (code a mod 4 * 16 + code b div 16) div 16) = a" using code_less [of b]
    by (simp add: char_of_code)
  moreover have "(code a mod 4 * 16 + code b div 16) mod 16 = code b div 16" using code_less [of b] by auto
  then have "char_of ((code a mod 4 * 16 + code b div 16) mod 16 * 16 + (code b mod 16 * 4 + code c div 64) div 4) = b"
    using code_less [of c] by (simp add: char_of_code)
  moreover have "(code b mod 16 * 4 + code c div 64) mod 4 = code c div 64" using code_less [of c] by auto
  then have "char_of ((code b mod 16 * 4 + code c div 64) mod 4 * 64 + code c mod 64) = c" by (simp add: char_of_code)
  moreover have "code a div 4 < 64 \<and> code a mod 4 * 16 + code b div 16 < 64 \<and> code b mod 16 * 4 + code c div 64 < 64 \<and> code c mod 64 < 64"
    using code_less [of a] code_less [of b] code_less [of c] by auto
  ultimately show ?case using vs
    by (intro exI [of _ "code a div 4 # (code a mod 4 * 16 + code b div 16) # (code b mod 16 * 4 + code c div 64) # code c mod 64 # vs"])
      (simp)
qed

lemma b64_roundtrip: "b64_decode u (b64_encode u s) = Some s"
proof -
  obtain vs where vs: "b64_encode u s = map (b64_char u) vs" "\<forall>v \<in> set vs. v < 64" "b64_values vs = Some s"
    using b64_encode_values by blast
  have "filter (\<lambda>c. code c \<noteq> 10 \<and> code c \<noteq> 13) (map (b64_char u) vs) = map (b64_char u) vs"
    using vs(2) b64_char_visible by (auto simp: filter_id_conv)
  moreover have "map (b64_value u) (map (b64_char u) vs) = map Some vs" using vs(2) b64_char_value by simp
  ultimately have "b64_decode u (b64_encode u s) = (if None \<in> set (map Some vs) then None else b64_values (map the (map Some vs)))"
    unfolding b64_decode_def Let_def vs(1) by (simp only:)
  then show ?thesis using vs(3) by (auto simp: comp_def)
qed

lemma b64_no_dollar: "CHR ''$'' \<notin> set (b64_encode u s)"
  using b64_encode_values [of u s] b64_char_visible by fastforce

lemma split_on_nonempty [simp]: "split_on c s \<noteq> []"
  by (induction s) (auto split: list.split)

lemma split_on_none: "c \<notin> set s \<Longrightarrow> split_on c s = [s]"
  by (induction s) auto

lemma split_on_append: "c \<notin> set s \<Longrightarrow> split_on c (s @ c # r) = s # split_on c r"
  by (induction s) auto

text \<open>
  C33: A password matches the hash that was made of it. Whatever bytes the salt has, and whatever key
  the derivation yields as long as it has the length asked for, \<open>VerifyPassword\<close> reads the
  parameters, the salt and the key back from the encoded hash and accepts the password; and it
  accepts another password only if the derivation gives it the same key.
\<close>

theorem password_roundtrip:
  assumes "length (idkey pw salt argonTime argonMemory argonThreads argonKeyLen) = argonKeyLen"
  shows "VerifyPassword idkey (HashPassword idkey salt pw) pw' =
    Some (idkey pw' salt argonTime argonMemory argonThreads argonKeyLen =
          idkey pw salt argonTime argonMemory argonThreads argonKeyLen)"
proof -
  let ?k = "idkey pw salt argonTime argonMemory argonThreads argonKeyLen"
  have nums: "itoa_nat argonVersion = ''19''" "itoa_nat argonMemory = ''65536''" "itoa_nat argonTime = ''3''" "itoa_nat argonThreads = ''4''"
    by code_simp+
  have h: "HashPassword idkey salt pw = [] @ CHR ''$'' # ''argon2id'' @ CHR ''$'' # ''v=19'' @ CHR ''$'' # ''m=65536,t=3,p=4'' @ CHR ''$'' #
      b64_encode False salt @ CHR ''$'' # b64_encode False ?k"
    by (simp add: HashPassword_def nums)
  have parts: "split_on CHR ''$'' (HashPassword idkey salt pw) =
      [[], ''argon2id'', ''v=19'', ''m=65536,t=3,p=4'', b64_encode False salt, b64_encode False ?k]"
    unfolding h by (simp add: split_on_append split_on_none b64_no_dollar)
  have "scan_literal ''v='' ''v=19'' = Some ''19''" "scan_int ''19'' = Some (19, [])"
    "scan_costs ''m=65536,t=3,p=4'' = Some (argonMemory, argonTime, argonThreads)" by code_simp+
  then show ?thesis using assms by (simp add: VerifyPassword_def parts b64_roundtrip argonVersion_def)
qed

theorem password_roundtrip_witness:
  "VerifyPassword (\<lambda>pw salt t m p l. take l (pw @ replicate l CHR ''x''))
     (HashPassword (\<lambda>pw salt t m p l. take l (pw @ replicate l CHR ''x'')) ''0123456789abcdef'' ''correct horse'') ''correct horse'' = Some True"
proof -
  let ?f = "\<lambda>pw salt t m p l. take l (pw @ replicate l CHR ''x'')"
  have "length (?f ''correct horse'' ''0123456789abcdef'' argonTime argonMemory argonThreads argonKeyLen) = argonKeyLen"
    by (simp add: argonKeyLen_def)
  from password_roundtrip [of ?f "''correct horse''" "''0123456789abcdef''" "''correct horse''", OF this] show ?thesis by (simp only: simp_thms)
qed

end
