(* ===== verification/Accounts.thy ===== *)
theory Accounts
  imports AuthCore RunStore NetIP
begin

text \<open>
  Accounts and their credentials: \<^verbatim>\<open>user.go\<close>, \<^verbatim>\<open>session.go\<close>, \<^verbatim>\<open>apitoken.go\<close>, \<^verbatim>\<open>loginattempt.go\<close> of
  \<^verbatim>\<open>internal/store\<close> and the audit log. A user is its row; the code strips the password hash from
  what it serialises. Usernames are compared in lower case, as the unique index does.
\<close>

section \<open>Accounts\<close>

definition set_accounts :: "(accounts \<Rightarrow> accounts) \<Rightarrow> db \<Rightarrow> db" where
  "set_accounts f d = d\<lparr>db_accounts := f (db_accounts d)\<rparr>"

abbreviation users :: "db \<Rightarrow> app_user list" where
  "users d \<equiv> ac_users (db_accounts d)"

abbreviation sessions :: "db \<Rightarrow> user_session list" where
  "sessions d \<equiv> ac_sessions (db_accounts d)"

abbreviation tokens :: "db \<Rightarrow> api_token list" where
  "tokens d \<equiv> ac_tokens (db_accounts d)"

definition ErrUsernameTaken :: string where
  "ErrUsernameTaken = ''that username is already taken''"

definition account_exists :: string where
  "account_exists = ''an account already exists; ask an administrator to add you''"

definition no_rows :: string where
  "no_rows = ''no rows in result set''"

definition CountUsers :: "db \<Rightarrow> nat" where
  "CountUsers d = length (users d)"

definition username_taken :: "string \<Rightarrow> app_user list \<Rightarrow> bool" where
  "username_taken name us \<longleftrightarrow> ToLower name \<in> (\<lambda>u. ToLower (us_name u)) ` set us"

definition new_user :: "string \<Rightarrow> string \<Rightarrow> string option \<Rightarrow> string \<Rightarrow> uuid option \<Rightarrow> db \<Rightarrow> app_user" where
  "new_user username display pwhash role createdBy d = \<lparr>us_id = fresh d, us_name = username, us_display = display,
     us_hash = pwhash, us_role = role, us_disabled = False, us_must_change = False, us_created_at = db_now d,
     us_created_by = createdBy, us_last_login = None\<rparr>"

definition CreateUser ::
  "idkey \<Rightarrow> string \<Rightarrow> string \<Rightarrow> string \<Rightarrow> string \<Rightarrow> string \<Rightarrow> uuid option \<Rightarrow> bool \<Rightarrow> db \<Rightarrow> app_user result \<times> db" where
  "CreateUser idkey salt username display password role createdBy firstOnly d =
     (let pwhash = (if password = [] then None else Some (HashPassword idkey salt password));
          u = new_user username display pwhash role createdBy d
      in if firstOnly \<and> users d \<noteq> [] then (Inl account_exists, d)
         else if \<not> Valid role \<or> dangling createdBy (map us_id (users d)) then (Inl ''app_user: constraint'', d)
         else if username_taken username (users d) then (Inl ErrUsernameTaken, d)
         else (Inr u, set_accounts (ac_users_update (\<lambda>us. us @ [u])) (drawn d)))"

definition UserByUsername :: "string \<Rightarrow> db \<Rightarrow> (app_user \<times> string) result" where
  "UserByUsername username d = (case find (\<lambda>u. ToLower (us_name u) = ToLower username) (users d) of
     None \<Rightarrow> Inl no_rows
   | Some u \<Rightarrow> Inr (u, case us_hash u of None \<Rightarrow> [] | Some h \<Rightarrow> h))"

definition GetUser :: "uuid \<Rightarrow> db \<Rightarrow> app_user result" where
  "GetUser i d = (case find (\<lambda>u. us_id u = i) (users d) of None \<Rightarrow> Inl no_rows | Some u \<Rightarrow> Inr u)"

definition ListUsers :: "db \<Rightarrow> app_user list" where
  "ListUsers d = sort_key us_created_at (users d)"

definition DeleteUserSessions :: "uuid \<Rightarrow> db \<Rightarrow> db" where
  "DeleteUserSessions i d = set_accounts (ac_sessions_update (filter (\<lambda>s. se_user s \<noteq> i))) d"

definition coalesce :: "'a option \<Rightarrow> 'a \<Rightarrow> 'a" where
  "coalesce x y = (case x of None \<Rightarrow> y | Some v \<Rightarrow> v)"

definition update_user_row :: "string option \<Rightarrow> string option \<Rightarrow> string option \<Rightarrow> bool option \<Rightarrow> app_user \<Rightarrow> app_user" where
  "update_user_row username display role disabled u = u\<lparr>us_name := coalesce username (us_name u),
     us_display := coalesce display (us_display u), us_role := coalesce role (us_role u),
     us_disabled := coalesce disabled (us_disabled u)\<rparr>"

definition UpdateUser ::
  "uuid \<Rightarrow> string option \<Rightarrow> string option \<Rightarrow> string option \<Rightarrow> bool option \<Rightarrow> db \<Rightarrow> app_user result \<times> db" where
  "UpdateUser i username display role disabled d = (case find (\<lambda>u. us_id u = i) (users d) of
     None \<Rightarrow> (Inl no_rows, d)
   | Some u \<Rightarrow>
       (let u' = update_user_row username display role disabled u
        in if \<not> Valid (us_role u') then (Inl ''app_user: constraint'', d)
           else if username_taken (us_name u') (filter (\<lambda>x. us_id x \<noteq> i) (users d)) then (Inl ErrUsernameTaken, d)
           else let d1 = set_accounts (ac_users_update (update_where (\<lambda>x. us_id x = i) (update_user_row username display role disabled))) d
                in (Inr u', if disabled = Some True \<or> role \<noteq> None then DeleteUserSessions i d1 else d1)))"

definition SetPassword :: "idkey \<Rightarrow> string \<Rightarrow> uuid \<Rightarrow> string \<Rightarrow> db \<Rightarrow> db" where
  "SetPassword idkey salt i password d = set_accounts (ac_users_update (update_where (\<lambda>u. us_id u = i)
     (\<lambda>u. u\<lparr>us_hash := Some (HashPassword idkey salt password), us_must_change := False\<rparr>))) d"

definition SetMustChangePassword :: "uuid \<Rightarrow> bool \<Rightarrow> db \<Rightarrow> db" where
  "SetMustChangePassword i v d = set_accounts (ac_users_update (update_where (\<lambda>u. us_id u = i) (\<lambda>u. u\<lparr>us_must_change := v\<rparr>))) d"

definition CountMustChangePassword :: "db \<Rightarrow> nat" where
  "CountMustChangePassword d = affected (\<lambda>u. us_must_change u \<and> \<not> us_disabled u) (users d)"

definition CountAdmins :: "uuid \<Rightarrow> db \<Rightarrow> nat" where
  "CountAdmins excluding d = affected (\<lambda>u. us_role u = RoleAdmin \<and> \<not> us_disabled u \<and> us_id u \<noteq> excluding) (users d)"

text \<open>
  Deleting an account. Sessions, tokens, memberships, tunnels and SSH exits go with it; references
  kept for the record are set to NULL, and so are references to the tunnels that go.
\<close>

definition delete_vpns :: "(vpn_config \<Rightarrow> bool) \<Rightarrow> db \<Rightarrow> db" where
  "delete_vpns p d = (let gone = (\<lambda>i. \<exists>v \<in> set (db_vpns d). p v \<and> vc_id v = i)
     in d\<lparr>db_vpns := filter (\<lambda>v. \<not> p v) (db_vpns d),
          db_runs := map (\<lambda>r. r\<lparr>run_vpn := unset gone (run_vpn r)\<rparr>) (db_runs d),
          db_fleets := map (\<lambda>f. f\<lparr>rf_vpn := unset gone (rf_vpn f)\<rparr>) (db_fleets d),
          db_schedules := map (\<lambda>s. s\<lparr>sc_vpn := unset gone (sc_vpn s)\<rparr>) (db_schedules d),
          db_scopes := map (\<lambda>s. s\<lparr>sco_vpn := unset gone (sco_vpn s)\<rparr>) (db_scopes d)\<rparr>)"

definition DeleteUser :: "uuid \<Rightarrow> db \<Rightarrow> bool \<times> db" where
  "DeleteUser i d = (let gone = (\<lambda>x. x = i); d1 = delete_vpns (\<lambda>v. vc_owner v = i) d
     in (0 < affected (\<lambda>u. us_id u = i) (users d),
         set_accounts (\<lambda>a. a\<lparr>
           ac_users := map (\<lambda>u. u\<lparr>us_created_by := unset gone (us_created_by u)\<rparr>) (filter (\<lambda>u. us_id u \<noteq> i) (ac_users a)),
           ac_sessions := filter (\<lambda>s. se_user s \<noteq> i) (ac_sessions a),
           ac_tokens := filter (\<lambda>t. at_user t \<noteq> i) (ac_tokens a),
           ac_members := filter (\<lambda>m. mb_user m \<noteq> i) (ac_members a),
           ac_exits := filter (\<lambda>x. sx_owner x \<noteq> i) (ac_exits a),
           ac_audit := map (\<lambda>x. x\<lparr>au_user := unset gone (au_user x)\<rparr>) (ac_audit a)\<rparr>)
         (d1\<lparr>db_scopes := map (\<lambda>s. s\<lparr>sco_owner := unset gone (sco_owner s)\<rparr>) (db_scopes d1),
             db_runs := map (\<lambda>r. r\<lparr>run_user := unset gone (run_user r)\<rparr>) (db_runs d1)\<rparr>)))"

definition TouchLogin :: "uuid \<Rightarrow> db \<Rightarrow> db" where
  "TouchLogin i d = set_accounts (ac_users_update (update_where (\<lambda>u. us_id u = i) (\<lambda>u. u\<lparr>us_last_login := Some (db_now d)\<rparr>))) d"

definition EnsureDefaultAdmin :: "idkey \<Rightarrow> string \<Rightarrow> string \<Rightarrow> string \<Rightarrow> db \<Rightarrow> bool result \<times> db" where
  "EnsureDefaultAdmin idkey salt username password d =
     (case CreateUser idkey salt username ''Administrator'' password RoleAdmin None True d of
        (Inr u, d1) \<Rightarrow> (Inr True, d1)
      | (Inl e, d1) \<Rightarrow> ((if str_index e ''an account already exists'' \<noteq> None then Inr False else Inl e), d1))"

section \<open>Sessions\<close>

definition SessionTTL :: int where
  "SessionTTL = seconds (12 * 3600)"

text \<open>\<^verbatim>\<open>net.ParseIP\<close> accepts what \<open>ParseAddr\<close> does, without a zone.\<close>

definition parses_ip :: "string \<Rightarrow> bool" where
  "parses_ip s = (case ParseAddr s of None \<Rightarrow> False | Some a \<Rightarrow> addr_zone a = [])"

definition CreateSession :: "(string \<Rightarrow> string) \<Rightarrow> string \<Rightarrow> uuid \<Rightarrow> string \<Rightarrow> string \<Rightarrow> db \<Rightarrow> string result \<times> db" where
  "CreateSession sha raw user ua ip d =
     (let (secret, h) = NewSecret sha raw;
          ip1 = (case net_split_host ip of Some host \<Rightarrow> host | None \<Rightarrow> ip);
          addr = (if parses_ip ip1 then Some ip1 else None)
      in if user \<notin> us_id ` set (users d) \<or> h \<in> se_hash ` set (sessions d) then (Inl ''user_session: constraint'', d)
         else (Inr secret, set_accounts (ac_sessions_update (\<lambda>ss. ss @
           [\<lparr>se_hash = h, se_user = user, se_created_at = db_now d, se_expires = db_now d + SessionTTL,
             se_last_seen = db_now d, se_agent = take 400 ua, se_ip = addr\<rparr>])) d))"

definition live_session :: "string \<Rightarrow> db \<Rightarrow> user_session \<Rightarrow> bool" where
  "live_session h d s \<longleftrightarrow> se_hash s = h \<and> se_expires s > db_now d"

definition LookupSession :: "(string \<Rightarrow> string) \<Rightarrow> string \<Rightarrow> db \<Rightarrow> identity option \<times> db" where
  "LookupSession sha secret d = (let h = HashSecret sha secret
     in case find (\<lambda>(s, u). live_session h d s \<and> us_id u = se_user s \<and> \<not> us_disabled u)
               (List.product (sessions d) (users d)) of
          None \<Rightarrow> (None, d)
        | Some (s, u) \<Rightarrow> (Some \<lparr>id_user = us_id u, id_username = us_name u, id_role = us_role u, id_via = ''session'', id_token = None\<rparr>,
            set_accounts (ac_sessions_update (update_where (\<lambda>s. se_hash s = h)
              (\<lambda>s. s\<lparr>se_last_seen := db_now d, se_expires := db_now d + SessionTTL\<rparr>))) d))"

definition DeleteSession :: "(string \<Rightarrow> string) \<Rightarrow> string \<Rightarrow> db \<Rightarrow> db" where
  "DeleteSession sha secret d = set_accounts (ac_sessions_update (filter (\<lambda>s. se_hash s \<noteq> HashSecret sha secret))) d"

definition ListSessions :: "uuid \<Rightarrow> db \<Rightarrow> user_session list" where
  "ListSessions i d = sort_key (\<lambda>s. - se_last_seen s) (filter (\<lambda>s. se_user s = i \<and> se_expires s > db_now d) (sessions d))"

definition ReapExpiredSessions :: "db \<Rightarrow> nat \<times> db" where
  "ReapExpiredSessions d = (affected (\<lambda>s. se_expires s < db_now d) (sessions d),
     set_accounts (ac_sessions_update (filter (\<lambda>s. \<not> se_expires s < db_now d))) d)"

section \<open>API tokens\<close>

definition CreateAPIToken ::
  "(string \<Rightarrow> string) \<Rightarrow> string \<Rightarrow> uuid \<Rightarrow> string \<Rightarrow> string \<Rightarrow> string \<Rightarrow> int \<Rightarrow> db \<Rightarrow> (api_token \<times> string) result \<times> db" where
  "CreateAPIToken sha raw user name role ownerRole ttl d =
     (if \<not> Valid role then (Inl ''unknown role'', d)
      else if \<not> AtLeast ownerRole role then (Inl ''a token cannot be given more access than the person creating it has'', d)
      else let full = TokenPrefix @ fst (NewSecret sha raw);
               t = \<lparr>at_id = fresh d, at_hash = HashSecret sha full, at_prefix = take (length TokenPrefix + 6) full, at_name = name,
                     at_user = user, at_role = role, at_created_at = db_now d,
                     at_expires = (if ttl > 0 then Some (db_now d + ttl) else None), at_revoked = None, at_last_used = None\<rparr>
           in if user \<notin> us_id ` set (users d) \<or> at_hash t \<in> at_hash ` set (tokens d) then (Inl ''api_token: constraint'', d)
              else (Inr (t, full), set_accounts (ac_tokens_update (\<lambda>ts. ts @ [t])) (drawn d)))"

definition live_token :: "string \<Rightarrow> db \<Rightarrow> api_token \<Rightarrow> bool" where
  "live_token h d t \<longleftrightarrow> at_hash t = h \<and> at_revoked t = None \<and> (case at_expires t of None \<Rightarrow> True | Some e \<Rightarrow> e > db_now d)"

definition LookupAPIToken :: "(string \<Rightarrow> string) \<Rightarrow> string \<Rightarrow> db \<Rightarrow> identity option \<times> db" where
  "LookupAPIToken sha presented d =
     (if \<not> HasPrefix presented TokenPrefix then (None, d)
      else case find (\<lambda>(t, u). live_token (HashSecret sha presented) d t \<and> us_id u = at_user t \<and> \<not> us_disabled u)
               (List.product (tokens d) (users d)) of
          None \<Rightarrow> (None, d)
        | Some (t, u) \<Rightarrow> (Some \<lparr>id_user = us_id u, id_username = us_name u, id_role = at_role t, id_via = ''token'', id_token = Some (at_id t)\<rparr>,
            set_accounts (ac_tokens_update (update_where (\<lambda>x. at_id x = at_id t) (\<lambda>x. x\<lparr>at_last_used := Some (db_now d)\<rparr>))) d))"

definition ListAPITokens :: "uuid option \<Rightarrow> db \<Rightarrow> api_token list" where
  "ListAPITokens forUser d = sort_key (\<lambda>t. - at_created_at t)
     (filter (\<lambda>t. at_user t \<in> us_id ` set (users d) \<and> (forUser = None \<or> forUser = Some (at_user t))) (tokens d))"

definition revocable :: "uuid \<Rightarrow> uuid option \<Rightarrow> api_token \<Rightarrow> bool" where
  "revocable i onlyUser t \<longleftrightarrow> at_id t = i \<and> at_revoked t = None \<and> (onlyUser = None \<or> onlyUser = Some (at_user t))"

definition RevokeAPIToken :: "uuid \<Rightarrow> uuid option \<Rightarrow> db \<Rightarrow> bool \<times> db" where
  "RevokeAPIToken i onlyUser d = (0 < affected (revocable i onlyUser) (tokens d),
     set_accounts (ac_tokens_update (update_where (revocable i onlyUser) (\<lambda>t. t\<lparr>at_revoked := Some (db_now d)\<rparr>))) d)"

section \<open>Sign-in attempts\<close>

text \<open>
  One statement inserts an attempt for each key and counts those inside the window that were there
  before it, plus one: its own insert is not visible to it.
\<close>

definition recent_attempts :: "int \<Rightarrow> string \<Rightarrow> db \<Rightarrow> nat" where
  "recent_attempts window k d = length (filter (\<lambda>a. fst a = k \<and> snd a > db_now d - window) (ac_attempts (db_accounts d)))"

definition CountLoginAttempt :: "string list \<Rightarrow> int \<Rightarrow> db \<Rightarrow> nat \<times> db" where
  "CountLoginAttempt keys window d =
     (foldr max (map (\<lambda>k. recent_attempts window k d + 1) keys) 1,
      set_accounts (ac_attempts_update (\<lambda>as. as @ map (\<lambda>k. (k, db_now d)) keys)) d)"

definition ClearLoginAttempts :: "string list \<Rightarrow> db \<Rightarrow> db" where
  "ClearLoginAttempts keys d = set_accounts (ac_attempts_update (filter (\<lambda>a. fst a \<notin> set keys))) d"

definition PruneLoginAttempts :: "int \<Rightarrow> db \<Rightarrow> nat \<times> db" where
  "PruneLoginAttempts olderThan d = (affected (\<lambda>a. snd a < db_now d - olderThan) (ac_attempts (db_accounts d)),
     set_accounts (ac_attempts_update (filter (\<lambda>a. \<not> snd a < db_now d - olderThan))) d)"

section \<open>The audit log\<close>

text \<open>The detail document of an entry is left out. A record that cannot be written is passed over.\<close>

definition audit_write :: "uuid option \<Rightarrow> string \<Rightarrow> string \<Rightarrow> string \<Rightarrow> db \<Rightarrow> db" where
  "audit_write user actor action subject d =
     (if dangling user (map us_id (users d)) then d
      else set_accounts (ac_audit_update (\<lambda>as. as @ [\<lparr>au_actor = actor, au_user = user, au_action = action, au_subject = subject\<rparr>])) d)"

definition audit_log :: "string \<Rightarrow> string \<Rightarrow> string \<Rightarrow> db \<Rightarrow> db" where
  "audit_log actor action subject d = audit_write None actor action subject d"

definition LogUser :: "uuid \<Rightarrow> string \<Rightarrow> string \<Rightarrow> string \<Rightarrow> db \<Rightarrow> db" where
  "LogUser user actor action subject d = audit_write (if user = uuid_Nil then None else Some user) actor action subject d"

end
