(* ===== verification/AuthHttp.thy ===== *)
theory AuthHttp
  imports Accounts
begin

text \<open>
  Authentication and account administration of the user-facing API: \<^verbatim>\<open>auth.go\<close> and \<^verbatim>\<open>authroutes.go\<close>
  of \<^verbatim>\<open>internal/httpapi\<close>. A handler takes the request, its decoded body (\<open>None\<close> when it does not
  decode) and the database, and yields the answer, an HTTP status with a message or a payload, and
  the database it leaves. The statements of one handler run without another in between.

  \<open>crypto\<close> gathers what the handlers use of cryptography and randomness: the key derivation,
  SHA-256, and the bytes the next salt and the next secret are made of.
\<close>

record crypto =
  cr_idkey :: idkey
  cr_sha :: "string \<Rightarrow> string"
  cr_salt :: string
  cr_raw :: string

text \<open>
  What a handler reads of a request: the session cookie, the headers that authenticate, the address
  and the headers that name it, and the identity the middleware established.
\<close>

record request =
  rq_cookie :: string
  rq_authorization :: string
  rq_api_token :: string
  rq_proxy_secret :: string
  rq_forwarded_user :: string
  rq_forwarded_for :: string
  rq_remote :: string
  rq_agent :: string
  rq_identity :: "identity option"

datatype 'a answer = Fail nat string | Ok 'a

section \<open>Who is asking\<close>

text \<open>\<open>secret\<close> is \<^verbatim>\<open>ASM_TRUSTED_PROXY_SECRET\<close>, trimmed.\<close>

definition authenticate :: "crypto \<Rightarrow> string \<Rightarrow> request \<Rightarrow> db \<Rightarrow> identity option \<times> db" where
  "authenticate c secret r d =
     (let (i1, d1) = (if rq_cookie r \<noteq> [] then LookupSession (cr_sha c) (rq_cookie r) d else (None, d))
      in if i1 \<noteq> None then (i1, d1)
         else let tok = BearerToken (rq_authorization r) (rq_api_token r);
                  (i2, d2) = (if tok \<noteq> [] then LookupAPIToken (cr_sha c) tok d1 else (None, d1))
              in if i2 \<noteq> None then (i2, d2)
                 else let user = TrimSpace (rq_forwarded_user r)
                      in if secret \<noteq> [] \<and> user \<noteq> [] \<and> rq_proxy_secret r = secret
                         then (case UserByUsername user d2 of
                                 Inl e \<Rightarrow> (None, d2)
                               | Inr (u, h) \<Rightarrow> (if us_disabled u then None
                                   else Some \<lparr>id_user = us_id u, id_username = us_name u, id_role = us_role u, id_via = ''proxy'', id_token = None\<rparr>, d2))
                         else (None, d2))"

definition requireAuth ::
  "crypto \<Rightarrow> string \<Rightarrow> (request \<Rightarrow> db \<Rightarrow> 'a answer \<times> db) \<Rightarrow> request \<Rightarrow> db \<Rightarrow> 'a answer \<times> db" where
  "requireAuth c secret next r d = (case authenticate c secret r d of
     (None, d1) \<Rightarrow> (Fail 401 ''sign in to continue'', d1)
   | (Some i, d1) \<Rightarrow> next (r\<lparr>rq_identity := Some i\<rparr>) d1)"

definition require :: "string \<Rightarrow> (request \<Rightarrow> db \<Rightarrow> 'a answer \<times> db) \<Rightarrow> request \<Rightarrow> db \<Rightarrow> 'a answer \<times> db" where
  "require least next r d = (case rq_identity r of
     None \<Rightarrow> (Fail 401 ''sign in to continue'', d)
   | Some i \<Rightarrow> if \<not> AtLeast (id_role i) least
       then (Fail 403 (''this needs the '' @ least @ '' role; you have '' @ id_role i), d)
       else next r d)"

definition no_identity :: identity where
  "no_identity = \<lparr>id_user = uuid_Nil, id_username = [], id_role = [], id_via = [], id_token = None\<rparr>"

definition currentUser :: "request \<Rightarrow> identity" where
  "currentUser r = (case rq_identity r of None \<Rightarrow> no_identity | Some i \<Rightarrow> i)"

definition userIDOf :: "request \<Rightarrow> uuid option" where
  "userIDOf r = (case rq_identity r of None \<Rightarrow> None | Some i \<Rightarrow> if id_user i = uuid_Nil then None else Some (id_user i))"

definition auditReq :: "request \<Rightarrow> string \<Rightarrow> string \<Rightarrow> db \<Rightarrow> db" where
  "auditReq r action subject d = LogUser (id_user (currentUser r)) (id_username (currentUser r)) action subject d"

definition trim_brackets :: "string \<Rightarrow> string" where
  "trim_brackets s = (let p = (\<lambda>c. c = CHR ''['' \<or> c = CHR '']'') in rev (dropWhile p (rev (dropWhile p s))))"

definition clientIP :: "string \<Rightarrow> request \<Rightarrow> string" where
  "clientIP secret r =
     (if secret \<noteq> [] \<and> rq_forwarded_for r \<noteq> [] then TrimSpace (hd (split_on CHR '','' (rq_forwarded_for r)))
      else let tail = takeWhile (\<lambda>c. c \<noteq> CHR '':'') (rev (rq_remote r));
               i = length (rq_remote r) - length tail - 1
           in trim_brackets (if CHR '':'' \<in> set (rq_remote r) \<and> i > 0 then take i (rq_remote r) else rq_remote r))"

section \<open>Slowing down password guessing\<close>

definition loginWindow :: int where
  "loginWindow = seconds (15 * 60)"

definition loginMaxTries :: nat where
  "loginMaxTries = 10"

text \<open>
  The in-process limiter, the fallback when the database cannot be reached. Its table is kept as an
  association list; \<open>allow\<close> records an attempt per key and says whether all stay within the limit.
\<close>

type_synonym hits = "(string \<times> instant list) list"

definition hits_of :: "hits \<Rightarrow> string \<Rightarrow> instant list" where
  "hits_of m k = (case map_of m k of None \<Rightarrow> [] | Some ts \<Rightarrow> ts)"

definition limiter_note :: "instant \<Rightarrow> string \<Rightarrow> bool \<times> hits \<Rightarrow> bool \<times> hits" where
  "limiter_note now k s = (let kept = filter (\<lambda>t. now - t < loginWindow) (hits_of (snd s) k) @ [now]
     in (fst s \<and> length kept \<le> loginMaxTries, (k, kept) # filter (\<lambda>e. fst e \<noteq> k) (snd s)))"

definition limiter_allow :: "instant \<Rightarrow> string list \<Rightarrow> hits \<Rightarrow> bool \<times> hits" where
  "limiter_allow now keys m = (let (ok, m1) = foldl (\<lambda>s k. limiter_note now k s) (True, m) keys
     in (ok, if length m1 > 4096 then filter (\<lambda>e. snd e \<noteq> [] \<and> now - last (snd e) < loginWindow) m1 else m1))"

definition limiter_succeeded :: "string list \<Rightarrow> hits \<Rightarrow> hits" where
  "limiter_succeeded keys m = filter (\<lambda>e. fst e \<notin> set keys) m"

definition allowLogin :: "string list \<Rightarrow> db \<Rightarrow> bool \<times> db" where
  "allowLogin keys d = (case CountLoginAttempt keys loginWindow d of (n, d1) \<Rightarrow> (n \<le> loginMaxTries, d1))"

definition loginSucceeded :: "string list \<Rightarrow> db \<Rightarrow> db" where
  "loginSucceeded keys d = ClearLoginAttempts keys d"

section \<open>Signing in and out\<close>

text \<open>The answer of a sign-in carries the cookie it sets.\<close>

definition signIn :: "crypto \<Rightarrow> string \<Rightarrow> request \<Rightarrow> app_user \<Rightarrow> db \<Rightarrow> (string \<times> app_user) answer \<times> db" where
  "signIn c secret r u d = (case CreateSession (cr_sha c) (cr_raw c) (us_id u) (rq_agent r) (clientIP secret r) d of
     (Inl e, d1) \<Rightarrow> (Fail 500 e, d1)
   | (Inr s, d1) \<Rightarrow> (Ok (s, u), d1))"

definition username_char :: "char \<Rightarrow> bool" where
  "username_char c \<longleftrightarrow> is_lower_alpha c \<or> is_upper_alpha c \<or> is_digit c \<or> c \<in> {CHR ''.'', CHR ''-'', CHR ''_'', CHR ''@''}"

definition checkUsername :: "string \<Rightarrow> string option" where
  "checkUsername u = (if length u < 2 \<or> length u > 64 then Some ''username must be between 2 and 64 characters''
     else if \<not> list_all username_char u then Some ''username may contain only letters, digits and . - _ @'' else None)"

text \<open>Who inherits the companies made before there were accounts.\<close>

definition AdoptOwnerlessScopes :: "uuid \<Rightarrow> db \<Rightarrow> nat \<times> db" where
  "AdoptOwnerlessScopes owner d = (affected (\<lambda>s. sco_owner s = None) (db_scopes d),
     d\<lparr>db_scopes := update_where (\<lambda>s. sco_owner s = None) (\<lambda>s. s\<lparr>sco_owner := Some owner\<rparr>) (db_scopes d)\<rparr>)"

definition setup_first ::
  "crypto \<Rightarrow> string \<Rightarrow> (string \<times> string \<times> string) option \<Rightarrow> request \<Rightarrow> db \<Rightarrow> (string \<times> app_user) answer \<times> db" where
  "setup_first c secret body r d = (case body of
     None \<Rightarrow> (Fail 400 ''bad body'', d)
   | Some (username0, display, password) \<Rightarrow>
       (let username = TrimSpace username0
        in case checkUsername username of
             Some e \<Rightarrow> (Fail 400 e, d)
           | None \<Rightarrow> (case CheckPasswordPolicy password of
               Some e \<Rightarrow> (Fail 400 e, d)
             | None \<Rightarrow> (case CreateUser (cr_idkey c) (cr_salt c) username display password RoleAdmin None True d of
                 (Inl e, d1) \<Rightarrow> (Fail 409 e, d1)
               | (Inr u, d1) \<Rightarrow> signIn c secret r u
                   (LogUser (us_id u) (us_name u) ''user.setup'' (db_uuid_text d (us_id u)) (snd (AdoptOwnerlessScopes (us_id u) d1)))))))"

definition wrong_password :: string where
  "wrong_password = ''wrong username or password''"

definition login_keys :: "string \<Rightarrow> string \<Rightarrow> string list" where
  "login_keys ip username = [''ip:'' @ ip, ''user:'' @ ToLower username]"

definition login ::
  "crypto \<Rightarrow> string \<Rightarrow> (string \<times> string) option \<Rightarrow> request \<Rightarrow> db \<Rightarrow> (string \<times> app_user) answer \<times> db" where
  "login c secret body r d = (case body of
     None \<Rightarrow> (Fail 400 ''bad body'', d)
   | Some (username0, password) \<Rightarrow>
       (let username = TrimSpace username0;
            keys = login_keys (clientIP secret r) username;
            (ok, d1) = allowLogin keys d
        in if \<not> ok then (Fail 429 ''too many sign-in attempts; wait a few minutes and try again'', d1)
           else case UserByUsername username d1 of
             Inl e \<Rightarrow> (Fail 401 wrong_password, d1)
           | Inr (u, h) \<Rightarrow>
               (if h = [] \<or> VerifyPassword (cr_idkey c) h password \<noteq> Some True then (Fail 401 wrong_password, d1)
                else if us_disabled u then (Fail 403 ''this account is disabled'', d1)
                else signIn c secret r u
                  (LogUser (us_id u) (us_name u) ''user.login'' (db_uuid_text d (us_id u)) (TouchLogin (us_id u) (loginSucceeded keys d1))))))"

definition logout :: "crypto \<Rightarrow> request \<Rightarrow> db \<Rightarrow> bool answer \<times> db" where
  "logout c r d = (Ok True, if rq_cookie r \<noteq> [] then DeleteSession (cr_sha c) (rq_cookie r) d else d)"

definition authStatus :: "crypto \<Rightarrow> string \<Rightarrow> request \<Rightarrow> db \<Rightarrow> (bool \<times> identity option) answer \<times> db" where
  "authStatus c secret r d = (case authenticate c secret r d of (i, d1) \<Rightarrow> (Ok (CountUsers d = 0, i), d1))"

definition me :: "request \<Rightarrow> db \<Rightarrow> app_user answer \<times> db" where
  "me r d = (case GetUser (id_user (currentUser r)) d of Inl e \<Rightarrow> (Fail 404 ''user not found'', d) | Inr u \<Rightarrow> (Ok u, d))"

definition changePassword ::
  "crypto \<Rightarrow> string \<Rightarrow> (string \<times> string) option \<Rightarrow> request \<Rightarrow> db \<Rightarrow> (string \<times> app_user) answer \<times> db" where
  "changePassword c secret body r d = (case body of
     None \<Rightarrow> (Fail 400 ''bad body'', d)
   | Some (current, new) \<Rightarrow> (case UserByUsername (id_username (currentUser r)) d of
       Inl e \<Rightarrow> (Fail 400 ''this account has no password to change'', d)
     | Inr (u, h) \<Rightarrow>
         (if h = [] then (Fail 400 ''this account has no password to change'', d)
          else if VerifyPassword (cr_idkey c) h current \<noteq> Some True then (Fail 401 ''current password is wrong'', d)
          else case CheckPasswordPolicy new of
            Some e \<Rightarrow> (Fail 400 e, d)
          | None \<Rightarrow> signIn c secret r u (LogUser (us_id u) (us_name u) ''user.password_change'' (db_uuid_text d (us_id u))
              (DeleteUserSessions (us_id u) (SetPassword (cr_idkey c) (cr_salt c) (us_id u) new d))))))"

section \<open>User administration\<close>

definition listUsers :: "db \<Rightarrow> app_user list answer \<times> db" where
  "listUsers d = (Ok (ListUsers d), d)"

definition createUser ::
  "crypto \<Rightarrow> (string \<times> string \<times> string \<times> string) option \<Rightarrow> request \<Rightarrow> db \<Rightarrow> app_user answer \<times> db" where
  "createUser c body r d = (case body of
     None \<Rightarrow> (Fail 400 ''bad body'', d)
   | Some (username0, display, password, role) \<Rightarrow>
       (let username = TrimSpace username0
        in case checkUsername username of
             Some e \<Rightarrow> (Fail 400 e, d)
           | None \<Rightarrow>
               (if \<not> Valid role then (Fail 400 ''role must be admin, operator or viewer'', d)
                else case (if password = [] then None else CheckPasswordPolicy password) of
                  Some e \<Rightarrow> (Fail 400 e, d)
                | None \<Rightarrow> (case CreateUser (cr_idkey c) (cr_salt c) username display password role (Some (id_user (currentUser r))) False d of
                    (Inl e, d1) \<Rightarrow> (Fail (if e = ErrUsernameTaken then 409 else 500) e, d1)
                  | (Inr u, d1) \<Rightarrow> (Ok u, auditReq r ''user.create'' (db_uuid_text d (us_id u)) d1)))))"

text \<open>The body of a change to an account; what is absent stays as it is.\<close>

record user_patch =
  up_username :: "string option"
  up_display :: "string option"
  up_role :: "string option"
  up_disabled :: "bool option"
  up_password :: "string option"

definition only_administrator :: string where
  "only_administrator = ''this is the only administrator; promote someone else first''"

text \<open>An enabled administrator that is the last one.\<close>

definition last_admin :: "uuid \<Rightarrow> db \<Rightarrow> bool" where
  "last_admin i d = (case GetUser i d of
     Inl e \<Rightarrow> False
   | Inr u \<Rightarrow> us_role u = RoleAdmin \<and> \<not> us_disabled u \<and> CountAdmins i d = 0)"

definition patchUser :: "crypto \<Rightarrow> uuid option \<Rightarrow> user_patch option \<Rightarrow> request \<Rightarrow> db \<Rightarrow> app_user answer \<times> db" where
  "patchUser c ident body r d = (case ident of
     None \<Rightarrow> (Fail 400 ''bad user id'', d)
   | Some i \<Rightarrow> (case body of
       None \<Rightarrow> (Fail 400 ''bad body'', d)
     | Some b \<Rightarrow>
         (let username = map_option TrimSpace (up_username b);
              losingAdmin = (case up_role b of Some v \<Rightarrow> v \<noteq> RoleAdmin | None \<Rightarrow> False) \<or> up_disabled b = Some True
          in case (case username of None \<Rightarrow> None | Some v \<Rightarrow> checkUsername v) of
               Some e \<Rightarrow> (Fail 400 e, d)
             | None \<Rightarrow>
                 (if (case up_role b of None \<Rightarrow> False | Some v \<Rightarrow> \<not> Valid v) then (Fail 400 ''role must be admin, operator or viewer'', d)
                  else if losingAdmin \<and> last_admin i d then (Fail 409 only_administrator, d)
                  else case (case up_password b of None \<Rightarrow> None | Some p \<Rightarrow> CheckPasswordPolicy p) of
                    Some e \<Rightarrow> (Fail 400 e, d)
                  | None \<Rightarrow>
                      (let d1 = (case up_password b of None \<Rightarrow> d
                           | Some p \<Rightarrow> DeleteUserSessions i (SetPassword (cr_idkey c) (cr_salt c) i p d))
                       in case UpdateUser i username (up_display b) (up_role b) (up_disabled b) d1 of
                            (Inl e, d2) \<Rightarrow> (if e = ErrUsernameTaken then Fail 409 e else Fail 404 ''user not found'', d2)
                          | (Inr u, d2) \<Rightarrow> (Ok u, auditReq r ''user.update'' (db_uuid_text d i) d2))))))"

definition deleteUser :: "uuid option \<Rightarrow> request \<Rightarrow> db \<Rightarrow> bool answer \<times> db" where
  "deleteUser ident r d = (case ident of
     None \<Rightarrow> (Fail 400 ''bad user id'', d)
   | Some i \<Rightarrow>
       (if i = id_user (currentUser r) then (Fail 409 ''you cannot delete your own account'', d)
        else if last_admin i d then (Fail 409 only_administrator, d)
        else case DeleteUser i d of
          (ok, d1) \<Rightarrow> if ok then (Ok True, auditReq r ''user.delete'' (db_uuid_text d i) d1) else (Fail 404 ''user not found'', d1)))"

section \<open>API tokens\<close>

definition listTokens :: "request \<Rightarrow> db \<Rightarrow> api_token list answer \<times> db" where
  "listTokens r d = (Ok (ListAPITokens (if AtLeast (id_role (currentUser r)) RoleAdmin then None else Some (id_user (currentUser r))) d), d)"

text \<open>A \<^verbatim>\<open>time.Duration\<close> of that many nanoseconds, a signed 64-bit count, in microseconds.\<close>

definition nanoseconds :: "int \<Rightarrow> int" where
  "nanoseconds n = signed_take_bit 63 n div 1000"

definition createToken ::
  "crypto \<Rightarrow> (string \<times> string \<times> int) option \<Rightarrow> request \<Rightarrow> db \<Rightarrow> (api_token \<times> string) answer \<times> db" where
  "createToken c body r d = (case body of
     None \<Rightarrow> (Fail 400 ''bad body'', d)
   | Some (name, role0, ttlDays) \<Rightarrow>
       (if TrimSpace name = [] then (Fail 400 ''give the token a name, so it can be recognised later'', d)
        else let role = (if role0 = [] then id_role (currentUser r) else role0);
                 ttl = (if ttlDays > 0 then nanoseconds (24 * 3600 * 1000000000 * ttlDays) else 0)
             in case CreateAPIToken (cr_sha c) (cr_raw c) (id_user (currentUser r)) name role (id_role (currentUser r)) ttl d of
                  (Inl e, d1) \<Rightarrow> (Fail 400 e, d1)
                | (Inr (t, s), d1) \<Rightarrow> (Ok (t, s), auditReq r ''token.create'' (db_uuid_text d (at_id t)) d1)))"

definition revokeToken :: "uuid option \<Rightarrow> request \<Rightarrow> db \<Rightarrow> bool answer \<times> db" where
  "revokeToken ident r d = (case ident of
     None \<Rightarrow> (Fail 400 ''bad token id'', d)
   | Some i \<Rightarrow> (case RevokeAPIToken i (if AtLeast (id_role (currentUser r)) RoleAdmin then None else Some (id_user (currentUser r))) d of
       (ok, d1) \<Rightarrow> if ok then (Ok True, auditReq r ''token.revoke'' (db_uuid_text d i) d1)
                   else (Fail 404 ''token not found, or already revoked'', d1)))"

end
