(* ===== verification/AuthProps.thy ===== *)
theory AuthProps
  imports AuthHttp
begin

text \<open>
  What the account API guarantees. The states it can reach are those of \<open>account_step\<close>: one request
  of an account route behind its middleware, the boot of the server, or anything else the program
  does, which does not write the accounts table.
\<close>

section \<open>What a request leaves of the accounts\<close>

definition standing :: "app_user \<Rightarrow> uuid \<times> string \<times> string \<times> bool" where
  "standing u = (us_id u, us_name u, us_role u, us_disabled u)"

definition kept :: "db \<Rightarrow> db \<Rightarrow> bool" where
  "kept d d' \<longleftrightarrow> db_uuid d' = db_uuid d \<and> db_drawn d \<le> db_drawn d' \<and> map standing (users d') = map standing (users d)"

definition enabled_admin :: "app_user \<Rightarrow> bool" where
  "enabled_admin u \<longleftrightarrow> us_role u = RoleAdmin \<and> \<not> us_disabled u"

definition accounts_ok :: "db \<Rightarrow> bool" where
  "accounts_ok d \<longleftrightarrow> uuids_fresh d \<and> us_id ` set (users d) \<subseteq> used_ids d \<and> distinct (map us_id (users d)) \<and>
     distinct (map (\<lambda>u. ToLower (us_name u)) (users d)) \<and> list_all (\<lambda>u. Valid (us_role u)) (users d) \<and> list_ex enabled_admin (users d)"

lemma set_accounts_sel [simp]:
  "db_accounts (set_accounts f d) = f (db_accounts d)" "db_uuid (set_accounts f d) = db_uuid d"
  "db_drawn (set_accounts f d) = db_drawn d" "db_now (set_accounts f d) = db_now d"
  by (simp_all add: set_accounts_def)

lemma ids_set_accounts [simp]: "used_ids (set_accounts f d) = used_ids d" "uuids_fresh (set_accounts f d) = uuids_fresh d"
  by (simp_all add: used_ids_def uuids_fresh_def)

lemma fresh_drawn [simp]: "uuids_fresh (drawn d) = uuids_fresh d"
  by (simp add: uuids_fresh_def)

lemma kept_refl [simp]: "kept d d"
  by (simp add: kept_def)

lemma kept_trans: "kept a b \<Longrightarrow> kept b c \<Longrightarrow> kept a c"
  unfolding kept_def by simp

lemma kept_users: "users d' = users d \<Longrightarrow> db_uuid d' = db_uuid d \<Longrightarrow> db_drawn d \<le> db_drawn d' \<Longrightarrow> kept d d'"
  by (simp add: kept_def)

lemma used_mono: "db_uuid d' = db_uuid d \<Longrightarrow> db_drawn d \<le> db_drawn d' \<Longrightarrow> used_ids d \<subseteq> used_ids d'"
  by (auto simp: used_ids_def)

lemma standing_maps:
  "map us_id us = map fst (map standing us)"
  "map (\<lambda>u. ToLower (us_name u)) us = map (ToLower \<circ> fst \<circ> snd) (map standing us)"
  "list_all (\<lambda>u. Valid (us_role u)) us = list_all (Valid \<circ> fst \<circ> snd \<circ> snd) (map standing us)"
  "list_ex enabled_admin us = list_ex (\<lambda>s. fst (snd (snd s)) = RoleAdmin \<and> \<not> snd (snd (snd s))) (map standing us)"
  "us_id ` set us = fst ` set (map standing us)"
  by (simp_all add: standing_def comp_def list_all_iff list_ex_iff enabled_admin_def image_image)

lemma kept_ok:
  assumes "kept d d'" and "accounts_ok d"
  shows "accounts_ok d'"
proof -
  have "used_ids d \<subseteq> used_ids d'" using assms(1) by (intro used_mono) (simp_all add: kept_def)
  moreover have "map standing (users d') = map standing (users d)" "uuids_fresh d' = uuids_fresh d"
    using assms(1) by (simp_all add: kept_def uuids_fresh_def)
  ultimately show ?thesis
    using assms(2) unfolding accounts_ok_def standing_maps by (metis subset_trans)
qed

lemma update_standing:
  "(\<And>u. standing (f u) = standing u) \<Longrightarrow> map standing (update_where p f us) = map standing us"
  by (simp add: update_where_def)

lemma kept_LookupSession: "kept d (snd (LookupSession sha s d))"
  by (auto simp: LookupSession_def Let_def intro: kept_users split: option.split)

lemma kept_LookupAPIToken: "kept d (snd (LookupAPIToken sha s d))"
  by (auto simp: LookupAPIToken_def intro: kept_users split: option.split)

lemma kept_CreateSession: "kept d (snd (CreateSession sha raw u ua ip d))"
  by (auto simp: CreateSession_def Let_def intro: kept_users split: prod.split)

lemma kept_small:
  "kept d (DeleteSession sha s d)" "kept d (DeleteUserSessions i d)" "kept d (snd (CountLoginAttempt ks w d))"
  "kept d (ClearLoginAttempts ks d)" "kept d (audit_write u a x y d)" "kept d (LogUser i a x y d)" "kept d (auditReq r x y d)"
  "kept d (snd (AdoptOwnerlessScopes i d))" "kept d (snd (RevokeAPIToken i u d))"
  by (simp_all add: kept_def DeleteSession_def DeleteUserSessions_def CountLoginAttempt_def ClearLoginAttempts_def audit_write_def
      LogUser_def auditReq_def AdoptOwnerlessScopes_def RevokeAPIToken_def)

lemma kept_CreateAPIToken: "kept d (snd (CreateAPIToken sha raw u n role own ttl d))"
  by (auto simp: CreateAPIToken_def Let_def intro!: kept_users)

lemma kept_TouchLogin: "kept d (TouchLogin i d)"
  by (simp add: kept_def TouchLogin_def update_standing standing_def)

lemma kept_SetPassword: "kept d (SetPassword k salt i p d)"
  by (simp add: kept_def SetPassword_def update_standing standing_def)

section \<open>Accounts as a guarded system\<close>

inductive account_step :: "db \<Rightarrow> db \<Rightarrow> bool" where
  boot: "account_step d (snd (EnsureDefaultAdmin k salt name pw d))"
| status: "account_step d (snd (authStatus c secret r d))"
| setup_first: "account_step d (snd (setup_first c secret body r d))"
| login: "account_step d (snd (login c secret body r d))"
| logout: "account_step d (snd (requireAuth c secret (logout c) r d))"
| changePassword: "account_step d (snd (requireAuth c secret (changePassword c secret pws) r d))"
| createUser: "account_step d (snd (requireAuth c secret (require RoleAdmin (createUser c new)) r d))"
| patchUser: "account_step d (snd (requireAuth c secret (require RoleAdmin (patchUser c i patch)) r d))"
| deleteUser: "account_step d (snd (requireAuth c secret (require RoleAdmin (deleteUser i)) r d))"
| createToken: "account_step d (snd (requireAuth c secret (require RoleViewer (createToken c token)) r d))"
| revokeToken: "account_step d (snd (requireAuth c secret (require RoleViewer (revokeToken i)) r d))"
| elsewhere: "users d' = users d \<Longrightarrow> db_uuid d' = db_uuid d \<Longrightarrow> db_drawn d \<le> db_drawn d' \<Longrightarrow> account_step d d'"

lemma kept_authenticate: "kept d (snd (authenticate c secret r d))"
proof -
  let ?p1 = "if rq_cookie r \<noteq> [] then LookupSession (cr_sha c) (rq_cookie r) d else (None, d)"
  let ?tok = "BearerToken (rq_authorization r) (rq_api_token r)"
  let ?p2 = "if ?tok \<noteq> [] then LookupAPIToken (cr_sha c) ?tok (snd ?p1) else (None, snd ?p1)"
  have "kept d (snd ?p1)" by (simp add: kept_LookupSession)
  moreover from this have "kept d (snd ?p2)" by (auto intro: kept_trans kept_LookupAPIToken)
  moreover have "snd (authenticate c secret r d) \<in> {snd ?p1, snd ?p2}"
    by (auto simp: authenticate_def Let_def split: prod.split option.split sum.split)
  ultimately show ?thesis by auto
qed

lemma requireAuth_ok:
  assumes "accounts_ok d" and "\<And>r d. accounts_ok d \<Longrightarrow> accounts_ok (snd (next r d))"
  shows "accounts_ok (snd (requireAuth c secret next r d))"
  using kept_ok [OF kept_authenticate assms(1), of c secret r] assms(2)
  by (auto simp: requireAuth_def split: prod.split option.split)

lemma require_ok:
  assumes "accounts_ok d" and "\<And>r d. accounts_ok d \<Longrightarrow> accounts_ok (snd (next r d))"
  shows "accounts_ok (snd (require least next r d))"
  using assms by (simp add: require_def split: option.split)

lemma CreateUser_ok:
  assumes "accounts_ok d"
  shows "accounts_ok (snd (CreateUser k salt name display pw role maker once d))"
proof -
  let ?u = "new_user name display (if pw = [] then None else Some (HashPassword k salt pw)) role maker d"
  have "accounts_ok (set_accounts (ac_users_update (\<lambda>us. us @ [?u])) (drawn d))"
    if "Valid role" "\<not> username_taken name (users d)"
    using assms that fresh_unused [of d] by (auto simp: accounts_ok_def new_user_def username_taken_def used_drawn)
  then show ?thesis using assms by (auto simp: CreateUser_def Let_def)
qed

lemma find_id:
  "distinct (map us_id us) \<Longrightarrow> find (\<lambda>u. us_id u = i) us = Some u \<longleftrightarrow> u \<in> set us \<and> us_id u = i"
  by (induction us) auto

text \<open>
  An enabled administrator that is not the last one leaves another behind, and an account that is
  not an enabled administrator is not missed.
\<close>

lemma other_admin:
  assumes "accounts_ok d" and "\<not> last_admin i d"
  shows "\<exists>u \<in> set (users d). us_id u \<noteq> i \<and> enabled_admin u"
proof -
  obtain a where a: "a \<in> set (users d)" "enabled_admin a" using assms(1) by (auto simp: accounts_ok_def list_ex_iff)
  show ?thesis
  proof (cases "us_id a = i")
    case True
    then have "find (\<lambda>u. us_id u = i) (users d) = Some a" using assms(1) a by (simp add: find_id accounts_ok_def)
    then have "GetUser i d = Inr a" by (simp add: GetUser_def)
    then have "0 < CountAdmins i d" using assms(2) a by (simp add: last_admin_def enabled_admin_def)
    then show ?thesis by (auto simp: CountAdmins_def affected_pos enabled_admin_def)
  qed (use a in blast)
qed

lemma DeleteUser_ok:
  assumes "accounts_ok d" and "\<not> last_admin i d"
  shows "accounts_ok (snd (DeleteUser i d))"
proof -
  let ?d = "snd (DeleteUser i d)" and ?us = "filter (\<lambda>u. us_id u \<noteq> i) (users d)"
  have st: "map standing (users ?d) = map standing ?us"
    by (simp add: DeleteUser_def Let_def delete_vpns_def standing_def comp_def)
  have ids: "used_ids ?d = used_ids d" "uuids_fresh ?d = uuids_fresh d"
    by (simp_all add: DeleteUser_def Let_def delete_vpns_def used_ids_def uuids_fresh_def)
  have "list_ex enabled_admin ?us" using other_admin [OF assms] by (auto simp: list_ex_iff)
  moreover have "distinct (map us_id ?us)" "distinct (map (\<lambda>u. ToLower (us_name u)) ?us)" "list_all (\<lambda>u. Valid (us_role u)) ?us"
    "us_id ` set ?us \<subseteq> used_ids d" "uuids_fresh d"
    using assms(1) by (auto simp: accounts_ok_def distinct_map_filter list_all_iff)
  ultimately show ?thesis
    unfolding accounts_ok_def ids standing_maps st by simp
qed

lemma rename_distinct:
  assumes "distinct (map (\<lambda>u. ToLower (us_name u)) us)" and "distinct (map us_id us)"
    and "\<And>u. u \<in> set us \<Longrightarrow> us_id u = i \<Longrightarrow>
      ToLower (us_name (f u)) \<notin> (\<lambda>u. ToLower (us_name u)) ` set (filter (\<lambda>x. us_id x \<noteq> i) us)"
  shows "distinct (map (\<lambda>u. ToLower (us_name u)) (update_where (\<lambda>x. us_id x = i) f us))"
  using assms
proof (induction us)
  case Nil
  show ?case by (simp add: update_where_def)
next
  case (Cons a us)
  show ?case
  proof (cases "us_id a = i")
    case True
    then have "\<not> (\<exists>x \<in> set us. us_id x = i)" using Cons.prems(2) by simp (metis image_eqI)
    moreover from this have "filter (\<lambda>x. us_id x \<noteq> i) us = us" by (auto simp: filter_id_conv)
    ultimately show ?thesis
      using Cons.prems(1) Cons.prems(3) [of a] True update_where_none [of us "\<lambda>x. us_id x = i" f] by (simp add: update_where_def)
  next
    case False
    have "distinct (map (\<lambda>u. ToLower (us_name u)) (update_where (\<lambda>x. us_id x = i) f us))"
      using Cons False by (intro Cons.IH) auto
    moreover have "ToLower (us_name a) \<noteq> ToLower (us_name x)" if "x \<in> set (update_where (\<lambda>x. us_id x = i) f us)" for x
    proof -
      from that obtain y where y: "y \<in> set us" "x = (if us_id y = i then f y else y)" by (auto simp: set_update_where)
      show ?thesis
      proof (cases "us_id y = i")
        case True
        then show ?thesis using Cons.prems(3) [of y] y False by auto
      qed (use Cons.prems(1) y in auto)
    qed
    moreover have "update_where (\<lambda>x. us_id x = i) f (a # us) = a # update_where (\<lambda>x. us_id x = i) f us"
      using False by (simp add: update_where_def)
    ultimately show ?thesis by auto
  qed
qed

lemma UpdateUser_ok:
  assumes ok: "accounts_ok d"
    and stays: "(case role of Some v \<Rightarrow> v \<noteq> RoleAdmin | None \<Rightarrow> False) \<or> disabled = Some True \<Longrightarrow> \<not> last_admin i d"
  shows "accounts_ok (snd (UpdateUser i name display role disabled d))"
proof (cases "find (\<lambda>u. us_id u = i) (users d)")
  case None
  then show ?thesis using ok by (simp add: UpdateUser_def)
next
  case (Some u)
  let ?f = "update_user_row name display role disabled"
  let ?us = "update_where (\<lambda>x. us_id x = i) ?f (users d)"
  let ?d = "set_accounts (ac_users_update (update_where (\<lambda>x. us_id x = i) ?f)) d"
  have u: "u \<in> set (users d)" "us_id u = i" and dist: "distinct (map us_id (users d))"
    using Some ok by (auto simp: find_id accounts_ok_def)
  have "accounts_ok ?d" if new: "Valid (us_role (?f u))" "\<not> username_taken (us_name (?f u)) (filter (\<lambda>x. us_id x \<noteq> i) (users d))"
  proof -
    have only: "x = u" if "x \<in> set (users d)" "us_id x = i" for x
      using that u dist by (metis distinct_key_unique)
    have ids: "map us_id ?us = map us_id (users d)" by (simp add: update_where_def update_user_row_def)
    have "list_all (\<lambda>u. Valid (us_role u)) ?us"
      using ok new(1) only by (auto simp: accounts_ok_def list_all_iff set_update_where)
    moreover have "list_ex enabled_admin ?us"
    proof (cases "(case role of Some v \<Rightarrow> v \<noteq> RoleAdmin | None \<Rightarrow> False) \<or> disabled = Some True")
      case True
      from other_admin [OF ok stays [OF this]] show ?thesis by (auto simp: list_ex_iff set_update_where)
    next
      case False
      then have "enabled_admin (?f x)" if "enabled_admin x" for x
        using that by (cases role; cases disabled) (simp_all add: enabled_admin_def update_user_row_def coalesce_def)
      moreover obtain a where "a \<in> set (users d)" "enabled_admin a" using ok by (auto simp: accounts_ok_def list_ex_iff)
      ultimately show ?thesis unfolding list_ex_iff set_update_where by (intro bexI [of _ "if us_id a = i then ?f a else a"]) auto
    qed
    moreover have "distinct (map (\<lambda>u. ToLower (us_name u)) ?us)"
    proof (rule rename_distinct)
      fix x assume "x \<in> set (users d)" "us_id x = i"
      then have "x = u" by (rule only)
      then show "ToLower (us_name (?f x)) \<notin> (\<lambda>u. ToLower (us_name u)) ` set (filter (\<lambda>x. us_id x \<noteq> i) (users d))"
        using new(2) unfolding username_taken_def by blast
    qed (use ok in \<open>simp_all add: accounts_ok_def\<close>)
    ultimately show ?thesis using ok ids by (simp add: accounts_ok_def) (metis image_set)
  qed
  then show ?thesis using Some ok kept_ok [OF kept_small(2)] by (auto simp: UpdateUser_def Let_def)
qed

lemma signIn_ok: "accounts_ok d \<Longrightarrow> accounts_ok (snd (signIn c secret r u d))"
  using kept_ok [OF kept_CreateSession, of d "cr_sha c" "cr_raw c" "us_id u" "rq_agent r" "clientIP secret r"]
  by (auto simp: signIn_def split: prod.split sum.split)

lemmas kept_oks = kept_ok [OF kept_small(1)] kept_ok [OF kept_small(2)] kept_ok [OF kept_small(3)] kept_ok [OF kept_small(4)]
  kept_ok [OF kept_small(6)] kept_ok [OF kept_small(7)] kept_ok [OF kept_small(8)] kept_ok [OF kept_small(9)]
  kept_ok [OF kept_TouchLogin] kept_ok [OF kept_SetPassword]

lemma login_ok:
  assumes "accounts_ok d"
  shows "accounts_ok (snd (login c secret body r d))"
proof -
  have "accounts_ok (snd (allowLogin ks d))" for ks
    using kept_ok [OF kept_small(3) assms, of ks loginWindow] by (simp add: allowLogin_def case_prod_beta)
  then show ?thesis
    using assms by (auto simp: login_def Let_def loginSucceeded_def case_prod_beta intro!: signIn_ok kept_oks split: option.split sum.split)
qed

lemma setup_ok:
  assumes "accounts_ok d"
  shows "accounts_ok (snd (setup_first c secret body r d))"
proof -
  have "users d \<noteq> []" using assms by (auto simp: accounts_ok_def)
  then have "CreateUser k salt n dn pw role maker True d = (Inl account_exists, d)" for k salt n dn pw role maker
    by (simp add: CreateUser_def Let_def)
  then show ?thesis using assms by (auto simp: setup_first_def Let_def split: option.split)
qed

lemma changePassword_ok: "accounts_ok d \<Longrightarrow> accounts_ok (snd (changePassword c secret body r d))"
  by (auto simp: changePassword_def intro!: signIn_ok kept_oks split: option.split sum.split)

lemma createUser_ok:
  assumes "accounts_ok d"
  shows "accounts_ok (snd (createUser c body r d))"
proof -
  have "accounts_ok d1" if "CreateUser k salt n dn pw role maker once d = (x, d1)" for k salt n dn pw role maker once x d1
    using CreateUser_ok [OF assms] that by (metis snd_conv)
  then show ?thesis
    using assms by (auto simp: createUser_def Let_def intro!: kept_oks split: option.split prod.split sum.split)
qed

lemma last_admin_password: "last_admin i (DeleteUserSessions j (SetPassword k salt j p d)) = last_admin i d"
proof -
  define f :: "app_user \<Rightarrow> app_user" where "f = (\<lambda>u. if us_id u = j then u\<lparr>us_hash := Some (HashPassword k salt p), us_must_change := False\<rparr> else u)"
  have f: "us_id (f u) = us_id u" "us_role (f u) = us_role u" "us_disabled (f u) = us_disabled u" for u
    by (simp_all add: f_def)
  have us: "users (DeleteUserSessions j (SetPassword k salt j p d)) = map f (users d)"
    by (simp add: DeleteUserSessions_def SetPassword_def update_where_def f_def)
  have "find (\<lambda>u. us_id u = i) (map f us) = map_option f (find (\<lambda>u. us_id u = i) us)" for us
    by (induction us) (auto simp: f)
  moreover have "affected (\<lambda>u. us_role u = RoleAdmin \<and> \<not> us_disabled u \<and> us_id u \<noteq> i) (map f us) =
      affected (\<lambda>u. us_role u = RoleAdmin \<and> \<not> us_disabled u \<and> us_id u \<noteq> i) us" for us
    by (induction us) (auto simp: affected_def f)
  ultimately show ?thesis
    by (auto simp: last_admin_def GetUser_def CountAdmins_def us f split: option.split)
qed

lemma patchUser_ok:
  assumes "accounts_ok d"
  shows "accounts_ok (snd (patchUser c ident body r d))"
proof (cases "\<exists>i b. ident = Some i \<and> body = Some b")
  case False
  then show ?thesis using assms by (auto simp: patchUser_def split: option.split)
next
  case True
  then obtain i b where ib: "ident = Some i" "body = Some b" by blast
  define d1 where "d1 = (case up_password b of None \<Rightarrow> d | Some p \<Rightarrow> DeleteUserSessions i (SetPassword (cr_idkey c) (cr_salt c) i p d))"
  define loses where "loses = ((case up_role b of Some v \<Rightarrow> v \<noteq> RoleAdmin | None \<Rightarrow> False) \<or> up_disabled b = Some True)"
  let ?upd = "UpdateUser i (map_option TrimSpace (up_username b)) (up_display b) (up_role b) (up_disabled b) d1"
  have "accounts_ok d1" using assms by (auto simp: d1_def intro!: kept_oks split: option.split)
  moreover have "last_admin i d1 = last_admin i d" by (simp add: d1_def last_admin_password split: option.split)
  ultimately have upd: "accounts_ok (snd ?upd)" if "\<not> (loses \<and> last_admin i d)"
    using that by (intro UpdateUser_ok) (auto simp: loses_def)
  have "snd (patchUser c ident body r d) = d \<or> \<not> (loses \<and> last_admin i d) \<and>
      (snd (patchUser c ident body r d) = snd ?upd \<or> snd (patchUser c ident body r d) = auditReq r ''user.update'' (db_uuid_text d i) (snd ?upd))"
    unfolding patchUser_def Let_def ib option.case loses_def [symmetric] d1_def [symmetric]
    by (simp split: option.split prod.split sum.split)
  then show ?thesis using assms upd kept_oks by auto
qed

lemma deleteUser_ok:
  assumes "accounts_ok d"
  shows "accounts_ok (snd (deleteUser ident r d))"
proof -
  have "accounts_ok d1" if "DeleteUser i d = (x, d1)" "\<not> last_admin i d" for i x d1
    using DeleteUser_ok [OF assms that(2)] that(1) by simp
  then show ?thesis using assms by (auto simp: deleteUser_def intro!: kept_oks split: option.split prod.split)
qed

lemma tokens_ok:
  assumes "accounts_ok d"
  shows "accounts_ok (snd (createToken c body r d))" and "accounts_ok (snd (revokeToken ident r d))"
proof -
  have "accounts_ok d1" if "CreateAPIToken sha raw u n role own ttl d = (x, d1)" for sha raw u n role own ttl x d1
    using kept_ok [OF kept_CreateAPIToken assms] that by (metis snd_conv)
  then show "accounts_ok (snd (createToken c body r d))"
    using assms by (auto simp: createToken_def Let_def intro!: kept_oks split: option.split prod.split sum.split)
  have "accounts_ok d1" if "RevokeAPIToken i u d = (x, d1)" for i u x d1
    using kept_ok [OF kept_small(9) assms] that by (metis snd_conv)
  then show "accounts_ok (snd (revokeToken ident r d))"
    using assms by (auto simp: revokeToken_def intro!: kept_oks split: option.split prod.split)
qed

lemma account_step_ok: "account_step d d' \<Longrightarrow> accounts_ok d \<Longrightarrow> accounts_ok d'"
proof (induction rule: account_step.induct)
  case (boot d k salt name pw)
  then show ?case
    using CreateUser_ok [of d k salt name "''Administrator''" pw RoleAdmin None True]
    by (auto simp: EnsureDefaultAdmin_def split: prod.split sum.split)
next
  case (status d c secret r)
  then show ?case using kept_ok [OF kept_authenticate] by (simp add: authStatus_def case_prod_beta)
next
  case (logout d c secret r)
  then show ?case by (intro requireAuth_ok) (auto simp: logout_def intro: kept_oks)
next
  case (elsewhere d' d)
  then show ?case by (metis kept_ok kept_users)
qed (auto intro!: requireAuth_ok require_ok setup_ok login_ok changePassword_ok createUser_ok patchUser_ok deleteUser_ok tokens_ok)

interpretation accounts: guarded_system account_step accounts_ok
  by unfold_locales (rule account_step_ok)

text \<open>A company with two administrators, the second of which has an API token.\<close>

definition plain_idkey :: idkey where
  "plain_idkey = (\<lambda>pw salt t m p n. take n (pw @ salt @ replicate n CHR ''x''))"

definition toy_crypto :: crypto where
  "toy_crypto = \<lparr>cr_idkey = plain_idkey, cr_sha = rev, cr_salt = ''0123456789abcdef'', cr_raw = ''abcdefghijklmnopqrstuvwxyz012345''\<rparr>"

definition root_request :: request where
  "root_request = \<lparr>rq_cookie = [], rq_authorization = [], rq_api_token = [], rq_proxy_secret = [], rq_forwarded_user = [],
     rq_forwarded_for = [], rq_remote = ''10.0.0.1:5555'', rq_agent = [],
     rq_identity = Some \<lparr>id_user = 1000, id_username = ''root'', id_role = RoleAdmin, id_via = ''session'', id_token = None\<rparr>\<rparr>"

definition one_admin_db :: db where
  "one_admin_db = snd (CreateUser plain_idkey (cr_salt toy_crypto) ''root'' [] ''correct horse'' RoleAdmin None True empty_db)"

definition two_admins_db :: db where
  "two_admins_db = snd (createUser toy_crypto (Some (''ann'', [], ''battery staple'', RoleAdmin)) root_request one_admin_db)"

definition demote :: user_patch where
  "demote = \<lparr>up_username = None, up_display = None, up_role = Some RoleViewer, up_disabled = None, up_password = None\<rparr>"

lemma sample_ok: "accounts_ok one_admin_db" "accounts_ok two_admins_db"
proof -
  show one: "accounts_ok one_admin_db"
  proof -
    have "inj (\<lambda>n::nat. n + 1000)" by (simp add: inj_def)
    moreover have "db_uuid one_admin_db = (\<lambda>n. n + 1000)" "db_drawn one_admin_db = 1"
      by (simp_all add: one_admin_db_def CreateUser_def Let_def username_taken_def Valid_def rank_def dangling_def empty_db_def no_accounts_def)
    moreover have "map standing (users one_admin_db) = [(1000, ''root'', RoleAdmin, False)]" by code_simp
    ultimately show ?thesis unfolding accounts_ok_def standing_maps by (simp add: uuids_fresh_def used_ids_def Valid_def rank_def)
  qed
  show "accounts_ok two_admins_db" unfolding two_admins_db_def by (rule createUser_ok [OF one])
qed

text \<open>
  C23: The way in is never lost. However the account API is used, and whatever else the program does,
  identifiers and usernames (without regard to case) stay unique, every account has one of the
  three roles, and an administrator that is not disabled remains: demoting, disabling or deleting
  the last one is refused, and no other request reaches the accounts table.
\<close>

theorem admin_remains:
  assumes "account_step\<^sup>*\<^sup>* d d'" and "accounts_ok d"
  shows "list_ex enabled_admin (users d') \<and> distinct (map us_id (users d')) \<and>
    distinct (map (\<lambda>u. ToLower (us_name u)) (users d')) \<and> list_all (\<lambda>u. Valid (us_role u)) (users d')"
  using accounts.run_inv [OF assms] by (simp add: accounts_ok_def)

theorem admin_remains_witness:
  "map us_name (filter enabled_admin (users two_admins_db)) = [''root'', ''ann''] \<and>
   list_ex enabled_admin (users (snd (requireAuth toy_crypto [] (require RoleAdmin (patchUser toy_crypto (Some 1001) (Some demote))) root_request two_admins_db)))"
proof -
  have "account_step\<^sup>*\<^sup>* two_admins_db
      (snd (requireAuth toy_crypto [] (require RoleAdmin (patchUser toy_crypto (Some 1001) (Some demote))) root_request two_admins_db))"
    by (rule r_into_rtranclp) (rule account_step.patchUser)
  from admin_remains [OF this sample_ok(2)] have "list_ex enabled_admin (users (snd (requireAuth toy_crypto []
      (require RoleAdmin (patchUser toy_crypto (Some 1001) (Some demote))) root_request two_admins_db)))" by simp
  moreover have "map us_name (filter enabled_admin (users two_admins_db)) = [''root'', ''ann'']" by code_simp
  ultimately show ?thesis by simp
qed

section \<open>A token outlives the role it was given for\<close>

lemma find_product_map:
  assumes "\<And>t u. P (t, f u) = P (t, u)"
  shows "find P (List.product ts (map f us)) = map_option (apsnd f) (find P (List.product ts us))"
proof (induction ts)
  case (Cons t ts)
  have "find P (xs @ ys) = (case find P xs of None \<Rightarrow> find P ys | Some x \<Rightarrow> Some x)" for xs ys :: "('a \<times> 'b) list"
    by (induction xs) auto
  moreover have "find P (map (Pair t) (map f us)) = map_option (apsnd f) (find P (map (Pair t) us))"
    by (induction us) (auto simp: assms)
  ultimately show ?case using Cons by (simp del: map_map split: option.split)
qed simp

lemma UpdateUser_Inr:
  assumes "UpdateUser i name display role disabled d = (Inr u, d')"
  shows "users d' = update_where (\<lambda>x. us_id x = i) (update_user_row name display role disabled) (users d)"
    and "tokens d' = tokens d" and "db_now d' = db_now d"
  using assms by (auto simp: UpdateUser_def Let_def DeleteUserSessions_def split: option.splits if_splits)

lemma patchUser_Ok:
  assumes "patchUser c (Some i) (Some b) r d = (Ok u, d')"
  shows "\<exists>d2. UpdateUser i (map_option TrimSpace (up_username b)) (up_display b) (up_role b) (up_disabled b)
      (case up_password b of None \<Rightarrow> d | Some p \<Rightarrow> DeleteUserSessions i (SetPassword (cr_idkey c) (cr_salt c) i p d)) = (Inr u, d2) \<and>
    d' = auditReq r ''user.update'' (db_uuid_text d i) d2"
proof -
  define d1 where "d1 = (case up_password b of None \<Rightarrow> d | Some p \<Rightarrow> DeleteUserSessions i (SetPassword (cr_idkey c) (cr_salt c) i p d))"
  define upd where "upd = UpdateUser i (map_option TrimSpace (up_username b)) (up_display b) (up_role b) (up_disabled b) d1"
  define name where "name = (case map_option TrimSpace (up_username b) of None \<Rightarrow> None | Some v \<Rightarrow> checkUsername v)"
  define policy where "policy = (case up_password b of None \<Rightarrow> None | Some p \<Rightarrow> CheckPasswordPolicy p)"
  show ?thesis
    using assms
    unfolding patchUser_def Let_def option.case d1_def [symmetric] upd_def [symmetric] name_def [symmetric] policy_def [symmetric]
    by (cases name; cases policy; cases upd; cases "fst upd") (simp_all split: if_splits)
qed

lemma patched_rest:
  assumes "patchUser c (Some i) (Some b) r d = (Ok u, d')"
  shows "tokens d' = tokens d" and "db_now d' = db_now d"
  using patchUser_Ok [OF assms] UpdateUser_Inr(2,3)
  by (auto simp: DeleteUserSessions_def SetPassword_def auditReq_def LogUser_def audit_write_def split: option.splits)

lemma patched_users:
  assumes "patchUser c (Some i) (Some b) r d = (Ok u, d')" and "up_disabled b = None"
  shows "\<exists>f. users d' = map f (users d) \<and> (\<forall>x. us_id (f x) = us_id x) \<and> (\<forall>x. us_disabled (f x) = us_disabled x)"
proof -
  let ?f = "\<lambda>x. if us_id x = i then update_user_row (map_option TrimSpace (up_username b)) (up_display b) (up_role b) None x else x"
  let ?g = "\<lambda>x. case up_password b of None \<Rightarrow> x | Some p \<Rightarrow>
    if us_id x = i then x\<lparr>us_hash := Some (HashPassword (cr_idkey c) (cr_salt c) p), us_must_change := False\<rparr> else x"
  have d1: "users (case up_password b of None \<Rightarrow> d | Some p \<Rightarrow> DeleteUserSessions i (SetPassword (cr_idkey c) (cr_salt c) i p d)) = map ?g (users d)"
    by (simp add: DeleteUserSessions_def SetPassword_def update_where_def split: option.split)
  obtain d2 where d2: "UpdateUser i (map_option TrimSpace (up_username b)) (up_display b) (up_role b) (up_disabled b)
      (case up_password b of None \<Rightarrow> d | Some p \<Rightarrow> DeleteUserSessions i (SetPassword (cr_idkey c) (cr_salt c) i p d)) = (Inr u, d2)"
    "d' = auditReq r ''user.update'' (db_uuid_text d i) d2" using patchUser_Ok [OF assms(1)] by blast
  have "users d' = users d2" by (simp add: d2(2) auditReq_def LogUser_def audit_write_def)
  also have "\<dots> = map ?f (map ?g (users d))" using UpdateUser_Inr(1) [OF d2(1)] by (simp only: d1 update_where_def assms(2))
  finally have "users d' = map (?f \<circ> ?g) (users d)" by (simp only: map_map)
  moreover have "us_id ((?f \<circ> ?g) x) = us_id x" "us_disabled ((?f \<circ> ?g) x) = us_disabled x" for x
    by (simp_all add: update_user_row_def coalesce_def split: option.split)
  ultimately show ?thesis by blast
qed

definition ann_request :: request where
  "ann_request = root_request\<lparr>rq_identity :=
     Some \<lparr>id_user = 1001, id_username = ''ann'', id_role = RoleAdmin, id_via = ''session'', id_token = None\<rparr>\<rparr>"

definition token_db :: db where
  "token_db = snd (createToken toy_crypto (Some (''ci'', [], 0)) ann_request two_admins_db)"

definition ann_token :: string where
  "ann_token = TokenPrefix @ fst (NewSecret rev (cr_raw toy_crypto))"

definition demoted_db :: db where
  "demoted_db = snd (patchUser toy_crypto (Some 1001) (Some demote) root_request token_db)"

text \<open>
  C29: A token keeps the role it was created with. When an administrator changes an account and does
  not disable it, say by demoting it to viewer, every API token of the account still authenticates,
  with the role the token carries, although the sessions of the account are ended.
\<close>

theorem demoted_token_keeps_role:
  assumes "patchUser c (Some i) (Some b) r d = (Ok u, d')" and "up_disabled b = None"
    and "fst (LookupAPIToken sha tok d) = Some ident"
  shows "\<exists>ident'. fst (LookupAPIToken sha tok d') = Some ident' \<and> id_role ident' = id_role ident \<and> id_user ident' = id_user ident"
proof -
  obtain f where f: "users d' = map f (users d)" "\<And>x. us_id (f x) = us_id x" "\<And>x. us_disabled (f x) = us_disabled x"
    using patched_users [OF assms(1,2)] by blast
  let ?P = "\<lambda>(t, u). live_token (HashSecret sha tok) d t \<and> us_id u = at_user t \<and> \<not> us_disabled u"
  have live: "live_token h d' = live_token h d" for h
    unfolding live_token_def fun_eq_iff patched_rest(2) [OF assms(1)] by simp
  have "find ?P (List.product (tokens d') (users d')) = map_option (apsnd f) (find ?P (List.product (tokens d) (users d)))"
    unfolding f(1) patched_rest(1) [OF assms(1)] by (rule find_product_map) (simp add: f)
  then show ?thesis
    using assms(3) by (auto simp: LookupAPIToken_def live f split: if_splits option.splits)
qed

theorem demoted_token_keeps_role_witness:
  "map us_role (users demoted_db) = [RoleAdmin, RoleViewer] \<and>
   (\<exists>ident. fst (LookupAPIToken rev ann_token demoted_db) = Some ident \<and> id_user ident = 1001 \<and> id_role ident = RoleAdmin)"
proof -
  have "patchUser toy_crypto (Some 1001) (Some demote) root_request token_db =
      (Ok (case fst (patchUser toy_crypto (Some 1001) (Some demote) root_request token_db) of Ok u \<Rightarrow> u | _ \<Rightarrow> undefined), demoted_db)"
  proof -
    have "(case fst (patchUser toy_crypto (Some 1001) (Some demote) root_request token_db) of Ok u \<Rightarrow> True | _ \<Rightarrow> False)" by code_simp
    then show ?thesis unfolding demoted_db_def
      by (cases "patchUser toy_crypto (Some 1001) (Some demote) root_request token_db") (auto split: answer.splits)
  qed
  moreover have "up_disabled demote = None" by (simp add: demote_def)
  moreover have "fst (LookupAPIToken rev ann_token token_db) =
      Some \<lparr>id_user = 1001, id_username = ''ann'', id_role = RoleAdmin, id_via = ''token'', id_token = Some 1002\<rparr>" by code_simp
  ultimately have "\<exists>ident. fst (LookupAPIToken rev ann_token demoted_db) = Some ident \<and> id_role ident = RoleAdmin \<and> id_user ident = 1001"
    using demoted_token_keeps_role [of toy_crypto 1001 demote root_request token_db _ demoted_db rev ann_token] by fastforce
  moreover have "map us_role (users demoted_db) = [RoleAdmin, RoleViewer]" by code_simp
  ultimately show ?thesis by blast
qed

end
