(* ===== verification/LoginProps.thy ===== *)
theory LoginProps
  imports AuthProps
begin

text \<open>
  Signing in: the two counters of sign-in attempts agree, and what a successful sign-in proves and
  yields.
\<close>

section \<open>Two limiters, one limit\<close>

text \<open>
  The in-process counter forgets what leaves the window and prunes its table; the shared one keeps
  every attempt and counts by a query. Both are run on the same history of attempts and successes.
\<close>

datatype sign_in = Attempt instant string string | Success string string

fun sign_in_times :: "sign_in list \<Rightarrow> instant list" where
  "sign_in_times [] = []"
| "sign_in_times (Attempt t ip u # es) = t # sign_in_times es"
| "sign_in_times (Success ip u # es) = sign_in_times es"

fun own_verdicts :: "sign_in list \<Rightarrow> hits \<Rightarrow> bool list" where
  "own_verdicts [] m = []"
| "own_verdicts (Attempt t ip u # es) m =
    (let v = limiter_allow t (login_keys ip u) m in fst v # own_verdicts es (snd v))"
| "own_verdicts (Success ip u # es) m = own_verdicts es (limiter_succeeded (login_keys ip u) m)"

fun shared_verdicts :: "sign_in list \<Rightarrow> db \<Rightarrow> bool list" where
  "shared_verdicts [] d = []"
| "shared_verdicts (Attempt t ip u # es) d =
    (let v = allowLogin (login_keys ip u) (d\<lparr>db_now := t\<rparr>) in fst v # shared_verdicts es (snd v))"
| "shared_verdicts (Success ip u # es) d = shared_verdicts es (loginSucceeded (login_keys ip u) d)"

definition in_window :: "instant \<Rightarrow> instant \<Rightarrow> bool" where
  "in_window n t \<longleftrightarrow> n - t < loginWindow"

definition attempts_of :: "string \<Rightarrow> (string \<times> instant) list \<Rightarrow> instant list" where
  "attempts_of k as = map snd (filter (\<lambda>a. fst a = k) as)"

text \<open>What ties the two memories together at the instant \<open>now\<close>.\<close>

definition same_memory :: "instant \<Rightarrow> hits \<Rightarrow> (string \<times> instant) list \<Rightarrow> bool" where
  "same_memory now m as \<longleftrightarrow> distinct (map fst m) \<and>
     (\<forall>k. sorted (hits_of m k) \<and> (\<forall>t \<in> set (hits_of m k). t \<le> now) \<and>
        (\<forall>n \<ge> now. filter (in_window n) (hits_of m k) = filter (in_window n) (attempts_of k as)))"

lemma same_memory_later: "same_memory now m as \<Longrightarrow> now \<le> n \<Longrightarrow> same_memory n m as"
  unfolding same_memory_def by (meson order.trans)

lemma hits_of_note:
  "hits_of (snd (limiter_note now k s)) k' =
     (if k' = k then filter (in_window now) (hits_of (snd s) k) @ [now] else hits_of (snd s) k')"
proof -
  have "map_of (filter (\<lambda>e. fst e \<noteq> k) m) k' = (if k' = k then None else map_of m k')" for m :: hits
    by (induction m) auto
  moreover have "in_window now = (\<lambda>t. now - t < loginWindow)" by (simp add: in_window_def fun_eq_iff)
  ultimately show ?thesis by (simp add: limiter_note_def Let_def hits_of_def)
qed

lemma keys_note: "distinct (map fst (snd s)) \<Longrightarrow> distinct (map fst (snd (limiter_note now k s)))"
  by (auto simp: limiter_note_def Let_def distinct_map_filter)

lemma in_window_mono: "in_window n t \<Longrightarrow> now \<le> n \<Longrightarrow> in_window now t"
  by (simp add: in_window_def)

lemma filter_window: "now \<le> n \<Longrightarrow> filter (in_window n) (filter (in_window now) ts) = filter (in_window n) ts"
  by (induction ts) (auto dest: in_window_mono)

lemma attempts_of_snoc: "attempts_of k (as @ [(k', now)]) = attempts_of k as @ (if k' = k then [now] else [])"
  by (simp add: attempts_of_def)

lemma same_memory_note:
  assumes "same_memory now (snd s) as"
  shows "same_memory now (snd (limiter_note now k s)) (as @ [(k, now)])"
  unfolding same_memory_def
proof (intro conjI allI impI)
  show "distinct (map fst (snd (limiter_note now k s)))" using assms by (simp add: same_memory_def keys_note)
  fix k'
  have m: "sorted (hits_of (snd s) k')" "\<forall>t \<in> set (hits_of (snd s) k'). t \<le> now"
    "\<And>n. now \<le> n \<Longrightarrow> filter (in_window n) (hits_of (snd s) k') = filter (in_window n) (attempts_of k' as)"
    using assms by (simp_all add: same_memory_def)
  have "sorted (filter (in_window now) (hits_of (snd s) k'))"
    using m(1) sorted_filter [of "\<lambda>t. t" "hits_of (snd s) k'" "in_window now"] by simp
  then show "sorted (hits_of (snd (limiter_note now k s)) k')"
    using m(1,2) by (auto simp: hits_of_note sorted_append)
  show "\<forall>t \<in> set (hits_of (snd (limiter_note now k s)) k'). t \<le> now" using m(2) by (auto simp: hits_of_note)
  show "filter (in_window n) (hits_of (snd (limiter_note now k s)) k') = filter (in_window n) (attempts_of k' (as @ [(k, now)]))"
    if "now \<le> n" for n
    using m(3) that by (auto simp: hits_of_note attempts_of_snoc filter_window simp del: filter_filter)
qed

lemma map_of_filter_key:
  "distinct (map fst m) \<Longrightarrow>
   map_of (filter P m) k = (case map_of m k of None \<Rightarrow> None | Some v \<Rightarrow> if P (k, v) then Some v else None)"
  by (induction m) (auto simp: map_of_eq_None_iff split: option.split)

lemma sorted_le_last: "sorted ts \<Longrightarrow> t \<in> set ts \<Longrightarrow> t \<le> last ts"
  by (induction ts) auto

lemma same_memory_prune:
  assumes "same_memory now m as"
  shows "same_memory now (filter (\<lambda>e. snd e \<noteq> [] \<and> now - last (snd e) < loginWindow) m) as"
proof -
  let ?m = "filter (\<lambda>e. snd e \<noteq> [] \<and> now - last (snd e) < loginWindow) m"
  have dist: "distinct (map fst m)" using assms by (simp add: same_memory_def)
  have cases: "hits_of ?m k = hits_of m k \<or> hits_of ?m k = [] \<and> (\<forall>n \<ge> now. filter (in_window n) (hits_of m k) = [])" for k
  proof -
    have sorted: "sorted (hits_of m k)" using assms by (simp add: same_memory_def)
    have "\<not> in_window n t" if "t \<in> set (hits_of m k)" "\<not> now - last (hits_of m k) < loginWindow" "now \<le> n" for n t
      using sorted_le_last [OF sorted that(1)] that(2,3) by (simp add: in_window_def)
    then show ?thesis
      by (auto simp: hits_of_def map_of_filter_key [OF dist] filter_empty_conv split: option.split)
  qed
  show ?thesis
    unfolding same_memory_def
  proof (intro conjI allI impI)
    show "distinct (map fst ?m)" using dist by (rule distinct_map_filter)
    fix k
    show "sorted (hits_of ?m k)" "\<forall>t \<in> set (hits_of ?m k). t \<le> now"
      using cases [of k] assms by (auto simp: same_memory_def)
    show "filter (in_window n) (hits_of ?m k) = filter (in_window n) (attempts_of k as)" if "now \<le> n" for n
      using cases [of k] assms that by (auto simp: same_memory_def)
  qed
qed

lemma same_memory_clear:
  assumes "same_memory now m as"
  shows "same_memory now (limiter_succeeded keys m) (filter (\<lambda>a. fst a \<notin> set keys) as)"
proof -
  have dist: "distinct (map fst m)" using assms by (simp add: same_memory_def)
  have h: "hits_of (limiter_succeeded keys m) k = (if k \<in> set keys then [] else hits_of m k)" for k
    by (simp add: limiter_succeeded_def hits_of_def map_of_filter_key [OF dist] split: option.split)
  have a: "attempts_of k (filter (\<lambda>a. fst a \<notin> set keys) as) = (if k \<in> set keys then [] else attempts_of k as)" for k
    by (induction as) (auto simp: attempts_of_def)
  have "distinct (map fst (limiter_succeeded keys m))" using dist by (simp add: limiter_succeeded_def distinct_map_filter)
  then show ?thesis using assms by (simp add: same_memory_def h a)
qed

lemma window_filter: "(\<lambda>t. now - t < loginWindow) = in_window now"
  by (simp add: in_window_def fun_eq_iff)

lemma recent_attempts_window:
  "recent_attempts loginWindow k d = length (filter (in_window (db_now d)) (attempts_of k (ac_attempts (db_accounts d))))"
proof -
  have "length (filter (\<lambda>a. fst a = k \<and> snd a > n - loginWindow) as) = length (filter (in_window n) (attempts_of k as))"
    for n and as :: "(string \<times> instant) list"
    by (induction as) (auto simp: attempts_of_def in_window_def)
  then show ?thesis by (simp add: recent_attempts_def)
qed

lemma fst_note: "fst (limiter_note now k s) = (fst s \<and> length (filter (in_window now) (hits_of (snd s) k)) < loginMaxTries)"
  by (auto simp: limiter_note_def Let_def window_filter)

lemma login_keys_distinct: "distinct (login_keys ip u)"
  by (simp add: login_keys_def)

text \<open>One attempt: the same verdict, and the memories still agree.\<close>

lemma limiter_allow_agrees:
  assumes "same_memory now m (ac_attempts (db_accounts d))" and "db_now d = now"
  shows "fst (limiter_allow now (login_keys ip u) m) = fst (allowLogin (login_keys ip u) d) \<and>
    same_memory now (snd (limiter_allow now (login_keys ip u) m)) (ac_attempts (db_accounts (snd (allowLogin (login_keys ip u) d))))"
proof -
  let ?a = "''ip:'' @ ip" and ?b = "''user:'' @ ToLower u" and ?as = "ac_attempts (db_accounts d)"
  let ?s1 = "limiter_note now ?a (True, m)"
  let ?s2 = "limiter_note now ?b ?s1"
  have eq: "filter (in_window now) (hits_of m k) = filter (in_window now) (attempts_of k ?as)" for k
    using assms(1) by (simp add: same_memory_def)
  have "fst ?s2 = (recent_attempts loginWindow ?a d < loginMaxTries \<and> recent_attempts loginWindow ?b d < loginMaxTries)"
    by (simp add: fst_note hits_of_note recent_attempts_window assms(2) eq)
  moreover have "fst (limiter_allow now (login_keys ip u) m) = fst ?s2"
    by (simp add: limiter_allow_def login_keys_def case_prod_beta)
  moreover have "fst (allowLogin (login_keys ip u) d) =
      (recent_attempts loginWindow ?a d < loginMaxTries \<and> recent_attempts loginWindow ?b d < loginMaxTries)"
    by (auto simp: allowLogin_def CountLoginAttempt_def login_keys_def loginMaxTries_def)
  moreover have "same_memory now (snd ?s2) ((?as @ [(?a, now)]) @ [(?b, now)])"
    by (intro same_memory_note) (simp add: same_memory_note assms(1))
  then have "same_memory now (snd (limiter_allow now (login_keys ip u) m)) (?as @ [(?a, now), (?b, now)])"
    using same_memory_prune by (auto simp: limiter_allow_def login_keys_def case_prod_beta Let_def)
  moreover have "ac_attempts (db_accounts (snd (allowLogin (login_keys ip u) d))) = ?as @ [(?a, now), (?b, now)]"
    by (simp add: allowLogin_def CountLoginAttempt_def login_keys_def assms(2))
  ultimately show ?thesis by simp
qed

lemma verdicts_agree:
  assumes "same_memory now m (ac_attempts (db_accounts d))" and "sorted (now # sign_in_times es)"
  shows "own_verdicts es m = shared_verdicts es d"
  using assms
proof (induction es arbitrary: now m d rule: sign_in_times.induct)
  case (2 t ip u es)
  let ?d = "d\<lparr>db_now := t\<rparr>"
  have "same_memory t m (ac_attempts (db_accounts ?d))" using 2 same_memory_later [of now m _ t] by simp
  from limiter_allow_agrees [OF this] have a: "fst (limiter_allow t (login_keys ip u) m) = fst (allowLogin (login_keys ip u) ?d)"
    "same_memory t (snd (limiter_allow t (login_keys ip u) m)) (ac_attempts (db_accounts (snd (allowLogin (login_keys ip u) ?d))))"
    by simp_all
  from "2.IH" [OF a(2)] "2.prems"(2) have "own_verdicts es (snd (limiter_allow t (login_keys ip u) m)) =
      shared_verdicts es (snd (allowLogin (login_keys ip u) ?d))" by simp
  with a(1) show ?case by (simp add: Let_def)
next
  case (3 ip u es)
  from same_memory_clear [OF "3.prems"(1), of "login_keys ip u"] show ?case
    using "3.IH" "3.prems"(2) by (simp add: loginSucceeded_def ClearLoginAttempts_def)
qed simp

text \<open>
  C25: The fallback limiter and the shared one agree. On any history of sign-in attempts and
  successes, in the order of their times, the counter each API process keeps for itself and the
  counter in the database let the same attempts through, although the first forgets old attempts
  and prunes its table and the second counts rows in a window.
\<close>

theorem limiters_agree:
  assumes "sorted (sign_in_times es)" and "ac_attempts (db_accounts d) = []"
  shows "own_verdicts es [] = shared_verdicts es d"
proof (rule verdicts_agree [where now = "case sign_in_times es of [] \<Rightarrow> 0 | t # ts \<Rightarrow> t"])
  show "same_memory (case sign_in_times es of [] \<Rightarrow> 0 | t # ts \<Rightarrow> t) [] (ac_attempts (db_accounts d))"
    using assms(2) by (simp add: same_memory_def hits_of_def attempts_of_def)
  show "sorted ((case sign_in_times es of [] \<Rightarrow> 0 | t # ts \<Rightarrow> t) # sign_in_times es)"
    using assms(1) by (cases "sign_in_times es") auto
qed

definition guessing :: "sign_in list" where
  "guessing = replicate 11 (Attempt 5 ''10.0.0.1'' ''root'') @ [Attempt 6 ''10.0.0.2'' ''Root'', Success ''10.0.0.3'' ''ROOT'',
     Attempt 7 ''10.0.0.2'' ''root'', Attempt 7 ''10.0.0.1'' ''ann'', Attempt (seconds 901) ''10.0.0.1'' ''ann'']"

theorem limiters_agree_witness:
  "own_verdicts guessing [] = replicate 10 True @ [False, False, True, False, True] \<and>
   shared_verdicts guessing empty_db = replicate 10 True @ [False, False, True, False, True]"
proof -
  have "own_verdicts guessing [] = replicate 10 True @ [False, False, True, False, True]" by code_simp
  moreover have "sorted (sign_in_times guessing)" "ac_attempts (db_accounts empty_db) = []" by code_simp+
  ultimately show ?thesis using limiters_agree [of guessing empty_db] by simp
qed

section \<open>What a sign-in proves and yields\<close>

lemma find_unique:
  assumes "x \<in> set xs" and "P x" and only: "\<And>y. y \<in> set xs \<Longrightarrow> P y \<Longrightarrow> y = x"
  shows "find P xs = Some x"
proof (cases "find P xs")
  case None
  then show ?thesis using assms(1,2) by (simp add: find_None_iff)
next
  case (Some y)
  then have "P y" "y \<in> set xs" by (auto simp: find_Some_iff)
  then show ?thesis using only [of y] Some by simp
qed

lemma signIn_Ok:
  assumes "signIn c secret r u d = (Ok (s, u'), d')"
  shows "u' = u" and "s = b64_encode True (cr_raw c)" and "users d' = users d" and "db_now d' = db_now d"
    and "\<exists>x. sessions d' = sessions d @ [x] \<and> se_hash x = cr_sha c s \<and> se_user x = us_id u \<and> se_expires x = db_now d + SessionTTL"
    and "cr_sha c s \<notin> se_hash ` set (sessions d)"
  using assms by (auto simp: signIn_def CreateSession_def NewSecret_def Let_def split: prod.splits sum.splits if_splits)

lemma session_authenticates:
  assumes "signIn c secret r u d = (Ok (s, u'), d')" and "cr_raw c \<noteq> []" and "u \<in> set (users d)" and "\<not> us_disabled u"
    and "distinct (map us_id (users d))" and "rq_cookie r' = s"
  shows "fst (authenticate c secret' r' d') =
    Some \<lparr>id_user = us_id u, id_username = us_name u, id_role = us_role u, id_via = ''session'', id_token = None\<rparr>"
proof -
  note si = signIn_Ok [OF assms(1)]
  obtain x where x: "sessions d' = sessions d @ [x]" "se_hash x = cr_sha c s" "se_user x = us_id u" "se_expires x = db_now d + SessionTTL"
    using si(5) by blast
  let ?P = "\<lambda>(t, v). live_session (HashSecret (cr_sha c) s) d' t \<and> us_id v = se_user t \<and> \<not> us_disabled v"
  have "find ?P (List.product (sessions d') (users d')) = Some (x, u)"
  proof (rule find_unique)
    show "(x, u) \<in> set (List.product (sessions d') (users d'))" using x si(3) assms(3) by simp
    show "?P (x, u)" using x si(4) assms(4) by (simp add: live_session_def HashSecret_def SessionTTL_def)
    fix y assume y: "y \<in> set (List.product (sessions d') (users d'))" "?P y"
    then have "se_hash (fst y) = cr_sha c s" "fst y \<in> set (sessions d @ [x])"
      by (auto simp: live_session_def HashSecret_def x(1))
    then have "fst y = x" using si(6) by (metis image_eqI in_set_conv_decomp set_append set_ConsD list.set(1) UnE empty_iff)
    moreover from this have "snd y = u" using y x(3) si(3) assms(3,5) by (auto intro: distinct_key_unique)
    ultimately show "y = (x, u)" by (cases y) simp
  qed
  moreover have "s \<noteq> []" using si(2) assms(2) by (cases "(True, cr_raw c)" rule: b64_encode.cases) auto
  ultimately show ?thesis using assms(6) by (simp add: authenticate_def LookupSession_def Let_def)
qed

lemma login_Ok:
  assumes "login c secret (Some (name, pw)) r d = (Ok (s, u'), d')"
  shows "\<exists>u h d1. allowLogin (login_keys (clientIP secret r) (TrimSpace name)) d = (True, d1) \<and>
    UserByUsername (TrimSpace name) d1 = Inr (u, h) \<and> h \<noteq> [] \<and> VerifyPassword (cr_idkey c) h pw = Some True \<and> \<not> us_disabled u \<and>
    signIn c secret r u (LogUser (us_id u) (us_name u) ''user.login'' (db_uuid_text d (us_id u))
      (TouchLogin (us_id u) (loginSucceeded (login_keys (clientIP secret r) (TrimSpace name)) d1))) = (Ok (s, u'), d')"
proof -
  define keys where "keys = login_keys (clientIP secret r) (TrimSpace name)"
  obtain ok d1 where a: "allowLogin keys d = (ok, d1)" by fastforce
  show ?thesis
    using assms unfolding login_def Let_def option.case prod.case keys_def [symmetric] a
    by (cases "UserByUsername (TrimSpace name) d1") (auto split: if_splits)
qed

lemma UserByUsername_Inr:
  "UserByUsername name d = Inr (u, h) \<Longrightarrow>
   u \<in> set (users d) \<and> ToLower (us_name u) = ToLower name \<and> (h = [] \<or> us_hash u = Some h)"
  by (auto simp: UserByUsername_def find_Some_iff split: option.splits)

text \<open>
  C24: A sign-in is sound, and it works. When \<open>login\<close> answers with a cookie, the account it names exists
  under the name that was given (without regard to case), is enabled, and the password matches the
  hash stored for it; and a request that presents the cookie is authenticated as that account, with
  the role it has.
\<close>

theorem login_sound:
  assumes "login c secret (Some (name, pw)) r d = (Ok (s, u), d')" and "accounts_ok d" and "cr_raw c \<noteq> []"
  shows "u \<in> set (users d) \<and> ToLower (us_name u) = ToLower (TrimSpace name) \<and> \<not> us_disabled u \<and>
    (\<exists>h. us_hash u = Some h \<and> VerifyPassword (cr_idkey c) h pw = Some True) \<and>
    fst (authenticate c secret (r\<lparr>rq_cookie := s\<rparr>) d') =
      Some \<lparr>id_user = us_id u, id_username = us_name u, id_role = us_role u, id_via = ''session'', id_token = None\<rparr>"
proof -
  let ?keys = "login_keys (clientIP secret r) (TrimSpace name)"
  obtain v h d1 where l: "allowLogin ?keys d = (True, d1)" "UserByUsername (TrimSpace name) d1 = Inr (v, h)" "h \<noteq> []"
      "VerifyPassword (cr_idkey c) h pw = Some True" "\<not> us_disabled v"
      "signIn c secret r v (LogUser (us_id v) (us_name v) ''user.login'' (db_uuid_text d (us_id v))
        (TouchLogin (us_id v) (loginSucceeded ?keys d1))) = (Ok (s, u), d')" (is "signIn _ _ _ _ ?d2 = _")
    using login_Ok [OF assms(1)] by blast
  have d1: "users d1 = users d" using l(1) by (auto simp: allowLogin_def CountLoginAttempt_def)
  have v: "v \<in> set (users d)" "ToLower (us_name v) = ToLower (TrimSpace name)" "us_hash v = Some h"
    using UserByUsername_Inr [OF l(2)] l(3) d1 by auto
  let ?w = "v\<lparr>us_last_login := Some (db_now d1)\<rparr>"
  have "users ?d2 = update_where (\<lambda>x. us_id x = us_id v) (\<lambda>x. x\<lparr>us_last_login := Some (db_now d1)\<rparr>) (users d)"
    by (simp add: LogUser_def audit_write_def TouchLogin_def loginSucceeded_def ClearLoginAttempts_def d1)
  then have w: "?w \<in> set (users ?d2)" "map us_id (users ?d2) = map us_id (users d)"
    using v(1) by (auto simp: set_update_where update_where_def image_iff)
  have "signIn c secret r ?w ?d2 = (Ok (s, ?w), d')"
    using l(6) by (auto simp: signIn_def split: prod.splits sum.splits)
  moreover have "\<not> us_disabled ?w" "distinct (map us_id (users ?d2))"
    using l(5) assms(2) w(2) by (simp_all add: accounts_ok_def)
  ultimately have "fst (authenticate c secret (r\<lparr>rq_cookie := s\<rparr>) d') =
      Some \<lparr>id_user = us_id ?w, id_username = us_name ?w, id_role = us_role ?w, id_via = ''session'', id_token = None\<rparr>"
    using session_authenticates [OF _ assms(3) w(1)] by simp
  moreover have "u = v" using signIn_Ok(1) [OF l(6)] by simp
  ultimately show ?thesis using v l(4,5) by simp
qed

definition anonymous :: request where
  "anonymous = root_request\<lparr>rq_identity := None\<rparr>"

theorem login_sound_witness:
  "fst (login toy_crypto [] (Some ('' Root '', ''correct horse'')) anonymous one_admin_db) =
     Ok (b64_encode True (cr_raw toy_crypto), hd (users one_admin_db)) \<and>
   fst (authenticate toy_crypto [] (anonymous\<lparr>rq_cookie := b64_encode True (cr_raw toy_crypto)\<rparr>)
     (snd (login toy_crypto [] (Some ('' Root '', ''correct horse'')) anonymous one_admin_db))) =
     Some \<lparr>id_user = 1000, id_username = ''root'', id_role = RoleAdmin, id_via = ''session'', id_token = None\<rparr>"
proof -
  let ?l = "login toy_crypto [] (Some ('' Root '', ''correct horse'')) anonymous one_admin_db"
  have "fst ?l = Ok (b64_encode True (cr_raw toy_crypto), hd (users one_admin_db))" by code_simp
  moreover from this have "?l = (Ok (b64_encode True (cr_raw toy_crypto), hd (users one_admin_db)), snd ?l)" by (metis prod.collapse)
  moreover have "cr_raw toy_crypto \<noteq> []" by code_simp
  moreover have "us_id (hd (users one_admin_db)) = 1000" "us_name (hd (users one_admin_db)) = ''root''"
    "us_role (hd (users one_admin_db)) = RoleAdmin" by code_simp+
  ultimately show ?thesis using login_sound [OF _ sample_ok(1)] by metis
qed

end
