(* ===== verification/Assets.thy ===== *)
theory Assets
  imports RunStore
begin

text \<open>
  The temporal asset graph: the upserts of \<^verbatim>\<open>internal/store/asset.go\<close> and
  \<^verbatim>\<open>internal/store/finding.go\<close> that the ingestor calls. Each of them inserts a row or refreshes the
  one that has its key. The tables are interpretations of \<open>temporal_table\<close>, which gives for all of
  them at once that rows are never lost, keep their first sighting, and never move their last one
  back. Where PostgreSQL leaves the order of an array open (\<^verbatim>\<open>SELECT DISTINCT\<close>), the order
  of first appearance is taken. Numbers are assumed to fit their columns, and addresses carry no
  prefix length.
\<close>

section \<open>Names and addresses\<close>

definition fk_error :: "string \<Rightarrow> string" where
  "fk_error table = table @ '': foreign key''"

abbreviation scope_ids :: "db \<Rightarrow> uuid list" where
  "scope_ids d \<equiv> map sco_id (db_scopes d)"

definition dn_key :: "domain_row \<Rightarrow> uuid \<times> string" where
  "dn_key r = (dn_scope r, dn_name r)"

definition dn_refresh :: "domain_row \<Rightarrow> domain_row \<Rightarrow> domain_row" where
  "dn_refresh new r = r\<lparr>dn_last := max (dn_last r) (dn_last new), dn_sources := append_new (dn_sources r) (dn_sources new)\<rparr>"

text \<open>The sources arrive as one comma-separated text.\<close>

definition source_list :: "string \<Rightarrow> string list" where
  "source_list source = append_new [] (filter (\<lambda>x. x \<noteq> []) (split_on CHR '','' source))"

definition UpsertDomain :: "uuid \<Rightarrow> string \<Rightarrow> string \<Rightarrow> string \<Rightarrow> instant \<Rightarrow> db \<Rightarrow> uuid result \<times> db" where
  "UpsertDomain sc name apex source at d =
     (if sc \<notin> set (scope_ids d) then (Inl (fk_error ''domain''), d)
      else let new = \<lparr>dn_id = fresh d, dn_scope = sc, dn_name = name, dn_apex = apex, dn_wildcard = False,
                       dn_sources = source_list source, dn_first = at, dn_last = at\<rparr>
           in (Inr (upsert_id dn_key dn_id new (db_domains d)),
               (drawn d)\<lparr>db_domains := upsert dn_key (dn_refresh new) new (db_domains d)\<rparr>))"

definition set_assets :: "(assets \<Rightarrow> assets) \<Rightarrow> db \<Rightarrow> db" where
  "set_assets f d = d\<lparr>db_assets := f (db_assets d)\<rparr>"

definition dr_key :: "dns_record \<Rightarrow> uuid \<times> string \<times> string" where
  "dr_key r = (dr_domain r, dr_rtype r, dr_value r)"

definition dr_refresh :: "dns_record \<Rightarrow> dns_record \<Rightarrow> dns_record" where
  "dr_refresh new r = r\<lparr>dr_last := max (dr_last r) (dr_last new), dr_ttl := dr_ttl new\<rparr>"

definition UpsertDNSRecord :: "uuid \<Rightarrow> string \<Rightarrow> string \<Rightarrow> int \<Rightarrow> instant \<Rightarrow> db \<Rightarrow> string option \<times> db" where
  "UpsertDNSRecord dm rtype value ttl at d =
     (if dm \<notin> dn_id ` set (db_domains d) then (Some (fk_error ''dns_record''), d)
      else let new = \<lparr>dr_domain = dm, dr_rtype = rtype, dr_value = value, dr_ttl = ttl, dr_first = at, dr_last = at\<rparr>
           in (None, set_assets (as_dns_update (upsert dr_key (dr_refresh new) new)) d))"

definition ip_key :: "ip_row \<Rightarrow> uuid \<times> string" where
  "ip_key r = (ip_scope r, ip_addr r)"

definition ip_refresh :: "ip_row \<Rightarrow> ip_row \<Rightarrow> ip_row" where
  "ip_refresh new r = r\<lparr>ip_last := max (ip_last r) (ip_last new)\<rparr>"

definition UpsertIP :: "uuid \<Rightarrow> string \<Rightarrow> instant \<Rightarrow> db \<Rightarrow> uuid result \<times> db" where
  "UpsertIP sc addr at d = (case db_host d addr of
     None \<Rightarrow> (Inl ''invalid input syntax for type inet'', d)
   | Some a \<Rightarrow>
       (if sc \<notin> set (scope_ids d) then (Inl (fk_error ''ip_address''), d)
        else let new = \<lparr>ip_id = fresh d, ip_scope = sc, ip_addr = a, ip_ptr = None, ip_asn = None, ip_as_org = None,
                         ip_as_range = None, ip_country = None, ip_cloud = None, ip_shared = False, ip_first = at, ip_last = at\<rparr>
             in (Inr (upsert_id ip_key ip_id new (db_ips d)),
                 (drawn d)\<lparr>db_ips := upsert ip_key (ip_refresh new) new (db_ips d)\<rparr>)))"

text \<open>\<^verbatim>\<open>COALESCE(NULLIF(new,''), old)\<close>: only a value that is not empty overwrites.\<close>

definition keep_unless :: "string \<Rightarrow> string option \<Rightarrow> string option" where
  "keep_unless new old = (if new = [] then old else Some new)"

definition enrich_row :: "string \<Rightarrow> string \<Rightarrow> string \<Rightarrow> string \<Rightarrow> string \<Rightarrow> int \<Rightarrow> bool \<Rightarrow> ip_row \<Rightarrow> ip_row" where
  "enrich_row ptr asOrg country cloud asRange asn shared r =
     r\<lparr>ip_ptr := keep_unless ptr (ip_ptr r), ip_as_org := keep_unless asOrg (ip_as_org r),
        ip_country := keep_unless country (ip_country r), ip_cloud := keep_unless cloud (ip_cloud r),
        ip_as_range := keep_unless asRange (ip_as_range r),
        ip_asn := (if asn = 0 then ip_asn r else Some asn), ip_shared := (ip_shared r \<or> shared)\<rparr>"

definition EnrichIP :: "uuid \<Rightarrow> string \<Rightarrow> string \<Rightarrow> string \<Rightarrow> string \<Rightarrow> string \<Rightarrow> int \<Rightarrow> bool \<Rightarrow> db \<Rightarrow> db" where
  "EnrichIP i ptr asOrg country cloud asRange asn shared d =
     d\<lparr>db_ips := update_where (\<lambda>r. ip_id r = i) (enrich_row ptr asOrg country cloud asRange asn shared) (db_ips d)\<rparr>"

fun wildcard_records :: "uuid \<Rightarrow> string list \<Rightarrow> instant \<Rightarrow> db \<Rightarrow> string option \<times> db" where
  "wildcard_records i [] at d = (None, d)"
| "wildcard_records i (a # as) at d =
     (if a = [] then wildcard_records i as at d
      else (case UpsertDNSRecord i ''WILDCARD'' a 0 at d of
              (Some e, d1) \<Rightarrow> (Some e, d1)
            | (None, d1) \<Rightarrow> wildcard_records i as at d1))"

definition wild_row :: "domain_row \<Rightarrow> domain_row" where
  "wild_row r = r\<lparr>dn_wildcard := True\<rparr>"

definition MarkWildcard :: "uuid \<Rightarrow> string \<Rightarrow> string \<Rightarrow> string list \<Rightarrow> instant \<Rightarrow> db \<Rightarrow> string option \<times> db" where
  "MarkWildcard sc name apex ips at d = (case UpsertDomain sc name apex ''wildcard-probe'' at d of
     (Inl e, d1) \<Rightarrow> (Some e, d1)
   | (Inr i, d1) \<Rightarrow> wildcard_records i ips at
       (d1\<lparr>db_domains := update_where (\<lambda>r. dn_id r = i) wild_row (db_domains d1)\<rparr>))"

definition di_key :: "domain_ip \<Rightarrow> uuid \<times> uuid \<times> string option" where
  "di_key r = (di_domain r, di_ip r, di_via r)"

definition di_refresh :: "domain_ip \<Rightarrow> domain_ip \<Rightarrow> domain_ip" where
  "di_refresh new r = r\<lparr>di_last := max (di_last r) (di_last new)\<rparr>"

definition LinkDomainIP :: "uuid \<Rightarrow> uuid \<Rightarrow> string \<Rightarrow> instant \<Rightarrow> db \<Rightarrow> string option \<times> db" where
  "LinkDomainIP dm ip via at d =
     (if dm \<notin> dn_id ` set (db_domains d) \<or> ip \<notin> ip_id ` set (db_ips d) then (Some (fk_error ''domain_ip''), d)
      else let new = \<lparr>di_domain = dm, di_ip = ip, di_via = Some via, di_first = at, di_last = at\<rparr>
           in (None, d\<lparr>db_domain_ips := upsert di_key (di_refresh new) new (db_domain_ips d)\<rparr>))"

definition RecordDomainIPObservation :: "uuid \<Rightarrow> uuid \<Rightarrow> uuid \<Rightarrow> instant \<Rightarrow> db \<Rightarrow> string option \<times> db" where
  "RecordDomainIPObservation dm ip run at d =
     (if dm \<notin> dn_id ` set (db_domains d) \<or> ip \<notin> ip_id ` set (db_ips d) \<or> run \<notin> run_id ` set (db_runs d)
      then (Some (fk_error ''domain_ip_observation''), d)
      else (None, set_assets (as_name_obs_update (upsert fst id ((dm, ip, run), at))) d))"

section \<open>Services and what was seen on them\<close>

definition sv_key :: "service_row \<Rightarrow> uuid \<times> int \<times> string" where
  "sv_key r = (sv_ip r, sv_port r, sv_proto r)"

definition sv_refresh :: "service_row \<Rightarrow> service_row \<Rightarrow> service_row" where
  "sv_refresh new r = r\<lparr>sv_last := max (sv_last r) (sv_last new), sv_state := sv_state new\<rparr>"

definition UpsertService :: "uuid \<Rightarrow> int \<Rightarrow> string \<Rightarrow> string \<Rightarrow> instant \<Rightarrow> db \<Rightarrow> uuid result \<times> db" where
  "UpsertService ip port proto state at d =
     (if ip \<notin> ip_id ` set (db_ips d) then (Inl (fk_error ''service''), d)
      else let new = \<lparr>sv_id = fresh d, sv_ip = ip, sv_port = port, sv_proto = proto, sv_state = state,
                       sv_first = at, sv_last = at\<rparr>
           in (Inr (upsert_id sv_key sv_id new (as_services (db_assets d))),
               set_assets (as_services_update (upsert sv_key (sv_refresh new) new)) (drawn d)))"

text \<open>The snapshot of a service one stage reports (\<^verbatim>\<open>domain.ServiceObs\<close>).\<close>

record service_snapshot =
  ss_at :: instant
  ss_host :: string
  ss_banner :: string
  ss_product :: string
  ss_version :: string
  ss_http :: json_object
  ss_tls :: json_object
  ss_screenshot :: string
  ss_raw :: string

definition jsonOrNil :: "json_object \<Rightarrow> json option" where
  "jsonOrNil v = (if v = [] then None else Some (JObj v))"

text \<open>
  \<^verbatim>\<open>jsonb\<close>'s \<open>||\<close> on objects: the right value wins for every key it has. \<open>member_object\<close> and
  \<open>member_texts\<close> are the two guarded member reads of the statement, with \<^verbatim>\<open>{}\<close> and \<^verbatim>\<open>[]\<close> for
  anything that is not an object or an array.
\<close>

definition obj_merge :: "json_object \<Rightarrow> json_object \<Rightarrow> json_object" where
  "obj_merge a b = filter (\<lambda>kv. fst kv \<notin> fst ` set b) a @ b"

definition member_object :: "string \<Rightarrow> json_object \<Rightarrow> json_object" where
  "member_object k j = (case map_of j k of Some (JObj kv) \<Rightarrow> kv | _ \<Rightarrow> [])"

definition member_texts :: "string \<Rightarrow> json_object \<Rightarrow> string list" where
  "member_texts k j = (case map_of j k of Some (JTexts xs) \<Rightarrow> xs | _ \<Rightarrow> [])"

definition merge_cookies :: "json_object \<Rightarrow> json_object \<Rightarrow> json_object" where
  "merge_cookies old new =
     (if map_of old ''cookies'' = None \<and> map_of new ''cookies'' = None then []
      else [(''cookies'', JTexts (sort (remdups (member_texts ''cookies'' old @ member_texts ''cookies'' new))))])"

definition merge_http :: "json option \<Rightarrow> json option \<Rightarrow> json option" where
  "merge_http old new = (case new of
     Some (JObj n) \<Rightarrow> (case old of
         Some (JObj p) \<Rightarrow> Some (JObj (obj_merge (obj_merge (obj_merge p n)
             [(''headers'', JObj (obj_merge (member_object ''headers'' p) (member_object ''headers'' n)))])
             (merge_cookies p n)))
       | _ \<Rightarrow> new)
   | _ \<Rightarrow> old)"

definition overwrite :: "string \<Rightarrow> string \<Rightarrow> string" where
  "overwrite new old = (if new = [] then old else new)"

definition so_key :: "service_obs \<Rightarrow> uuid \<times> uuid \<times> string" where
  "so_key r = (so_service r, so_run r, so_host r)"

definition so_refresh :: "service_obs \<Rightarrow> service_obs \<Rightarrow> service_obs" where
  "so_refresh new r = r\<lparr>so_banner := overwrite (so_banner new) (so_banner r),
     so_product := overwrite (so_product new) (so_product r),
     so_version := overwrite (so_version new) (so_version r),
     so_http := merge_http (so_http r) (so_http new),
     so_tls := (if so_tls new = None \<or> so_tls new = Some JNull then so_tls r else so_tls new),
     so_screenshot := overwrite (so_screenshot new) (so_screenshot r),
     so_raw := overwrite (so_raw new) (so_raw r)\<rparr>"

definition UpsertServiceObservation :: "uuid \<Rightarrow> uuid \<Rightarrow> uuid option \<Rightarrow> service_snapshot \<Rightarrow> db \<Rightarrow> string option \<times> db" where
  "UpsertServiceObservation svc run w s d =
     (if svc \<notin> sv_id ` set (as_services (db_assets d)) \<or> run \<notin> run_id ` set (db_runs d) \<or>
         dangling w (map w_id (db_workers d))
      then (Some (fk_error ''service_observation''), d)
      else let new = \<lparr>so_service = svc, so_run = run, so_host = ss_host s, so_worker = w, so_at = ss_at s,
                       so_banner = ss_banner s, so_product = ss_product s, so_version = ss_version s,
                       so_http = jsonOrNil (ss_http s), so_tls = jsonOrNil (ss_tls s),
                       so_screenshot = ss_screenshot s, so_raw = ss_raw s\<rparr>
           in (None, set_assets (as_observations_update (upsert so_key (so_refresh new) new)) d))"

section \<open>Technologies\<close>

definition te_key :: "technology \<Rightarrow> uuid \<times> string \<times> string" where
  "te_key r = (te_service r, te_name r, te_version r)"

definition te_refresh :: "technology \<Rightarrow> technology \<Rightarrow> technology" where
  "te_refresh new r = r\<lparr>te_last := max (te_last r) (te_last new), te_confidence := max (te_confidence r) (te_confidence new)\<rparr>"

definition te_touch :: "instant \<Rightarrow> technology \<Rightarrow> technology" where
  "te_touch at r = r\<lparr>te_last := max (te_last r) at\<rparr>"

text \<open>The rows of a name on a service that carry a version, and the one that does not.\<close>

definition versioned :: "uuid \<Rightarrow> string \<Rightarrow> technology \<Rightarrow> bool" where
  "versioned svc name r \<longleftrightarrow> te_service r = svc \<and> te_name r = name \<and> te_version r \<noteq> []"

definition versionless :: "uuid \<Rightarrow> string \<Rightarrow> technology \<Rightarrow> bool" where
  "versionless svc name r \<longleftrightarrow> te_service r = svc \<and> te_name r = name \<and> te_version r = []"

definition technology_rows :: "technology \<Rightarrow> technology list \<Rightarrow> technology list" where
  "technology_rows new rows =
     (if te_version new = []
      then (if affected (versioned (te_service new) (te_name new)) rows > 0
            then update_where (versioned (te_service new) (te_name new)) (te_touch (te_last new)) rows
            else upsert te_key (te_refresh new) new rows)
      else upsert te_key (te_refresh new) new (filter (\<lambda>r. \<not> versionless (te_service new) (te_name new) r) rows))"

definition UpsertTechnology :: "uuid \<Rightarrow> string \<Rightarrow> string \<Rightarrow> string \<Rightarrow> int \<Rightarrow> instant \<Rightarrow> db \<Rightarrow> string option \<times> db" where
  "UpsertTechnology svc name version cpe confidence at d =
     (if svc \<notin> sv_id ` set (as_services (db_assets d)) then (Some (fk_error ''technology''), d)
      else let new = \<lparr>te_service = svc, te_name = name, te_version = version,
                       te_cpe = (if cpe = [] then None else Some cpe), te_confidence = confidence, te_first = at, te_last = at\<rparr>
           in (None, set_assets (as_technologies_update (technology_rows new)) d))"

section \<open>Findings\<close>

definition fi_key :: "finding_row \<Rightarrow> uuid \<times> string \<times> uuid \<times> string \<times> string" where
  "fi_key r = (fi_scope r, fi_asset_kind r, fi_asset r, fi_kind r, fi_title r)"

text \<open>A finding a person has resolved is left as it is.\<close>

definition fi_refresh :: "finding_row \<Rightarrow> finding_row \<Rightarrow> finding_row" where
  "fi_refresh new r = (if fi_status r = ''resolved'' then r
     else r\<lparr>fi_last := max (fi_last r) (fi_last new), fi_severity := fi_severity new, fi_evidence := fi_evidence new\<rparr>)"

definition UpsertFinding ::
  "uuid \<Rightarrow> uuid \<Rightarrow> string \<Rightarrow> string \<Rightarrow> string \<Rightarrow> string \<Rightarrow> json_object \<Rightarrow> instant \<Rightarrow> db \<Rightarrow> uuid result \<times> db" where
  "UpsertFinding sc asset assetKind kind severity title evidence at d =
     (if sc \<notin> set (scope_ids d) then (Inl (fk_error ''finding''), d)
      else let new = \<lparr>fi_id = fresh d, fi_scope = sc, fi_asset_kind = assetKind, fi_asset = asset, fi_kind = kind,
                       fi_title = title, fi_severity = severity, fi_evidence = evidence, fi_status = ''open'',
                       fi_first = at, fi_last = at, fi_resolved_at = None\<rparr>
           in (Inr (upsert_id fi_key fi_id new (as_findings (db_assets d))),
               set_assets (as_findings_update (upsert fi_key (fi_refresh new) new)) (drawn d)))"

definition fo_key :: "finding_obs \<Rightarrow> uuid \<times> uuid" where
  "fo_key r = (fo_finding r, fo_run r)"

definition fo_refresh :: "finding_obs \<Rightarrow> finding_obs \<Rightarrow> finding_obs" where
  "fo_refresh new r = r\<lparr>fo_at := fo_at new, fo_severity := fo_severity new, fo_evidence := fo_evidence new\<rparr>"

definition RecordFindingObservation ::
  "uuid \<Rightarrow> uuid \<Rightarrow> string \<Rightarrow> json_object \<Rightarrow> instant \<Rightarrow> db \<Rightarrow> string option \<times> db" where
  "RecordFindingObservation f run severity evidence at d =
     (if f \<notin> fi_id ` set (as_findings (db_assets d)) \<or> run \<notin> run_id ` set (db_runs d)
      then (Some (fk_error ''finding_observation''), d)
      else let new = \<lparr>fo_finding = f, fo_run = run, fo_at = at, fo_severity = severity, fo_evidence = evidence\<rparr>
           in (None, set_assets (as_finding_obs_update (upsert fo_key (fo_refresh new) new)) d))"

definition status_finding :: "string \<Rightarrow> instant \<Rightarrow> finding_row \<Rightarrow> finding_row" where
  "status_finding status now r = r\<lparr>fi_status := status,
     fi_resolved_at := (if status = ''resolved'' then Some now else fi_resolved_at r)\<rparr>"

definition SetFindingStatus :: "uuid \<Rightarrow> string \<Rightarrow> db \<Rightarrow> db" where
  "SetFindingStatus i status d =
     set_assets (as_findings_update (update_where (\<lambda>r. fi_id r = i) (status_finding status (db_now d)))) d"

definition RecordChangeEvent ::
  "uuid \<Rightarrow> uuid option \<Rightarrow> uuid \<Rightarrow> string \<Rightarrow> string \<Rightarrow> uuid \<Rightarrow> json_object \<Rightarrow> json_object \<Rightarrow> db \<Rightarrow> string option \<times> db" where
  "RecordChangeEvent run rt sc kind assetKind asset before after d =
     (if run \<notin> run_id ` set (db_runs d) \<or> dangling rt (map rt_id (db_targets d)) \<or> sc \<notin> set (scope_ids d)
      then (Some (fk_error ''change_event''), d)
      else (None, set_assets (as_events_update (\<lambda>es. es @ [\<lparr>ce_run = run, ce_target = rt, ce_scope = sc, ce_kind = kind,
              ce_asset_kind = assetKind, ce_asset = asset, ce_before = before, ce_after = after, ce_at = db_now d\<rparr>])) d))"

definition ListChangeEvents :: "uuid \<Rightarrow> db \<Rightarrow> change_event list" where
  "ListChangeEvents run d = sort_key ce_at (filter (\<lambda>e. ce_run e = run) (as_events (db_assets d)))"

section \<open>What a later state of the graph keeps\<close>

text \<open>
  The tables as growing tables. A later version of a row has the same key and first sighting; what
  was learnt stays: the sources and the wildcard mark of a name, the enrichment of an address, the
  text fields, header names and cookies of an observation. A resolved finding is not touched at all.
\<close>

definition dn_le :: "domain_row \<Rightarrow> domain_row \<Rightarrow> bool" where
  "dn_le r r' \<longleftrightarrow> seen_le dn_key dn_first dn_last r r' \<and> dn_id r' = dn_id r \<and>
     set (dn_sources r) \<subseteq> set (dn_sources r') \<and> (dn_wildcard r \<longrightarrow> dn_wildcard r')"

definition ip_le :: "ip_row \<Rightarrow> ip_row \<Rightarrow> bool" where
  "ip_le r r' \<longleftrightarrow> seen_le ip_key ip_first ip_last r r' \<and> ip_id r' = ip_id r \<and>
     (ip_ptr r \<noteq> None \<longrightarrow> ip_ptr r' \<noteq> None) \<and> (ip_asn r \<noteq> None \<longrightarrow> ip_asn r' \<noteq> None) \<and>
     (ip_as_org r \<noteq> None \<longrightarrow> ip_as_org r' \<noteq> None) \<and> (ip_as_range r \<noteq> None \<longrightarrow> ip_as_range r' \<noteq> None) \<and>
     (ip_country r \<noteq> None \<longrightarrow> ip_country r' \<noteq> None) \<and> (ip_cloud r \<noteq> None \<longrightarrow> ip_cloud r' \<noteq> None) \<and>
     (ip_shared r \<longrightarrow> ip_shared r')"

definition http_keys :: "json option \<Rightarrow> string set" where
  "http_keys j = (case j of Some (JObj kv) \<Rightarrow> fst ` set kv | _ \<Rightarrow> {})"

definition header_names :: "json option \<Rightarrow> string set" where
  "header_names j = (case j of Some (JObj kv) \<Rightarrow> fst ` set (member_object ''headers'' kv) | _ \<Rightarrow> {})"

definition cookie_names :: "json option \<Rightarrow> string set" where
  "cookie_names j = (case j of Some (JObj kv) \<Rightarrow> set (member_texts ''cookies'' kv) | _ \<Rightarrow> {})"

definition so_le :: "service_obs \<Rightarrow> service_obs \<Rightarrow> bool" where
  "so_le r r' \<longleftrightarrow> so_key r' = so_key r \<and> so_at r' = so_at r \<and> so_worker r' = so_worker r \<and>
     (so_banner r \<noteq> [] \<longrightarrow> so_banner r' \<noteq> []) \<and> (so_product r \<noteq> [] \<longrightarrow> so_product r' \<noteq> []) \<and>
     (so_version r \<noteq> [] \<longrightarrow> so_version r' \<noteq> []) \<and> (so_screenshot r \<noteq> [] \<longrightarrow> so_screenshot r' \<noteq> []) \<and>
     (so_raw r \<noteq> [] \<longrightarrow> so_raw r' \<noteq> []) \<and> (so_tls r \<noteq> None \<longrightarrow> so_tls r' \<noteq> None) \<and>
     http_keys (so_http r) \<subseteq> http_keys (so_http r') \<and> header_names (so_http r) \<subseteq> header_names (so_http r') \<and>
     cookie_names (so_http r) \<subseteq> cookie_names (so_http r')"

definition fi_le :: "finding_row \<Rightarrow> finding_row \<Rightarrow> bool" where
  "fi_le r r' \<longleftrightarrow> seen_le fi_key fi_first fi_last r r' \<and> fi_id r' = fi_id r \<and> fi_status r' = fi_status r \<and>
     (fi_status r = ''resolved'' \<longrightarrow> r' = r)"

text \<open>A technology without a version may be replaced by the same one with a version.\<close>

definition te_le :: "technology \<Rightarrow> technology \<Rightarrow> bool" where
  "te_le r r' \<longleftrightarrow> te_service r' = te_service r \<and> te_name r' = te_name r \<and>
     (te_version r' = te_version r \<and> te_first r' = te_first r \<and> te_last r \<le> te_last r' \<or>
      te_version r = [] \<and> te_version r' \<noteq> [])"

lemma map_of_obj_merge: "map_of (obj_merge a b) k = (case map_of b k of None \<Rightarrow> map_of a k | Some v \<Rightarrow> Some v)"
proof -
  have "map_of (filter (\<lambda>kv. fst kv \<notin> fst ` set b) a) k = (if k \<in> fst ` set b then None else map_of a k)"
    by (induction a) (auto simp: rev_image_eqI)
  moreover have "map_of b k = None \<longleftrightarrow> k \<notin> fst ` set b" by (simp add: map_of_eq_None_iff)
  ultimately show ?thesis
    by (cases "map_of b k"; cases "map_of a k") (simp_all add: obj_merge_def map_add_def)
qed

lemma keys_obj_merge: "fst ` set (obj_merge a b) = fst ` set a \<union> fst ` set b"
proof -
  have "fst ` set (filter (\<lambda>kv. fst kv \<notin> fst ` set b) a) = fst ` set a - fst ` set b" by auto
  then show ?thesis by (simp add: obj_merge_def image_Un)
qed

lemma merge_http_keeps:
  "http_keys j \<subseteq> http_keys (merge_http j n)"
  "header_names j \<subseteq> header_names (merge_http j n)"
  "cookie_names j \<subseteq> cookie_names (merge_http j n)"
proof -
  show "http_keys j \<subseteq> http_keys (merge_http j n)"
    by (auto simp: merge_http_def http_keys_def keys_obj_merge simp del: set_append split: option.split json.split)
  show "header_names j \<subseteq> header_names (merge_http j n)"
  proof (cases "\<exists>p q. j = Some (JObj p) \<and> n = Some (JObj q)")
    case True
    then obtain p q where "j = Some (JObj p)" and "n = Some (JObj q)" by blast
    then show ?thesis
      by (auto simp: merge_http_def header_names_def member_object_def [where j = "obj_merge x y" for x y]
          map_of_obj_merge merge_cookies_def keys_obj_merge)
  next
    case False
    then show ?thesis
      by (auto simp: merge_http_def header_names_def split: option.split json.split)
  qed
  show "cookie_names j \<subseteq> cookie_names (merge_http j n)"
  proof (cases "\<exists>p q. j = Some (JObj p) \<and> n = Some (JObj q)")
    case True
    then obtain p q where "j = Some (JObj p)" and "n = Some (JObj q)" by blast
    moreover have "member_texts ''cookies'' p = []" if "map_of p ''cookies'' = None" using that by (simp add: member_texts_def)
    ultimately show ?thesis
      by (auto simp: merge_http_def cookie_names_def member_texts_def [where j = "obj_merge x y" for x y]
          map_of_obj_merge merge_cookies_def)
  next
    case False
    then show ?thesis
      by (auto simp: merge_http_def cookie_names_def split: option.split json.split)
  qed
qed

interpretation names: growing_table dn_key dn_le dn_refresh
  by unfold_locales (auto simp: dn_le_def seen_le_def dn_refresh_def dn_key_def)

interpretation wild_names: growing_table dn_key dn_le "\<lambda>u::unit. wild_row"
  by unfold_locales (auto simp: dn_le_def seen_le_def wild_row_def dn_key_def)

interpretation addresses: growing_table ip_key ip_le ip_refresh
  by unfold_locales (auto simp: ip_le_def seen_le_def ip_refresh_def ip_key_def)

interpretation enriched: growing_table ip_key ip_le "\<lambda>(p, ao, c, cl, rg, a, s). enrich_row p ao c cl rg a s"
  by unfold_locales (auto simp: ip_le_def seen_le_def enrich_row_def ip_key_def keep_unless_def)

interpretation edges: temporal_table di_key di_first di_last di_refresh
  by unfold_locales (auto simp: di_refresh_def di_key_def)

interpretation dns: temporal_table dr_key dr_first dr_last dr_refresh
  by unfold_locales (auto simp: dr_refresh_def dr_key_def)

interpretation services: temporal_table sv_key sv_first sv_last sv_refresh
  by unfold_locales (auto simp: sv_refresh_def sv_key_def)

interpretation observations: growing_table so_key so_le so_refresh
proof unfold_locales
  show "so_le r (so_refresh n r)" for n r
    using merge_http_keeps [of "so_http r" "so_http n"] by (simp add: so_le_def so_refresh_def so_key_def overwrite_def)
  show "so_le r t" if "so_le r s" and "so_le s t" for r s t
    using that unfolding so_le_def by (elim conjE) (intro conjI; (simp; fail | blast))
qed (simp_all add: so_le_def)

interpretation findings: growing_table fi_key fi_le fi_refresh
  by unfold_locales (auto simp: fi_le_def seen_le_def fi_refresh_def fi_key_def)

interpretation finding_observations: growing_table fo_key "\<lambda>r r'. fo_key r' = fo_key r" fo_refresh
  by unfold_locales (auto simp: fo_refresh_def fo_key_def)

interpretation techs: temporal_table te_key te_first te_last te_refresh
  by unfold_locales (auto simp: te_refresh_def te_key_def)

interpretation touched_techs: temporal_table te_key te_first te_last te_touch
  by unfold_locales (auto simp: te_touch_def te_key_def)

text \<open>The rows of technologies: unique keys, and no versionless row beside a versioned one.\<close>

definition techs_ok :: "technology list \<Rightarrow> bool" where
  "techs_ok rows \<longleftrightarrow> distinct (map te_key rows) \<and>
     (\<forall>r \<in> set rows. te_version r = [] \<longrightarrow> \<not> (\<exists>r' \<in> set rows. versioned (te_service r) (te_name r) r'))"

lemma techs_ok_keys:
  "techs_ok rows \<longleftrightarrow> distinct (map te_key rows) \<and>
     (\<forall>s n v. (s, n, []) \<in> te_key ` set rows \<longrightarrow> (s, n, v) \<in> te_key ` set rows \<longrightarrow> v = [])"
proof -
  have "(\<forall>r \<in> set rows. te_version r = [] \<longrightarrow> \<not> (\<exists>r' \<in> set rows. versioned (te_service r) (te_name r) r')) \<longleftrightarrow>
        (\<forall>s n v. (s, n, []) \<in> te_key ` set rows \<longrightarrow> (s, n, v) \<in> te_key ` set rows \<longrightarrow> v = [])" (is "?A \<longleftrightarrow> ?B")
  proof
    assume ?A
    show ?B
    proof (intro allI impI)
      fix s n v assume "(s, n, []) \<in> te_key ` set rows" and "(s, n, v) \<in> te_key ` set rows"
      then obtain r r' where "r \<in> set rows" "te_key r = (s, n, [])" and "r' \<in> set rows" "te_key r' = (s, n, v)" by auto
      moreover from this have "te_service r' = te_service r" "te_name r' = te_name r" "te_version r = []" "te_version r' = v"
        by (simp_all add: te_key_def)
      ultimately show "v = []" using \<open>?A\<close> unfolding versioned_def by metis
    qed
  next
    assume ?B
    show ?A
    proof (intro ballI impI notI)
      fix r assume r: "r \<in> set rows" "te_version r = []" and "\<exists>r' \<in> set rows. versioned (te_service r) (te_name r) r'"
      then obtain r' where r': "r' \<in> set rows" "versioned (te_service r) (te_name r) r'" by blast
      have "te_key r = (te_service r, te_name r, [])" using r by (simp add: te_key_def)
      with r have "(te_service r, te_name r, []) \<in> te_key ` set rows" by (metis image_eqI)
      moreover have "te_key r' = (te_service r, te_name r, te_version r')" using r' by (simp add: te_key_def versioned_def)
      with r' have "(te_service r, te_name r, te_version r') \<in> te_key ` set rows" by (metis image_eqI)
      ultimately show False using \<open>?B\<close> r'(2) by (auto simp: versioned_def)
    qed
  qed
  then show ?thesis by (simp add: techs_ok_def)
qed

lemma technology_rows_keys:
  "te_key ` set (technology_rows new rows) =
     (if te_version new = [] \<and> (\<exists>r \<in> set rows. versioned (te_service new) (te_name new) r) then te_key ` set rows
      else insert (te_key new) (te_key ` set rows - (if te_version new = [] then {} else {(te_service new, te_name new, [])})))"
proof -
  have filt: "te_key ` {r \<in> set rows. \<not> versionless s n r} = te_key ` set rows - {(s, n, [])}" for s n
    by (auto simp: te_key_def versionless_def)
  have upd: "te_key ` set (update_where p (te_touch t) rows) = te_key ` set rows" for p t
    using touched_techs.update_keys [of p t rows] by (metis set_map)
  show ?thesis by (simp add: technology_rows_def affected_pos techs.upsert_key_set filt upd)
qed

lemma technology_rows_ok: "techs_ok rows \<Longrightarrow> techs_ok (technology_rows new rows)"
proof -
  assume ok: "techs_ok rows"
  then have "distinct (map te_key (filter p rows))" for p by (simp add: techs_ok_def distinct_map_filter)
  with ok have "distinct (map te_key (technology_rows new rows))"
    by (simp add: technology_rows_def touched_techs.update_keys techs.upsert_keys techs_ok_def)
  moreover define K where "K = te_key ` set rows"
  have "(\<exists>r \<in> set rows. versioned s n r) \<longleftrightarrow> (\<exists>v. v \<noteq> [] \<and> (s, n, v) \<in> K)" for s n
    by (auto simp: versioned_def te_key_def K_def)
  moreover obtain s0 n0 v0 where new: "te_key new = (s0, n0, v0)" "te_service new = s0" "te_name new = n0" "te_version new = v0"
    by (simp add: te_key_def)
  moreover have "\<forall>s n v. (s, n, []) \<in> K \<longrightarrow> (s, n, v) \<in> K \<longrightarrow> v = []"
    using ok unfolding techs_ok_keys K_def by blast
  ultimately show ?thesis unfolding techs_ok_keys technology_rows_keys K_def [symmetric] by auto
qed

lemma technology_rows_grown: "grown te_le rows (technology_rows new rows)"
proof -
  have le: "seen_le te_key te_first te_last r r' \<Longrightarrow> te_le r r'" for r r'
    by (auto simp: seen_le_def te_le_def te_key_def)
  have weaken: "grown (seen_le te_key te_first te_last) a b \<Longrightarrow> grown te_le a b" for a b
    unfolding grown_def using le by blast
  let ?s = "te_service new" and ?n = "te_name new"
  let ?old = "filter (\<lambda>r. \<not> versionless ?s ?n r) rows"
  have gone: "\<exists>r' \<in> set (upsert te_key (te_refresh new) new ?old). te_le r r'"
    if v: "te_version new \<noteq> []" and r: "r \<in> set rows" for r
  proof (cases "versionless ?s ?n r")
    case True
    have "te_key new \<in> te_key ` set (upsert te_key (te_refresh new) new ?old)" by (simp add: techs.upsert_key_set)
    then obtain r' where "r' \<in> set (upsert te_key (te_refresh new) new ?old)" "te_key r' = te_key new" by force
    with True v show ?thesis by (intro bexI [of _ r']) (auto simp: te_le_def te_key_def versionless_def)
  next
    case False
    with r have "r \<in> set ?old" by simp
    then show ?thesis using weaken [OF techs.upsert_grown [of ?old new new]] by (simp add: grown_def)
  qed
  show ?thesis
  proof (cases "te_version new = []")
    case True
    then show ?thesis
      using weaken [OF techs.upsert_grown [of rows new new]] weaken [OF touched_techs.update_grown [of rows]]
      by (simp add: technology_rows_def)
  next
    case False
    then show ?thesis using gone by (simp add: technology_rows_def grown_def)
  qed
qed

section \<open>Steps of the graph\<close>

text \<open>
  Every operation above is a step of the graph: rows grow, the unique keys and the rule for
  technologies are kept, and the rest of the database is as it was.
\<close>

definition outside :: "db \<Rightarrow> db" where
  "outside d = d\<lparr>db_domains := [], db_ips := [], db_domain_ips := [], db_assets := no_assets, db_drawn := 0\<rparr>"

definition asset_since :: "db \<Rightarrow> db \<Rightarrow> bool" where
  "asset_since d d' \<longleftrightarrow> grown dn_le (db_domains d) (db_domains d') \<and> grown ip_le (db_ips d) (db_ips d') \<and>
     grown (seen_le di_key di_first di_last) (db_domain_ips d) (db_domain_ips d') \<and>
     grown (seen_le dr_key dr_first dr_last) (as_dns (db_assets d)) (as_dns (db_assets d')) \<and>
     grown (seen_le sv_key sv_first sv_last) (as_services (db_assets d)) (as_services (db_assets d')) \<and>
     grown so_le (as_observations (db_assets d)) (as_observations (db_assets d')) \<and>
     grown te_le (as_technologies (db_assets d)) (as_technologies (db_assets d')) \<and>
     grown fi_le (as_findings (db_assets d)) (as_findings (db_assets d'))"

definition assets_ok :: "db \<Rightarrow> bool" where
  "assets_ok d \<longleftrightarrow> distinct (map dn_key (db_domains d)) \<and> distinct (map ip_key (db_ips d)) \<and>
     distinct (map di_key (db_domain_ips d)) \<and> distinct (map dr_key (as_dns (db_assets d))) \<and>
     distinct (map sv_key (as_services (db_assets d))) \<and> distinct (map so_key (as_observations (db_assets d))) \<and>
     techs_ok (as_technologies (db_assets d)) \<and> distinct (map fi_key (as_findings (db_assets d))) \<and>
     distinct (map fo_key (as_finding_obs (db_assets d)))"

definition asset_step :: "db \<Rightarrow> db \<Rightarrow> bool" where
  "asset_step d d' \<longleftrightarrow> outside d' = outside d \<and> db_drawn d \<le> db_drawn d' \<and> asset_since d d' \<and> (assets_ok d \<longrightarrow> assets_ok d')"

lemma te_le_trans: "te_le r s \<Longrightarrow> te_le s t \<Longrightarrow> te_le r t"
  unfolding te_le_def by auto

lemma grown_te_le [simp]: "grown te_le rows rows"
  by (auto simp: grown_def te_le_def)

lemma grown_te_le_trans: "grown te_le a b \<Longrightarrow> grown te_le b c \<Longrightarrow> grown te_le a c"
  unfolding grown_def by (meson te_le_trans)

lemmas grown_refls = names.grown_refl addresses.grown_refl edges.grown_refl dns.grown_refl services.grown_refl
  observations.grown_refl findings.grown_refl

lemma asset_step_refl [simp]: "asset_step d d"
  by (simp add: asset_step_def asset_since_def grown_refls)

lemma asset_step_trans: "asset_step d d1 \<Longrightarrow> asset_step d1 d2 \<Longrightarrow> asset_step d d2"
proof -
  assume 1: "asset_step d d1" and 2: "asset_step d1 d2"
  have "asset_since d d2" using 1 2 unfolding asset_step_def asset_since_def
    by (intro conjI; elim conjE)
      (rule names.grown_trans addresses.grown_trans edges.grown_trans dns.grown_trans services.grown_trans
        observations.grown_trans findings.grown_trans grown_te_le_trans; assumption)+
  with 1 2 show ?thesis unfolding asset_step_def by auto
qed

lemma drawn_step: "asset_step d (drawn d)"
  by (simp add: asset_step_def asset_since_def grown_refls outside_def assets_ok_def drawn_def)

lemma outside_sel:
  "outside (drawn d) = outside d" "outside (d\<lparr>db_domains := a\<rparr>) = outside d" "outside (d\<lparr>db_ips := b\<rparr>) = outside d"
  "outside (d\<lparr>db_domain_ips := c\<rparr>) = outside d" "outside (d\<lparr>db_assets := g\<rparr>) = outside d"
  by (simp_all add: outside_def drawn_def)

lemmas step_defs = asset_step_def asset_since_def assets_ok_def outside_sel grown_refls set_assets_def Let_def

lemma names_step:
  assumes "grown dn_le (db_domains d) rows" and "distinct (map dn_key (db_domains d)) \<Longrightarrow> distinct (map dn_key rows)"
  shows "asset_step d (d\<lparr>db_domains := rows\<rparr>)"
  using assms by (simp add: step_defs)

lemma addresses_step:
  assumes "grown ip_le (db_ips d) rows" and "distinct (map ip_key (db_ips d)) \<Longrightarrow> distinct (map ip_key rows)"
  shows "asset_step d (d\<lparr>db_ips := rows\<rparr>)"
  using assms by (simp add: step_defs)

lemma graph_step:
  assumes "grown (seen_le dr_key dr_first dr_last) (as_dns (db_assets d)) (as_dns (f (db_assets d)))"
    and "grown (seen_le sv_key sv_first sv_last) (as_services (db_assets d)) (as_services (f (db_assets d)))"
    and "grown so_le (as_observations (db_assets d)) (as_observations (f (db_assets d)))"
    and "grown te_le (as_technologies (db_assets d)) (as_technologies (f (db_assets d)))"
    and "grown fi_le (as_findings (db_assets d)) (as_findings (f (db_assets d)))"
    and "assets_ok d \<Longrightarrow> assets_ok (set_assets f d)"
  shows "asset_step d (set_assets f d)"
  using assms by (simp add: step_defs)

lemma edges_step:
  assumes "grown (seen_le di_key di_first di_last) (db_domain_ips d) rows"
    and "distinct (map di_key (db_domain_ips d)) \<Longrightarrow> distinct (map di_key rows)"
  shows "asset_step d (d\<lparr>db_domain_ips := rows\<rparr>)"
  using assms by (simp add: step_defs)

lemma UpsertDomain_step: "UpsertDomain sc name apex source at d = (r, d') \<Longrightarrow> asset_step d d'"
  unfolding UpsertDomain_def Let_def
  by (auto split: if_splits intro!: asset_step_trans [OF drawn_step names_step] names.upsert_grown names.upsert_keys)

lemma UpsertIP_step: "UpsertIP sc addr at d = (r, d') \<Longrightarrow> asset_step d d'"
  unfolding UpsertIP_def Let_def
  by (auto split: if_splits option.splits
      intro!: asset_step_trans [OF drawn_step addresses_step] addresses.upsert_grown addresses.upsert_keys)

lemma EnrichIP_step: "asset_step d (EnrichIP i ptr asOrg country cloud asRange asn shared d)"
  using enriched.update_grown [of "db_ips d" _ "(ptr, asOrg, country, cloud, asRange, asn, shared)"]
    enriched.update_keys [of _ "(ptr, asOrg, country, cloud, asRange, asn, shared)" "db_ips d"]
  by (auto simp: EnrichIP_def intro!: addresses_step)

lemma UpsertDNSRecord_step: "UpsertDNSRecord dm rtype value ttl at d = (e, d') \<Longrightarrow> asset_step d d'"
  by (simp add: UpsertDNSRecord_def Let_def split: if_splits; elim conjE; hypsubst; intro graph_step)
    (simp_all add: grown_refls dns.upsert_grown dns.upsert_keys assets_ok_def set_assets_def)

lemma wildcard_records_step: "wildcard_records i as at d = (e, d') \<Longrightarrow> asset_step d d'"
proof (induction as arbitrary: d)
  case (Cons a as)
  show ?case
  proof (cases "a = []")
    case False
    obtain e1 d1 where 1: "UpsertDNSRecord i ''WILDCARD'' a 0 at d = (e1, d1)" by (cases "UpsertDNSRecord i ''WILDCARD'' a 0 at d")
    with Cons False UpsertDNSRecord_step [OF 1] show ?thesis by (cases e1) (auto intro: asset_step_trans)
  qed (use Cons in simp)
qed simp

lemma MarkWildcard_step: "MarkWildcard sc name apex ips at d = (e, d') \<Longrightarrow> asset_step d d'"
proof -
  assume m: "MarkWildcard sc name apex ips at d = (e, d')"
  obtain r d1 where 1: "UpsertDomain sc name apex ''wildcard-probe'' at d = (r, d1)"
    by (cases "UpsertDomain sc name apex ''wildcard-probe'' at d")
  have wild: "asset_step d1 (d1\<lparr>db_domains := update_where p wild_row (db_domains d1)\<rparr>)" for p
    using wild_names.update_grown wild_names.update_keys by (auto intro!: names_step)
  show ?thesis
  proof (cases r)
    case (Inl x)
    with m 1 UpsertDomain_step [OF 1] show ?thesis by (simp add: MarkWildcard_def)
  next
    case (Inr i)
    with m 1 have "wildcard_records i ips at (d1\<lparr>db_domains := update_where (\<lambda>r. dn_id r = i) wild_row (db_domains d1)\<rparr>) = (e, d')"
      by (simp add: MarkWildcard_def)
    from asset_step_trans [OF asset_step_trans [OF UpsertDomain_step [OF 1] wild] wildcard_records_step [OF this]]
    show ?thesis .
  qed
qed

lemma LinkDomainIP_step: "LinkDomainIP dm ip via at d = (e, d') \<Longrightarrow> asset_step d d'"
  unfolding LinkDomainIP_def Let_def
  by (auto split: if_splits intro!: edges_step edges.upsert_grown edges.upsert_keys)

lemma RecordDomainIPObservation_step: "asset_step d (snd (RecordDomainIPObservation dm ip run at d))"
  unfolding RecordDomainIPObservation_def
  by (simp split: if_split; intro impI graph_step) (simp_all add: grown_refls assets_ok_def set_assets_def)

lemma UpsertService_step: "UpsertService ip port proto state at d = (r, d') \<Longrightarrow> asset_step d d'"
  by (simp add: UpsertService_def Let_def split: if_splits; elim conjE; hypsubst; rule asset_step_trans [OF drawn_step graph_step])
    (simp_all add: grown_refls services.upsert_grown services.upsert_keys assets_ok_def set_assets_def)

lemma UpsertServiceObservation_step: "UpsertServiceObservation svc run w s d = (e, d') \<Longrightarrow> asset_step d d'"
  by (simp add: UpsertServiceObservation_def Let_def split: if_splits; elim conjE; hypsubst; intro graph_step)
    (simp_all add: grown_refls observations.upsert_grown observations.upsert_keys assets_ok_def set_assets_def)

lemma UpsertTechnology_step: "UpsertTechnology svc name version cpe confidence at d = (e, d') \<Longrightarrow> asset_step d d'"
  by (simp add: UpsertTechnology_def Let_def split: if_splits; elim conjE; hypsubst; intro graph_step)
    (simp_all add: grown_refls technology_rows_grown technology_rows_ok assets_ok_def set_assets_def)

lemma UpsertFinding_step: "UpsertFinding sc asset ak kind severity title evidence at d = (r, d') \<Longrightarrow> asset_step d d'"
  by (simp add: UpsertFinding_def Let_def split: if_splits; elim conjE; hypsubst; rule asset_step_trans [OF drawn_step graph_step])
    (simp_all add: grown_refls findings.upsert_grown findings.upsert_keys assets_ok_def set_assets_def)

lemma RecordFindingObservation_step: "asset_step d (snd (RecordFindingObservation f run severity evidence at d))"
  unfolding RecordFindingObservation_def Let_def
  by (simp split: if_split; intro impI graph_step) (simp_all add: grown_refls finding_observations.upsert_keys assets_ok_def set_assets_def)

end
