(* ===== verification/Scopes.thy ===== *)
theory Scopes
  imports AuthHttp Assets WorkerStore
begin

text \<open>
  Companies in the database: \<^verbatim>\<open>scope.go\<close> and \<^verbatim>\<open>targetgroup.go\<close> of \<^verbatim>\<open>internal/store\<close>, with the access
  rule \<^verbatim>\<open>scope_visible\<close> of migration 00039. Deleting a company carries out the cascade of its foreign
  keys.
\<close>

section \<open>Companies\<close>

text \<open>A company as it is read: its row, the name of its owner and the number of its members.\<close>

type_synonym scope_view = "scope_row \<times> string \<times> nat"

definition members :: "uuid \<Rightarrow> db \<Rightarrow> scope_member list" where
  "members sc d = filter (\<lambda>m. mb_scope m = sc) (ac_members (db_accounts d))"

definition view_scope :: "db \<Rightarrow> scope_row \<Rightarrow> scope_view" where
  "view_scope d s = (s,
     (case sco_owner s of None \<Rightarrow> [] | Some i \<Rightarrow>
        (case find (\<lambda>u. us_id u = i) (users d) of None \<Rightarrow> [] | Some u \<Rightarrow> us_name u)),
     length (members (sco_id s) d))"

definition CreateScope :: "string \<Rightarrow> string \<Rightarrow> uuid option \<Rightarrow> string \<Rightarrow> db \<Rightarrow> scope_view result \<times> db" where
  "CreateScope name createdBy owner visibility d =
     (let s = \<lparr>sco_id = fresh d, sco_name = name, sco_created_by = (if createdBy = [] then ''local'' else createdBy),
                sco_created_at = db_now d, sco_exit = [], sco_vpn = None, sco_pool = None,
                sco_visibility = (if visibility \<noteq> ''private'' then ''shared'' else visibility), sco_owner = owner\<rparr>
      in if dangling owner (map us_id (users d)) then (Inl (fk_error ''scope''), d)
         else (Inr (view_scope d s), (drawn d)\<lparr>db_scopes := db_scopes d @ [s]\<rparr>))"

definition set_scope :: "uuid \<Rightarrow> (scope_row \<Rightarrow> scope_row) \<Rightarrow> db \<Rightarrow> db" where
  "set_scope i f d = d\<lparr>db_scopes := update_where (\<lambda>s. sco_id s = i) f (db_scopes d)\<rparr>"

definition RenameScope :: "uuid \<Rightarrow> string \<Rightarrow> db \<Rightarrow> bool \<times> db" where
  "RenameScope i name d = (0 < affected (\<lambda>s. sco_id s = i) (db_scopes d), set_scope i (\<lambda>s. s\<lparr>sco_name := name\<rparr>) d)"

text \<open>The access rule.\<close>

definition scope_visible :: "uuid \<Rightarrow> uuid \<Rightarrow> db \<Rightarrow> bool" where
  "scope_visible sc uid d \<longleftrightarrow> (\<exists>s \<in> set (db_scopes d). sco_id s = sc \<and>
     (sco_visibility s = ''shared'' \<or> sco_owner s = Some uid \<or>
      (\<exists>m \<in> set (ac_members (db_accounts d)). mb_scope m = sco_id s \<and> mb_user m = uid) \<or>
      (sco_owner s = None \<and> (\<exists>u \<in> set (users d). us_id u = uid \<and> us_role u = RoleAdmin))))"

definition ListScopes :: "string \<Rightarrow> uuid \<Rightarrow> db \<Rightarrow> scope_view list" where
  "ListScopes owner viewer d = map (view_scope d) (sort_key sco_created_at
     (filter (\<lambda>s. (owner = [] \<or> sco_created_by s = owner) \<and> scope_visible (sco_id s) viewer d) (db_scopes d)))"

definition GetScope :: "uuid \<Rightarrow> db \<Rightarrow> scope_view result" where
  "GetScope i d = (case find (\<lambda>s. sco_id s = i) (db_scopes d) of None \<Rightarrow> Inl no_rows | Some s \<Rightarrow> Inr (view_scope d s))"

definition SetScopeDefaults :: "uuid \<Rightarrow> string \<Rightarrow> uuid option \<Rightarrow> uuid option \<Rightarrow> db \<Rightarrow> unit result \<times> db" where
  "SetScopeDefaults i via vpn pool d =
     (if (\<exists>s \<in> set (db_scopes d). sco_id s = i) \<and> (dangling vpn (map vc_id (db_vpns d)) \<or> dangling pool (map p_id (db_pools d)))
      then (Inl (fk_error ''scope''), d)
      else (Inr (), set_scope i (\<lambda>s. s\<lparr>sco_exit := via, sco_vpn := vpn, sco_pool := pool\<rparr>) d))"

definition ScopeVisibleTo :: "uuid \<Rightarrow> uuid \<Rightarrow> db \<Rightarrow> bool" where
  "ScopeVisibleTo sc uid d = scope_visible sc uid d"

definition SetScopeVisibility :: "uuid \<Rightarrow> string \<Rightarrow> db \<Rightarrow> unit result \<times> db" where
  "SetScopeVisibility i visibility d =
     (if (\<exists>s \<in> set (db_scopes d). sco_id s = i) \<and> visibility \<notin> {''shared'', ''private''} then (Inl ''scope: constraint'', d)
      else (Inr (), set_scope i (\<lambda>s. s\<lparr>sco_visibility := visibility\<rparr>) d))"

definition ScopeMembers :: "uuid \<Rightarrow> db \<Rightarrow> (scope_member \<times> app_user) list" where
  "ScopeMembers sc d = sort_key (\<lambda>e. ToLower (us_name (snd e)))
     (filter (\<lambda>(m, u). us_id u = mb_user m) (List.product (members sc d) (users d)))"

definition AddScopeMember :: "uuid \<Rightarrow> uuid \<Rightarrow> string \<Rightarrow> db \<Rightarrow> unit result \<times> db" where
  "AddScopeMember sc uid addedBy d =
     (if \<exists>m \<in> set (members sc d). mb_user m = uid then (Inr (), d)
      else if sc \<notin> sco_id ` set (db_scopes d) \<or> uid \<notin> us_id ` set (users d) then (Inl (fk_error ''scope_member''), d)
      else (Inr (), set_accounts (ac_members_update (\<lambda>ms. ms @
        [\<lparr>mb_scope = sc, mb_user = uid, mb_added_by = addedBy, mb_created_at = db_now d\<rparr>])) d))"

definition RemoveScopeMember :: "uuid \<Rightarrow> uuid \<Rightarrow> db \<Rightarrow> bool \<times> db" where
  "RemoveScopeMember sc uid d = (0 < affected (\<lambda>m. mb_user m = uid) (members sc d),
     set_accounts (ac_members_update (filter (\<lambda>m. \<not> (mb_scope m = sc \<and> mb_user m = uid)))) d)"

section \<open>What a company owns\<close>

record scope_footprint =
  sf_name :: string
  sf_groups :: nat
  sf_targets :: nat
  sf_names :: nat
  sf_hosts :: nat
  sf_services :: nat
  sf_runs :: nat
  sf_active_runs :: nat
  sf_findings :: nat
  sf_screenshots :: nat
  sf_schedules :: nat
  sf_channels :: nat
  sf_live_fleets :: nat

definition runs_of :: "uuid \<Rightarrow> db \<Rightarrow> uuid set" where
  "runs_of sc d = run_id ` set (filter (\<lambda>r. run_scope r = sc) (db_runs d))"

definition ips_of :: "uuid \<Rightarrow> db \<Rightarrow> uuid set" where
  "ips_of sc d = ip_id ` set (filter (\<lambda>i. ip_scope i = sc) (db_ips d))"

definition uploaded :: "string \<Rightarrow> bool" where
  "uploaded k \<longleftrightarrow> k \<noteq> [] \<and> str_index k ''(not uploaded'' = None"

definition ScopeFootprint :: "uuid \<Rightarrow> db \<Rightarrow> scope_footprint option" where
  "ScopeFootprint sc d = (case find (\<lambda>s. sco_id s = sc) (db_scopes d) of None \<Rightarrow> None
   | Some s \<Rightarrow> Some \<lparr>sf_name = sco_name s,
       sf_groups = affected (\<lambda>g. tgr_scope g = sc) (db_groups d),
       sf_targets = affected (\<lambda>t. st_scope t = sc) (db_scope_targets d),
       sf_names = affected (\<lambda>x. dn_scope x = sc) (db_domains d),
       sf_hosts = affected (\<lambda>x. ip_scope x = sc) (db_ips d),
       sf_services = affected (\<lambda>v. sv_ip v \<in> ips_of sc d) (as_services (db_assets d)),
       sf_runs = affected (\<lambda>r. run_scope r = sc) (db_runs d),
       sf_active_runs = affected (\<lambda>r. run_scope r = sc \<and> run_status r \<in> {RunQueued, RunPlanning, RunRunning, RunPaused}) (db_runs d),
       sf_findings = affected (\<lambda>f. fi_scope f = sc) (as_findings (db_assets d)),
       sf_screenshots = affected (\<lambda>x. so_run x \<in> runs_of sc d \<and> uploaded (so_screenshot x)) (as_observations (db_assets d)),
       sf_schedules = affected (\<lambda>x. sc_scope x = sc) (db_schedules d),
       sf_channels = affected (\<lambda>x. nc_scope x = sc) (no_channels (db_notices d)),
       sf_live_fleets = affected (\<lambda>f. rf_run f \<in> runs_of sc d \<and> rf_status f \<in> {''requested'', ''up''}) (db_fleets d)\<rparr>)"

text \<open>\<^verbatim>\<open>UNION\<close> keeps each key once; the order of the keys is not specified by the query.\<close>

definition ScopeArtifactKeys :: "uuid \<Rightarrow> db \<Rightarrow> string list" where
  "ScopeArtifactKeys sc d = (let os = filter (\<lambda>x. so_run x \<in> runs_of sc d) (as_observations (db_assets d))
     in remdups (filter uploaded (map so_screenshot os @ map so_raw os)))"

section \<open>Deleting a company\<close>

definition delete_assets :: "uuid \<Rightarrow> db \<Rightarrow> db" where
  "delete_assets sc d =
     (let dom_gone = (\<lambda>i. \<exists>x \<in> set (db_domains d). dn_scope x = sc \<and> dn_id x = i);
          ip_gone = (\<lambda>i. \<exists>x \<in> set (db_ips d). ip_scope x = sc \<and> ip_id x = i);
          sv_gone = (\<lambda>i. \<exists>x \<in> set (as_services (db_assets d)). ip_gone (sv_ip x) \<and> sv_id x = i);
          fi_gone = (\<lambda>i. \<exists>x \<in> set (as_findings (db_assets d)). fi_scope x = sc \<and> fi_id x = i)
      in d\<lparr>db_domains := filter (\<lambda>x. dn_scope x \<noteq> sc) (db_domains d),
           db_ips := filter (\<lambda>x. ip_scope x \<noteq> sc) (db_ips d),
           db_domain_ips := filter (\<lambda>x. \<not> dom_gone (di_domain x) \<and> \<not> ip_gone (di_ip x)) (db_domain_ips d),
           db_assets := (db_assets d)\<lparr>
             as_dns := filter (\<lambda>x. \<not> dom_gone (dr_domain x)) (as_dns (db_assets d)),
             as_services := filter (\<lambda>x. \<not> ip_gone (sv_ip x)) (as_services (db_assets d)),
             as_observations := filter (\<lambda>x. \<not> sv_gone (so_service x)) (as_observations (db_assets d)),
             as_technologies := filter (\<lambda>x. \<not> sv_gone (te_service x)) (as_technologies (db_assets d)),
             as_findings := filter (\<lambda>x. fi_scope x \<noteq> sc) (as_findings (db_assets d)),
             as_finding_obs := filter (\<lambda>x. \<not> fi_gone (fo_finding x)) (as_finding_obs (db_assets d)),
             as_name_obs := filter (\<lambda>x. \<not> dom_gone (fst (fst x)) \<and> \<not> ip_gone (fst (snd (fst x)))) (as_name_obs (db_assets d)),
             as_events := filter (\<lambda>x. ce_scope x \<noteq> sc) (as_events (db_assets d))\<rparr>\<rparr>)"

definition delete_channels :: "(notification_channel \<Rightarrow> bool) \<Rightarrow> db \<Rightarrow> db" where
  "delete_channels p d = (let gone = (\<lambda>i. \<exists>c \<in> set (no_channels (db_notices d)). p c \<and> nc_id c = i)
     in d\<lparr>db_notices := (db_notices d)\<lparr>no_channels := filter (\<lambda>c. \<not> p c) (no_channels (db_notices d)),
          no_deliveries := filter (\<lambda>x. \<not> gone (nd_channel x)) (no_deliveries (db_notices d))\<rparr>\<rparr>)"

definition DeleteScope :: "uuid \<Rightarrow> db \<Rightarrow> bool \<times> db" where
  "DeleteScope sc d =
     (if \<not> (\<exists>s \<in> set (db_scopes d). sco_id s = sc) then (False, d)
      else let d1 = delete_channels (\<lambda>c. nc_scope c = sc) (delete_assets sc (delete_runs (\<lambda>i. i \<in> runs_of sc d) d))
           in (True, set_accounts (ac_members_update (filter (\<lambda>m. mb_scope m \<noteq> sc)))
                (d1\<lparr>db_scopes := filter (\<lambda>s. sco_id s \<noteq> sc) (db_scopes d1),
                    db_groups := filter (\<lambda>g. tgr_scope g \<noteq> sc) (db_groups d1),
                    db_scope_targets := filter (\<lambda>t. st_scope t \<noteq> sc) (db_scope_targets d1),
                    db_schedules := filter (\<lambda>x. sc_scope x \<noteq> sc) (db_schedules d1)\<rparr>)))"

record scope_summary =
  su_domains :: nat
  su_resolving :: nat
  su_ips :: nat
  su_services :: nat
  su_findings :: nat

definition Summary :: "uuid \<Rightarrow> db \<Rightarrow> scope_summary" where
  "Summary sc d = \<lparr>su_domains = affected (\<lambda>x. dn_scope x = sc) (db_domains d),
     su_resolving = affected (\<lambda>x. dn_scope x = sc \<and> (\<exists>e \<in> set (db_domain_ips d). di_domain e = dn_id x)) (db_domains d),
     su_ips = affected (\<lambda>x. ip_scope x = sc) (db_ips d),
     su_services = affected (\<lambda>v. sv_ip v \<in> ips_of sc d) (as_services (db_assets d)),
     su_findings = affected (\<lambda>f. fi_scope f = sc \<and> fi_status f = ''open'') (as_findings (db_assets d))\<rparr>"

section \<open>Targets\<close>

definition tgt_key :: "scope_target \<Rightarrow> uuid option \<times> string \<times> string" where
  "tgt_key t = (st_group t, st_kind t, st_value t)"

definition tgt_refresh :: "scope_target \<Rightarrow> scope_target \<Rightarrow> scope_target" where
  "tgt_refresh n t = t\<lparr>st_tags := st_tags n, st_mode := st_mode n, st_pool := st_pool n,
     st_authorized_by := st_authorized_by n, st_authorized_at := st_authorized_at n\<rparr>"

text \<open>\<open>AddTarget\<close> answers the target it was given, with the identifier and creation time of the stored row.\<close>

definition AddTarget :: "scope_target \<Rightarrow> db \<Rightarrow> scope_target result \<times> db" where
  "AddTarget t d =
     (let n = t\<lparr>st_id := fresh d, st_created_at := db_now d\<rparr>
      in if st_scope t \<notin> sco_id ` set (db_scopes d) \<or> st_group t = None \<or> dangling (st_group t) (map tgr_id (db_groups d)) \<or>
            dangling (st_pool t) (map p_id (db_pools d)) then (Inl (fk_error ''scope_target''), d)
         else (Inr (case find (\<lambda>x. tgt_key x = tgt_key n) (db_scope_targets d) of
                 None \<Rightarrow> n | Some x \<Rightarrow> t\<lparr>st_id := st_id x, st_created_at := st_created_at x\<rparr>),
               (drawn d)\<lparr>db_scope_targets := upsert tgt_key (tgt_refresh n) n (db_scope_targets d)\<rparr>))"

definition GetTarget :: "uuid \<Rightarrow> uuid \<Rightarrow> db \<Rightarrow> scope_target option" where
  "GetTarget sc i d = find (\<lambda>t. st_id t = i \<and> st_scope t = sc) (db_scope_targets d)"

definition ErrTargetExists :: string where
  "ErrTargetExists = ''that value is already a target of this company''"

definition tgt_edit :: "string \<Rightarrow> string \<Rightarrow> target_mode \<Rightarrow> string list \<Rightarrow> string option \<Rightarrow> instant option \<Rightarrow> scope_target \<Rightarrow> scope_target" where
  "tgt_edit kind value mode tags authBy authAt t = t\<lparr>st_kind := kind, st_value := value, st_mode := mode, st_tags := tags,
     st_authorized_by := authBy, st_authorized_at := authAt\<rparr>"

definition UpdateTarget ::
  "uuid \<Rightarrow> uuid \<Rightarrow> string \<Rightarrow> string \<Rightarrow> target_mode \<Rightarrow> string list \<Rightarrow> string option \<Rightarrow> instant option \<Rightarrow> db \<Rightarrow>
   scope_target option result \<times> db" where
  "UpdateTarget sc i kind value mode tags authBy authAt d = (case GetTarget sc i d of
     None \<Rightarrow> (Inr None, d)
   | Some t \<Rightarrow>
       (let n = tgt_edit kind value mode tags authBy authAt t
        in if \<exists>x \<in> set (db_scope_targets d). st_id x \<noteq> i \<and> tgt_key x = tgt_key n then (Inl ErrTargetExists, d)
           else (Inr (Some n), d\<lparr>db_scope_targets :=
             update_where (\<lambda>x. st_id x = i \<and> st_scope x = sc) (tgt_edit kind value mode tags authBy authAt) (db_scope_targets d)\<rparr>)))"

definition DeleteTarget :: "uuid \<Rightarrow> uuid \<Rightarrow> db \<Rightarrow> bool \<times> db" where
  "DeleteTarget sc i d = (0 < affected (\<lambda>t. st_id t = i \<and> st_scope t = sc) (db_scope_targets d),
     d\<lparr>db_scope_targets := filter (\<lambda>t. \<not> (st_id t = i \<and> st_scope t = sc)) (db_scope_targets d)\<rparr>)"

section \<open>Target groups\<close>

definition ErrGroupExists :: string where
  "ErrGroupExists = ''a group with that name already exists in this company''"

definition groupAuthorized :: "scope_target list \<Rightarrow> bool" where
  "groupAuthorized ts \<longleftrightarrow> ts \<noteq> [] \<and> list_all Authorized ts"

text \<open>A group as it is read: its row, its entries and whether all of it is authorized.\<close>

type_synonym group_view = "target_group \<times> scope_target list \<times> bool"

definition view_group :: "db \<Rightarrow> target_group \<Rightarrow> group_view" where
  "view_group d g = (let ts = filter (\<lambda>t. st_group t = Some (tgr_id g)) (ListTargets (tgr_scope g) [] d)
     in (g, ts, groupAuthorized ts))"

definition ListTargetGroups :: "uuid \<Rightarrow> db \<Rightarrow> group_view list" where
  "ListTargetGroups sc d = map (view_group d) (sort_key (\<lambda>g. (tgr_created_at g, tgr_name g)) (filter (\<lambda>g. tgr_scope g = sc) (db_groups d)))"

definition GetTargetGroup :: "uuid \<Rightarrow> uuid \<Rightarrow> db \<Rightarrow> group_view option" where
  "GetTargetGroup sc i d = map_option (view_group d) (find (\<lambda>g. tgr_id g = i \<and> tgr_scope g = sc) (db_groups d))"

definition CreateTargetGroup :: "uuid \<Rightarrow> string \<Rightarrow> db \<Rightarrow> target_group result \<times> db" where
  "CreateTargetGroup sc name d =
     (let g = \<lparr>tgr_id = fresh d, tgr_scope = sc, tgr_name = name, tgr_created_at = db_now d\<rparr>
      in if \<exists>x \<in> set (db_groups d). tgr_scope x = sc \<and> tgr_name x = name then (Inl ErrGroupExists, d)
         else if sc \<notin> sco_id ` set (db_scopes d) then (Inl (fk_error ''target_group''), d)
         else (Inr g, (drawn d)\<lparr>db_groups := db_groups d @ [g]\<rparr>))"

definition EnsureTargetGroup :: "uuid \<Rightarrow> string \<Rightarrow> db \<Rightarrow> uuid result \<times> db" where
  "EnsureTargetGroup sc name d = (case find (\<lambda>x. tgr_scope x = sc \<and> tgr_name x = name) (db_groups d) of
     Some g \<Rightarrow> (Inr (tgr_id g), drawn d)
   | None \<Rightarrow> (case CreateTargetGroup sc name d of
       (Inl e, d1) \<Rightarrow> (Inl e, d1) | (Inr g, d1) \<Rightarrow> (Inr (tgr_id g), d1)))"

definition RenameTargetGroup :: "uuid \<Rightarrow> uuid \<Rightarrow> string \<Rightarrow> db \<Rightarrow> bool result \<times> db" where
  "RenameTargetGroup sc i name d =
     (let mine = (\<lambda>g. tgr_id g = i \<and> tgr_scope g = sc)
      in if (\<exists>g \<in> set (db_groups d). mine g) \<and> (\<exists>x \<in> set (db_groups d). tgr_id x \<noteq> i \<and> tgr_scope x = sc \<and> tgr_name x = name)
         then (Inl ErrGroupExists, d)
         else (Inr (0 < affected mine (db_groups d)), d\<lparr>db_groups := update_where mine (\<lambda>g. g\<lparr>tgr_name := name\<rparr>) (db_groups d)\<rparr>))"

definition DeleteTargetGroup :: "uuid \<Rightarrow> uuid \<Rightarrow> db \<Rightarrow> bool \<times> db" where
  "DeleteTargetGroup sc i d =
     (if \<exists>g \<in> set (db_groups d). tgr_id g = i \<and> tgr_scope g = sc
      then (True, d\<lparr>db_groups := filter (\<lambda>g. tgr_id g \<noteq> i) (db_groups d),
                    db_scope_targets := filter (\<lambda>t. st_group t \<noteq> Some i) (db_scope_targets d)\<rparr>)
      else (False, d))"

definition DeleteGroupTargetsNotIn :: "uuid \<Rightarrow> string list \<Rightarrow> db \<Rightarrow> nat \<times> db" where
  "DeleteGroupTargetsNotIn g keep d = (let dropped = (\<lambda>t. st_group t = Some g \<and> st_value t \<notin> set keep)
     in (affected dropped (db_scope_targets d), d\<lparr>db_scope_targets := filter (\<lambda>t. \<not> dropped t) (db_scope_targets d)\<rparr>))"

definition SetGroupTargets :: "uuid \<Rightarrow> target_mode \<Rightarrow> string list \<Rightarrow> string option \<Rightarrow> instant option \<Rightarrow> db \<Rightarrow> db" where
  "SetGroupTargets g mode tags authBy authAt d = d\<lparr>db_scope_targets := update_where (\<lambda>t. st_group t = Some g)
     (\<lambda>t. t\<lparr>st_mode := mode, st_tags := tags, st_authorized_by := authBy, st_authorized_at := authAt\<rparr>) (db_scope_targets d)\<rparr>"

definition GroupValues :: "uuid \<Rightarrow> uuid list \<Rightarrow> db \<Rightarrow> string list" where
  "GroupValues sc ids d = sort (map st_value (filter (\<lambda>t. st_scope t = sc \<and> (\<exists>g \<in> set ids. st_group t = Some g)) (db_scope_targets d)))"

end
