(* ===== verification/ScopeHttp.thy ===== *)
theory ScopeHttp
  imports Scopes
begin

text \<open>
  The company routes of the user-facing API: who may reach a company (\<^verbatim>\<open>access.go\<close>), the companies
  and their targets (\<^verbatim>\<open>scopes.go\<close>), the target groups (\<^verbatim>\<open>targetgroups.go\<close>) and the helpers of
  \<^verbatim>\<open>util.go\<close>. A body is what it decodes to, \<open>None\<close> when it does not decode; a field that may be absent
  is an option. \<open>url\<close> gives the parameters of the route, as the router does.
\<close>

section \<open>Helpers\<close>

definition actor :: "request \<Rightarrow> string" where
  "actor r = (case rq_identity r of None \<Rightarrow> ''unauthenticated'' | Some i \<Rightarrow> id_username i)"

definition viewerOf :: "request \<Rightarrow> uuid" where
  "viewerOf r = (case userIDOf r of None \<Rightarrow> uuid_Nil | Some i \<Rightarrow> i)"

text \<open>\<^verbatim>\<open>parseUint\<close> fails on the empty string and on anything but digits; its value is not used.\<close>

definition parseUint :: "string \<Rightarrow> nat option" where
  "parseUint s = (if s = [] \<or> \<not> list_all is_digit s then None else Some (digits_val s))"

definition guessKind :: "string \<Rightarrow> string" where
  "guessKind v0 = (let v = TrimSpace v0
     in if HasPrefix (ToUpper v) ''AS'' \<and> parseUint (drop 2 v) \<noteq> None then ''asn''
        else if ParseCIDR v \<noteq> None then ''cidr''
        else if parses_ip v then ''ip''
        else ''domain'')"

fun clean_loop :: "string list \<Rightarrow> string list \<Rightarrow> string list" where
  "clean_loop out [] = out"
| "clean_loop out (v # vs) = (let w = ToLower (TrimSpace v) in clean_loop (if w = [] \<or> w \<in> set out then out else out @ [w]) vs)"

definition cleanValues :: "string list \<Rightarrow> string list" where
  "cleanValues raw = clean_loop [] raw"

section \<open>Who may reach a company\<close>

type_synonym entity_query = "uuid \<Rightarrow> db \<Rightarrow> uuid option"

definition scopeParams :: "(string \<times> entity_query option \<times> string) list" where
  "scopeParams =
     [(''scopeID'', None, ''company''),
      (''runID'', Some (\<lambda>i d. map_option run_scope (find (\<lambda>r. run_id r = i) (db_runs d))), ''run''),
      (''scheduleID'', Some (\<lambda>i d. map_option sc_scope (find (\<lambda>s. sc_id s = i) (db_schedules d))), ''schedule''),
      (''channelID'', Some (\<lambda>i d. map_option nc_scope (find (\<lambda>c. nc_id c = i) (no_channels (db_notices d)))), ''alert channel''),
      (''findingID'', Some (\<lambda>i d. map_option fi_scope (find (\<lambda>f. fi_id f = i) (as_findings (db_assets d)))), ''finding''),
      (''ipID'', Some (\<lambda>i d. map_option ip_scope (find (\<lambda>a. ip_id a = i) (db_ips d))), ''host''),
      (''serviceID'', Some (\<lambda>i d. case find (\<lambda>v. sv_id v = i) (as_services (db_assets d)) of None \<Rightarrow> None
         | Some v \<Rightarrow> map_option ip_scope (find (\<lambda>a. ip_id a = sv_ip v) (db_ips d))), ''service'')]"

definition guardFor ::
  "string \<Rightarrow> (string \<Rightarrow> string) \<Rightarrow> (request \<Rightarrow> db \<Rightarrow> 'a answer \<times> db) \<Rightarrow> request \<Rightarrow> db \<Rightarrow> 'a answer \<times> db" where
  "guardFor pattern url h r d =
     (case find (\<lambda>(param, q, what). str_index pattern (''{'' @ param @ ''}'') \<noteq> None) scopeParams of
        None \<Rightarrow> h r d
      | Some (param, q, what) \<Rightarrow> (case db_uuid_parse d (url param) of
          None \<Rightarrow> (Fail 400 (''bad '' @ what @ '' id''), d)
        | Some i \<Rightarrow> (case (case q of None \<Rightarrow> Some i | Some f \<Rightarrow> f i d) of
            None \<Rightarrow> (Fail 404 (what @ '' not found''), d)
          | Some sc \<Rightarrow> if ScopeVisibleTo sc (viewerOf r) d then h r d else (Fail 404 (what @ '' not found''), d))))"

definition canManageAccess :: "request \<Rightarrow> uuid \<Rightarrow> db \<Rightarrow> bool" where
  "canManageAccess r sc d = (case GetScope sc d of
     Inl e \<Rightarrow> False
   | Inr (s, owner, n) \<Rightarrow> (case sco_owner s of Some o' \<Rightarrow> o' = viewerOf r | None \<Rightarrow> id_role (currentUser r) = RoleAdmin))"

definition scopeAccess :: "uuid \<Rightarrow> request \<Rightarrow> db \<Rightarrow> (scope_view \<times> (scope_member \<times> app_user) list \<times> bool) answer \<times> db" where
  "scopeAccess sc r d = (case GetScope sc d of
     Inl e \<Rightarrow> (Fail 404 ''company not found'', d)
   | Inr v \<Rightarrow> (Ok (v, ScopeMembers sc d, canManageAccess r sc d), d))"

definition only_owner_shares :: string where
  "only_owner_shares = ''only the company's owner decides who it is shared with''"

definition owns_scope :: "uuid \<Rightarrow> uuid \<Rightarrow> db \<Rightarrow> bool" where
  "owns_scope sc uid d = (case GetScope sc d of Inl e \<Rightarrow> False | Inr (s, owner, n) \<Rightarrow> sco_owner s = Some uid)"

definition addScopeMember ::
  "uuid \<Rightarrow> string option \<Rightarrow> request \<Rightarrow> db \<Rightarrow> (scope_view \<times> (scope_member \<times> app_user) list \<times> bool) answer \<times> db" where
  "addScopeMember sc body r d =
     (if \<not> canManageAccess r sc d then (Fail 403 only_owner_shares, d)
      else if body = None \<or> TrimSpace (the body) = [] then (Fail 400 ''username required'', d)
      else case UserByUsername (TrimSpace (the body)) d of
        Inl e \<Rightarrow> (Fail 404 (''no account named \"'' @ TrimSpace (the body) @ ''\"''), d)
      | Inr (u, h) \<Rightarrow>
          (if owns_scope sc (us_id u) d then (Fail 400 (us_name u @ '' owns this company already''), d)
           else case AddScopeMember sc (us_id u) (actor r) d of
             (Inl e, d1) \<Rightarrow> (Fail 500 e, d1)
           | (Inr _, d1) \<Rightarrow> scopeAccess sc r (auditReq r ''scope.share'' (db_uuid_text d sc) d1)))"

definition removeScopeMember :: "uuid \<Rightarrow> uuid option \<Rightarrow> request \<Rightarrow> db \<Rightarrow> bool answer \<times> db" where
  "removeScopeMember sc user r d = (case user of
     None \<Rightarrow> (Fail 400 ''bad user id'', d)
   | Some i \<Rightarrow>
       (if \<not> canManageAccess r sc d \<and> i \<noteq> viewerOf r then (Fail 403 only_owner_shares, d)
        else case RemoveScopeMember sc i d of
          (ok, d1) \<Rightarrow> if \<not> ok then (Fail 404 ''that account does not have access through sharing'', d1)
                      else (Ok True, auditReq r ''scope.unshare'' (db_uuid_text d sc) d1)))"

section \<open>Companies\<close>

definition createScope :: "(string \<times> bool) option \<Rightarrow> request \<Rightarrow> db \<Rightarrow> scope_view answer \<times> db" where
  "createScope body r d = (case body of
     None \<Rightarrow> (Fail 400 ''name required'', d)
   | Some (name, private) \<Rightarrow>
       (if name = [] then (Fail 400 ''name required'', d)
        else if private \<and> userIDOf r = None then (Fail 400 ''a private company needs an account to belong to'', d)
        else case CreateScope name (actor r) (userIDOf r) (if private then ''private'' else ''shared'') d of
          (Inl e, d1) \<Rightarrow> (Fail 500 e, d1)
        | (Inr v, d1) \<Rightarrow> (Ok v, auditReq r ''scope.create'' (db_uuid_text d (sco_id (fst v))) d1)))"

definition scopeFootprint :: "uuid option \<Rightarrow> db \<Rightarrow> scope_footprint answer \<times> db" where
  "scopeFootprint ident d = (case ident of
     None \<Rightarrow> (Fail 400 ''bad scope id'', d)
   | Some sc \<Rightarrow> (case ScopeFootprint sc d of None \<Rightarrow> (Fail 404 ''company not found'', d) | Some f \<Rightarrow> (Ok f, d)))"

text \<open>\<open>del\<close> says whether the object storage removes a key; the answer counts both outcomes.\<close>

definition may_delete_scope :: "request \<Rightarrow> uuid \<Rightarrow> db \<Rightarrow> string option" where
  "may_delete_scope r sc d = (case GetScope sc d of
     Inl e \<Rightarrow> None
   | Inr (s, owner, n) \<Rightarrow>
       if sco_visibility s = ''private''
       then (if canManageAccess r sc d then None else Some ''only the owner of a private company can delete it'')
       else if id_role (currentUser r) \<noteq> RoleAdmin then Some ''deleting a shared company needs the admin role'' else None)"

definition deleteScope :: "(string \<Rightarrow> bool) \<Rightarrow> uuid option \<Rightarrow> request \<Rightarrow> db \<Rightarrow> (nat \<times> nat) answer \<times> db" where
  "deleteScope del ident r d = (case ident of
     None \<Rightarrow> (Fail 400 ''bad scope id'', d)
   | Some sc \<Rightarrow> (case may_delete_scope r sc d of
       Some e \<Rightarrow> (Fail 403 e, d)
     | None \<Rightarrow> (case ScopeFootprint sc d of
         None \<Rightarrow> (Fail 404 ''company not found'', d)
       | Some f \<Rightarrow>
           (if sf_active_runs f > 0 \<or> sf_live_fleets f > 0
            then (Fail 409 ''the company still has a run going; stop it before deleting the company'', d)
            else let keys = ScopeArtifactKeys sc d
                 in case DeleteScope sc d of
                      (ok, d1) \<Rightarrow> if \<not> ok then (Fail 404 ''company not found'', d1)
                        else (Ok (length (filter del keys), length (filter (\<lambda>k. \<not> del k) keys)),
                              auditReq r ''scope.delete'' (db_uuid_text d sc) d1)))))"

definition listScopes :: "bool \<Rightarrow> request \<Rightarrow> db \<Rightarrow> scope_view list answer \<times> db" where
  "listScopes mine r d = (Ok (ListScopes (if mine then actor r else []) (viewerOf r) d), d)"

definition scopeSummary :: "uuid option \<Rightarrow> db \<Rightarrow> scope_summary answer \<times> db" where
  "scopeSummary ident d = (case ident of None \<Rightarrow> (Fail 400 ''bad scope id'', d) | Some sc \<Rightarrow> (Ok (Summary sc d), d))"

section \<open>Targets\<close>

record target_patch =
  tp_value :: "string option"
  tp_mode :: "string option"
  tp_tags :: "string list option"
  tp_authorize :: "bool option"

definition mode_of :: "string \<Rightarrow> target_mode option" where
  "mode_of m = (if m = ''active'' then Some ModeActive else if m = ''passive_only'' then Some ModePassiveOnly
     else if m = ''exclude'' then Some ModeExclude else None)"

text \<open>The authorization a target keeps, gains or loses by an edit.\<close>

definition edited_authorization ::
  "target_mode \<Rightarrow> bool option \<Rightarrow> string \<Rightarrow> instant \<Rightarrow> scope_target \<Rightarrow> string option \<times> instant option" where
  "edited_authorization mode authorize who now cur =
     (if mode \<noteq> ModeActive then (None, None)
      else case authorize of
        Some True \<Rightarrow> (Some who, Some now)
      | Some False \<Rightarrow> (None, None)
      | None \<Rightarrow> (st_authorized_by cur, st_authorized_at cur))"

definition patchTarget :: "uuid option \<Rightarrow> uuid option \<Rightarrow> target_patch option \<Rightarrow> request \<Rightarrow> db \<Rightarrow> scope_target answer \<times> db" where
  "patchTarget scope target body r d = (case scope of
     None \<Rightarrow> (Fail 400 ''bad scope id'', d)
   | Some sc \<Rightarrow> (case target of
       None \<Rightarrow> (Fail 400 ''bad target id'', d)
     | Some i \<Rightarrow> (case body of
         None \<Rightarrow> (Fail 400 ''bad body'', d)
       | Some b \<Rightarrow> (case GetTarget sc i d of
           None \<Rightarrow> (Fail 404 ''target not found in this company'', d)
         | Some cur \<Rightarrow>
             (let v = (case tp_value b of None \<Rightarrow> st_value cur | Some w \<Rightarrow> TrimSpace (ToLower w))
              in if v = [] \<and> tp_value b \<noteq> None then (Fail 400 ''value cannot be empty'', d)
                 else case (case tp_mode b of None \<Rightarrow> Some (st_mode cur) | Some m \<Rightarrow> mode_of m) of
                   None \<Rightarrow> (Fail 400 ''mode must be active, passive_only or exclude'', d)
                 | Some mode \<Rightarrow>
                     (let kind = (if v = st_value cur then st_kind cur else guessKind v);
                          tags = (case tp_tags b of None \<Rightarrow> st_tags cur | Some ts \<Rightarrow> ts);
                          (authBy, authAt) = edited_authorization mode (tp_authorize b) (actor r) (db_now d) cur
                      in case UpdateTarget sc i kind v mode tags authBy authAt d of
                           (Inl e, d1) \<Rightarrow> (Fail (if e = ErrTargetExists then 409 else 500) e, d1)
                         | (Inr None, d1) \<Rightarrow> (Fail 404 ''target not found in this company'', d1)
                         | (Inr (Some t), d1) \<Rightarrow> (Ok t, auditReq r ''target.update'' (db_uuid_text d i) d1)))))))"

definition deleteTarget :: "uuid option \<Rightarrow> uuid option \<Rightarrow> request \<Rightarrow> db \<Rightarrow> bool answer \<times> db" where
  "deleteTarget scope target r d = (case scope of
     None \<Rightarrow> (Fail 400 ''bad scope id'', d)
   | Some sc \<Rightarrow> (case target of
       None \<Rightarrow> (Fail 400 ''bad target id'', d)
     | Some i \<Rightarrow> (case DeleteTarget sc i d of
         (ok, d1) \<Rightarrow> if \<not> ok then (Fail 404 ''target not found in this company'', d1)
                     else (Ok True, auditReq r ''target.delete'' (db_uuid_text d i) d1))))"

text \<open>
  Adding values, to a group or each to a group of its own; the loop stops at the first error, with
  what was stored before it.
\<close>

fun add_values ::
  "uuid \<Rightarrow> uuid option \<Rightarrow> string list \<Rightarrow> target_mode \<Rightarrow> string option \<Rightarrow> instant option \<Rightarrow> string list \<Rightarrow> scope_target list \<Rightarrow> db \<Rightarrow>
   string option \<times> scope_target list \<times> db" where
  "add_values sc g tags mode authBy authAt [] out d = (None, out, d)"
| "add_values sc g tags mode authBy authAt (v # vs) out d =
     (case (case g of Some i \<Rightarrow> (Inr i, d) | None \<Rightarrow> EnsureTargetGroup sc v d) of
        (Inl e, d1) \<Rightarrow> (Some e, out, d1)
      | (Inr gid, d1) \<Rightarrow>
          (case AddTarget \<lparr>st_id = uuid_Nil, st_scope = sc, st_kind = guessKind v, st_value = v, st_tags = tags, st_mode = mode,
                  st_group = Some gid, st_pool = None, st_authorized_by = authBy, st_authorized_at = authAt, st_created_at = 0\<rparr> d1 of
             (Inl e, d2) \<Rightarrow> (Some e, out, d2)
           | (Inr t, d2) \<Rightarrow> add_values sc g tags mode authBy authAt vs (out @ [t]) d2))"

definition addTargetValues ::
  "request \<Rightarrow> uuid \<Rightarrow> uuid option \<Rightarrow> string list \<Rightarrow> string list \<Rightarrow> bool \<Rightarrow> db \<Rightarrow> string option \<times> scope_target list \<times> db" where
  "addTargetValues r sc g values tags authorize d =
     (if authorize then add_values sc g tags ModeActive (Some (actor r)) (Some (db_now d)) values [] d
      else add_values sc g tags ModePassiveOnly None None values [] d)"

record target_input =
  ti_value :: string
  ti_values :: "string list"
  ti_tags :: "string list option"
  ti_mode :: string
  ti_authorize :: bool
  ti_group :: string

fun exclude_all :: "uuid \<Rightarrow> scope_target list \<Rightarrow> db \<Rightarrow> scope_target list \<times> db" where
  "exclude_all sc [] d = ([], d)"
| "exclude_all sc (t # ts) d = (case UpdateTarget sc (st_id t) (st_kind t) (st_value t) ModeExclude (st_tags t) None None d of
     (res, d1) \<Rightarrow> (case exclude_all sc ts d1 of (ts', d2) \<Rightarrow>
       ((case res of Inr (Some t') \<Rightarrow> t' | _ \<Rightarrow> t) # ts', d2)))"

definition addTarget :: "uuid option \<Rightarrow> target_input option \<Rightarrow> request \<Rightarrow> db \<Rightarrow> scope_target list answer \<times> db" where
  "addTarget scope body r d = (case scope of
     None \<Rightarrow> (Fail 400 ''bad scope id'', d)
   | Some sc \<Rightarrow> (case body of
       None \<Rightarrow> (Fail 400 ''bad body'', d)
     | Some b \<Rightarrow>
         (let values = cleanValues (ti_values b @ (if ti_value b \<noteq> [] then [ti_value b] else []));
              authorize = ti_authorize b \<and> (ti_mode b = [] \<or> ti_mode b = ''active'');
              g = TrimSpace (ti_group b);
              (gres, d1) = (if g = [] then (Inr None, d) else case EnsureTargetGroup sc g d of (res, d') \<Rightarrow> (map_sum id Some res, d'))
          in if values = [] then (Fail 400 ''value or values required'', d)
             else case gres of
               Inl e \<Rightarrow> (Fail 500 e, d1)
             | Inr gid \<Rightarrow> (case addTargetValues r sc gid values (case ti_tags b of None \<Rightarrow> [] | Some ts \<Rightarrow> ts) authorize d1 of
                 (Some e, out, d2) \<Rightarrow> (Fail 500 e, d2)
               | (None, out, d2) \<Rightarrow>
                   (case (if ti_mode b = ''exclude'' then exclude_all sc out d2 else (out, d2)) of
                      (out', d3) \<Rightarrow> (Ok out', auditReq r ''target.add'' (db_uuid_text d sc) d3))))))"

definition listTargets :: "uuid option \<Rightarrow> string \<Rightarrow> db \<Rightarrow> scope_target list answer \<times> db" where
  "listTargets scope tag d = (case scope of None \<Rightarrow> (Fail 400 ''bad scope id'', d) | Some sc \<Rightarrow> (Ok (ListTargets sc tag d), d))"

section \<open>Target groups\<close>

record group_input =
  gi_name :: "string option"
  gi_values :: "string list option"
  gi_tags :: "string list option"
  gi_authorize :: "bool option"

definition listTargetGroups :: "uuid option \<Rightarrow> db \<Rightarrow> group_view list answer \<times> db" where
  "listTargetGroups scope d = (case scope of None \<Rightarrow> (Fail 400 ''bad scope id'', d) | Some sc \<Rightarrow> (Ok (ListTargetGroups sc d), d))"

text \<open>A name that is given and is not blank.\<close>

definition given_name :: "string option \<Rightarrow> string option" where
  "given_name n = (case n of None \<Rightarrow> None | Some v \<Rightarrow> if TrimSpace v = [] then None else Some (TrimSpace v))"

text \<open>The group a handler has just written, read back; one that is gone reads as an empty group.\<close>

definition read_back :: "uuid \<Rightarrow> uuid \<Rightarrow> db \<Rightarrow> group_view" where
  "read_back sc i d = (case GetTargetGroup sc i d of Some v \<Rightarrow> v
     | None \<Rightarrow> (\<lparr>tgr_id = uuid_Nil, tgr_scope = uuid_Nil, tgr_name = [], tgr_created_at = 0\<rparr>, [], False))"

definition createTargetGroup :: "uuid option \<Rightarrow> group_input option \<Rightarrow> request \<Rightarrow> db \<Rightarrow> group_view answer \<times> db" where
  "createTargetGroup scope body r d = (case scope of
     None \<Rightarrow> (Fail 400 ''bad scope id'', d)
   | Some sc \<Rightarrow> (case body of
       None \<Rightarrow> (Fail 400 ''bad body'', d)
     | Some b \<Rightarrow> (case cleanValues (case gi_values b of None \<Rightarrow> [] | Some vs \<Rightarrow> vs) of
         [] \<Rightarrow> (Fail 400 ''values required: one domain, IP or CIDR per line'', d)
       | v # vs \<Rightarrow> (case CreateTargetGroup sc (case given_name (gi_name b) of None \<Rightarrow> v | Some n \<Rightarrow> n) d of
           (Inl e, d1) \<Rightarrow> (Fail (if e = ErrGroupExists then 409 else 500) e, d1)
         | (Inr g, d1) \<Rightarrow>
             (case addTargetValues r sc (Some (tgr_id g)) (v # vs) (case gi_tags b of None \<Rightarrow> [] | Some ts \<Rightarrow> ts) (gi_authorize b = Some True) d1 of
                (Some e, out, d2) \<Rightarrow> (Fail 500 e, d2)
              | (None, out, d2) \<Rightarrow> (Ok (read_back sc (tgr_id g) d2), auditReq r ''target_group.create'' (db_uuid_text d (tgr_id g)) d2))))))"

text \<open>
  Editing a group: the mode, the tags and the authorization all of its entries get.
\<close>

definition group_authorization ::
  "group_input \<Rightarrow> string \<Rightarrow> instant \<Rightarrow> scope_target list \<Rightarrow> bool \<Rightarrow> target_mode \<times> string option \<times> instant option" where
  "group_authorization b who now ts authorized =
     (let authorize = (case gi_authorize b of None \<Rightarrow> authorized | Some v \<Rightarrow> v)
      in if \<not> authorize then (ModePassiveOnly, None, None)
         else if authorized \<and> gi_authorize b = None then (ModeActive, st_authorized_by (hd ts), st_authorized_at (hd ts))
         else (ModeActive, Some who, Some now))"

definition edit_entries ::
  "uuid \<Rightarrow> uuid \<Rightarrow> string list option \<Rightarrow> string list \<Rightarrow> bool \<Rightarrow> request \<Rightarrow> db \<Rightarrow> (nat \<times> string) option \<times> db" where
  "edit_entries sc i values tags authorize r d = (case values of
     None \<Rightarrow> (None, d)
   | Some raw \<Rightarrow>
       (let vs = cleanValues raw
        in if vs = [] then (Some (400, ''a group needs at least one entry; remove the group instead''), d)
           else case addTargetValues r sc (Some i) vs tags authorize (snd (DeleteGroupTargetsNotIn i vs d)) of
             (Some e, out, d1) \<Rightarrow> (Some (500, e), d1)
           | (None, out, d1) \<Rightarrow> (None, d1)))"

definition patchTargetGroup ::
  "uuid option \<Rightarrow> uuid option \<Rightarrow> group_input option \<Rightarrow> request \<Rightarrow> db \<Rightarrow> group_view answer \<times> db" where
  "patchTargetGroup scope gident body r d = (case scope of
     None \<Rightarrow> (Fail 400 ''bad scope id'', d)
   | Some sc \<Rightarrow> (case gident of
       None \<Rightarrow> (Fail 400 ''bad group id'', d)
     | Some i \<Rightarrow> (case GetTargetGroup sc i d of
         None \<Rightarrow> (Fail 404 ''group not found in this company'', d)
       | Some (g, ts, authorized) \<Rightarrow> (case body of
           None \<Rightarrow> (Fail 400 ''bad body'', d)
         | Some b \<Rightarrow>
             (let (renamed, d1) = (case given_name (gi_name b) of
                    Some n \<Rightarrow> if n \<noteq> tgr_name g then RenameTargetGroup sc i n d else (Inr True, d)
                  | None \<Rightarrow> (Inr True, d));
                  tags = (case gi_tags b of Some v \<Rightarrow> v | None \<Rightarrow> if ts \<noteq> [] then st_tags (hd ts) else []);
                  (mode, authBy, authAt) = group_authorization b (actor r) (db_now d) ts authorized
              in case renamed of
                   Inl e \<Rightarrow> (Fail (if e = ErrGroupExists then 409 else 500) e, d1)
                 | Inr _ \<Rightarrow> (case edit_entries sc i (gi_values b) tags (mode = ModeActive) r d1 of
                     (Some (status, e), d2) \<Rightarrow> (Fail status e, d2)
                   | (None, d2) \<Rightarrow>
                       (let d3 = SetGroupTargets i mode tags authBy authAt d2
                        in (Ok (read_back sc i d3), auditReq r ''target_group.update'' (db_uuid_text d i) d3))))))))"

definition deleteTargetGroup :: "uuid option \<Rightarrow> uuid option \<Rightarrow> request \<Rightarrow> db \<Rightarrow> bool answer \<times> db" where
  "deleteTargetGroup scope gident r d = (case scope of
     None \<Rightarrow> (Fail 400 ''bad scope id'', d)
   | Some sc \<Rightarrow> (case gident of
       None \<Rightarrow> (Fail 400 ''bad group id'', d)
     | Some i \<Rightarrow> (case DeleteTargetGroup sc i d of
         (ok, d1) \<Rightarrow> if \<not> ok then (Fail 404 ''group not found in this company'', d1)
                     else (Ok True, auditReq r ''target_group.delete'' (db_uuid_text d i) d1))))"

end
