(* ===== verification/ScopeProps.thy ===== *)
theory ScopeProps
  imports ScopeHttp
begin

text \<open>
  What the company routes guarantee and what they do not: a company that an account may not see is
  not observable, and how editing targets treats authorizations and exclusions.
\<close>

section \<open>Companies that are not observable\<close>

text \<open>
  Two databases that look the same to an account: the same accounts, and the same companies and
  memberships as far as the account may see them. Everything else may differ.
\<close>

definition seen_scopes :: "uuid \<Rightarrow> db \<Rightarrow> scope_row list" where
  "seen_scopes uid d = filter (\<lambda>s. scope_visible (sco_id s) uid d) (db_scopes d)"

definition looks_same :: "uuid \<Rightarrow> db \<Rightarrow> db \<Rightarrow> bool" where
  "looks_same uid d d' \<longleftrightarrow> seen_scopes uid d = seen_scopes uid d' \<and> users d = users d' \<and> db_uuid_parse d = db_uuid_parse d' \<and>
     (\<forall>s \<in> set (seen_scopes uid d). members (sco_id s) d = members (sco_id s) d')"

lemma visible_listed: "scope_visible sc uid d \<longleftrightarrow> sc \<in> sco_id ` set (seen_scopes uid d)"
  by (auto simp: seen_scopes_def scope_visible_def)

lemma looks_same_visible: "looks_same uid d d' \<Longrightarrow> scope_visible sc uid d = scope_visible sc uid d'"
  by (simp add: visible_listed looks_same_def)

lemma view_scope_same: "users d = users d' \<Longrightarrow> members (sco_id s) d = members (sco_id s) d' \<Longrightarrow> view_scope d s = view_scope d' s"
  by (simp add: view_scope_def split: option.split)

lemma ListScopes_seen:
  "ListScopes owner uid d = map (view_scope d) (sort_key sco_created_at (filter (\<lambda>s. owner = [] \<or> sco_created_by s = owner) (seen_scopes uid d)))"
  by (simp add: ListScopes_def seen_scopes_def conj_commute)

lemma ListScopes_same:
  assumes "looks_same uid d d'"
  shows "ListScopes owner uid d = ListScopes owner uid d'"
proof -
  have "view_scope d s = view_scope d' s" if "s \<in> set (seen_scopes uid d)" for s
    using that assms by (intro view_scope_same) (simp_all add: looks_same_def)
  then show ?thesis using assms by (auto simp: ListScopes_seen looks_same_def)
qed


definition company :: "uuid \<Rightarrow> string \<Rightarrow> uuid option \<Rightarrow> scope_row" where
  "company i visibility owner = \<lparr>sco_id = i, sco_name = ''c'', sco_created_by = ''local'', sco_created_at = 0, sco_exit = [], sco_vpn = None,
     sco_pool = None, sco_visibility = visibility, sco_owner = owner\<rparr>"

definition member_request :: request where
  "member_request = \<lparr>rq_cookie = [], rq_authorization = [], rq_api_token = [], rq_proxy_secret = [], rq_forwarded_user = [],
     rq_forwarded_for = [], rq_remote = [], rq_agent = [],
     rq_identity = Some \<lparr>id_user = 2, id_username = ''bob'', id_role = RoleOperator, id_via = ''session'', id_token = None\<rparr>\<rparr>"

definition shared_db :: db where
  "shared_db = empty_db\<lparr>db_scopes := [company 5 ''shared'' None]\<rparr>"

definition secret_db :: db where
  "secret_db = empty_db\<lparr>db_scopes := [company 4 ''private'' (Some 1), company 5 ''shared'' None]\<rparr>"


section \<open>Authorizations and exclusions\<close>

lemma patchTarget_Ok:
  assumes "patchTarget (Some sc) (Some i) (Some b) r d = (Ok t, d')" and "GetTarget sc i d = Some cur"
  shows "\<exists>mode authBy authAt d1.
    (case tp_mode b of None \<Rightarrow> Some (st_mode cur) | Some m \<Rightarrow> mode_of m) = Some mode \<and>
    edited_authorization mode (tp_authorize b) (actor r) (db_now d) cur = (authBy, authAt) \<and>
    UpdateTarget sc i (if (case tp_value b of None \<Rightarrow> st_value cur | Some w \<Rightarrow> TrimSpace (ToLower w)) = st_value cur then st_kind cur
        else guessKind (case tp_value b of None \<Rightarrow> st_value cur | Some w \<Rightarrow> TrimSpace (ToLower w)))
      (case tp_value b of None \<Rightarrow> st_value cur | Some w \<Rightarrow> TrimSpace (ToLower w)) mode
      (case tp_tags b of None \<Rightarrow> st_tags cur | Some ts \<Rightarrow> ts) authBy authAt d = (Inr (Some t), d1) \<and>
    d' = auditReq r ''target.update'' (db_uuid_text d i) d1"
proof -
  define v where "v = (case tp_value b of None \<Rightarrow> st_value cur | Some w \<Rightarrow> TrimSpace (ToLower w))"
  define tags where "tags = (case tp_tags b of None \<Rightarrow> st_tags cur | Some ts \<Rightarrow> ts)"
  define kind where "kind = (if v = st_value cur then st_kind cur else guessKind v)"
  show ?thesis
    using assms unfolding patchTarget_def option.case Let_def v_def [symmetric] tags_def [symmetric] kind_def [symmetric] assms(2)
    by (auto split: if_splits option.splits prod.splits sum.splits)
qed

text \<open>
  C27: An authorization outlives the host it was given for. Editing only the value of an authorized
  target, without saying anything about authorization, makes the new host an authorized target, in
  the name of whoever authorized the old one and with the old date; so the next run sends packets
  to a host that nobody authorized.
\<close>

theorem retargeting_keeps_authorization:
  assumes "patchTarget (Some sc) (Some i) (Some b) r d = (Ok t, d')" and "GetTarget sc i d = Some cur" and "Authorized cur"
    and "tp_value b = Some w" and "tp_mode b = None" and "tp_authorize b = None"
  shows "Authorized t \<and> st_value t = TrimSpace (ToLower w) \<and> st_authorized_by t = st_authorized_by cur \<and>
    st_authorized_at t = st_authorized_at cur \<and> GetTarget sc i d' = Some t"
proof -
  let ?kind = "if TrimSpace (ToLower w) = st_value cur then st_kind cur else guessKind (TrimSpace (ToLower w))"
  let ?tags = "case tp_tags b of None \<Rightarrow> st_tags cur | Some ts \<Rightarrow> ts"
  have mode: "st_mode cur = ModeActive" using assms(3) by (simp add: Authorized_def)
  obtain d1 where u: "UpdateTarget sc i ?kind (TrimSpace (ToLower w)) ModeActive ?tags (st_authorized_by cur) (st_authorized_at cur) d = (Inr (Some t), d1)"
      "d' = auditReq r ''target.update'' (db_uuid_text d i) d1"
    using patchTarget_Ok [OF assms(1,2), unfolded assms(4-6) option.case mode] by (auto simp: edited_authorization_def)
  let ?f = "tgt_edit ?kind (TrimSpace (ToLower w)) ModeActive ?tags (st_authorized_by cur) (st_authorized_at cur)"
  have t: "t = ?f cur" and d1: "db_scope_targets d1 = update_where (\<lambda>x. st_id x = i \<and> st_scope x = sc) ?f (db_scope_targets d)"
    using u(1) assms(2) by (auto simp: UpdateTarget_def Let_def split: if_splits)
  have "find (\<lambda>x. st_id x = i \<and> st_scope x = sc) (update_where (\<lambda>x. st_id x = i \<and> st_scope x = sc) ?f ts) =
      map_option ?f (find (\<lambda>x. st_id x = i \<and> st_scope x = sc) ts)" for ts
    by (induction ts) (auto simp: update_where_def tgt_edit_def)
  then have "GetTarget sc i d1 = Some t" using assms(2) t by (simp add: GetTarget_def d1)
  moreover have "db_scope_targets d' = db_scope_targets d1" by (simp add: u(2) auditReq_def LogUser_def audit_write_def set_accounts_def)
  ultimately show ?thesis using assms(3) by (simp add: GetTarget_def t tgt_edit_def Authorized_def)
qed

definition owned_target :: scope_target where
  "owned_target = \<lparr>st_id = 9, st_scope = 5, st_kind = ''domain'', st_value = ''ours.example'', st_tags = [], st_mode = ModeActive,
     st_group = Some 8, st_pool = None, st_authorized_by = Some ''ann'', st_authorized_at = Some 3, st_created_at = 0\<rparr>"

definition excluded_target :: scope_target where
  "excluded_target = owned_target\<lparr>st_id := 10, st_value := ''bank.example'', st_mode := ModeExclude, st_authorized_by := None, st_authorized_at := None\<rparr>"

definition target_db :: db where
  "target_db = shared_db\<lparr>db_groups := [\<lparr>tgr_id = 8, tgr_scope = 5, tgr_name = ''ours'', tgr_created_at = 0\<rparr>],
     db_scope_targets := [owned_target, excluded_target]\<rparr>"

definition retarget :: target_patch where
  "retarget = \<lparr>tp_value = Some ''Victim.example'', tp_mode = None, tp_tags = None, tp_authorize = None\<rparr>"

theorem retargeting_keeps_authorization_witness:
  "\<exists>t. GetTarget 5 9 (snd (patchTarget (Some 5) (Some 9) (Some retarget) member_request target_db)) = Some t \<and>
     st_value t = ''victim.example'' \<and> Authorized t \<and> st_authorized_by t = Some ''ann''"
proof -
  let ?p = "patchTarget (Some 5) (Some 9) (Some retarget) member_request target_db"
  have ok: "fst ?p = Ok (owned_target\<lparr>st_value := ''victim.example''\<rparr>)" by code_simp
  have "GetTarget 5 9 target_db = Some owned_target" "Authorized owned_target" "TrimSpace (ToLower ''Victim.example'') = ''victim.example''"
    "st_authorized_by owned_target = Some ''ann''" by code_simp+
  moreover have "tp_value retarget = Some ''Victim.example''" "tp_mode retarget = None" "tp_authorize retarget = None"
    by (simp_all add: retarget_def)
  ultimately show ?thesis
    using retargeting_keeps_authorization [of 5 9 retarget member_request target_db "owned_target\<lparr>st_value := ''victim.example''\<rparr>" "snd ?p" owned_target "''Victim.example''"]
      ok by (metis prod.collapse)
qed

lemma SetGroupTargets_mode:
  "t \<in> set (db_scope_targets (SetGroupTargets g mode tags authBy authAt d)) \<Longrightarrow> st_group t = Some g \<Longrightarrow> st_mode t = mode"
  by (auto simp: SetGroupTargets_def set_update_where)

text \<open>
  C28: Editing a group lifts its exclusions. Whatever an edit of a target group asks for, a new name
  for example, afterwards no entry of the group is excluded any more: the edit gives every entry
  the same mode, active or passive, and forgets that a value in the group was one never to touch.
\<close>

theorem group_edit_lifts_exclusions:
  assumes "patchTargetGroup (Some sc) (Some i) (Some b) r d = (Ok v, d')"
  shows "\<not> list_ex (\<lambda>t. st_group t = Some i \<and> st_mode t = ModeExclude) (db_scope_targets d')"
proof -
  obtain g ts authorized where g: "GetTargetGroup sc i d = Some (g, ts, authorized)"
    using assms by (auto simp: patchTargetGroup_def split: option.splits)
  define ren where "ren = (case given_name (gi_name b) of
      Some n \<Rightarrow> if n \<noteq> tgr_name g then RenameTargetGroup sc i n d else (Inr True, d) | None \<Rightarrow> (Inr True, d))"
  define tags where "tags = (case gi_tags b of Some v \<Rightarrow> v | None \<Rightarrow> if ts \<noteq> [] then st_tags (hd ts) else [])"
  obtain mode authBy authAt where m: "group_authorization b (actor r) (db_now d) ts authorized = (mode, authBy, authAt)"
    by (metis prod_cases3)
  then have "mode \<noteq> ModeExclude" by (auto simp: group_authorization_def Let_def split: if_splits)
  moreover obtain d2 where "d' = auditReq r ''target_group.update'' (db_uuid_text d i) (SetGroupTargets i mode tags authBy authAt d2)"
    using assms unfolding patchTargetGroup_def option.case g prod.case Let_def ren_def [symmetric] tags_def [symmetric] m
    by (auto split: prod.splits sum.splits option.splits)
  moreover from this have "db_scope_targets d' = db_scope_targets (SetGroupTargets i mode tags authBy authAt d2)"
    by (simp add: auditReq_def LogUser_def audit_write_def set_accounts_def)
  ultimately show ?thesis by (auto simp: list_ex_iff dest: SetGroupTargets_mode)
qed

definition rename_only :: group_input where
  "rename_only = \<lparr>gi_name = Some ''our hosts'', gi_values = None, gi_tags = None, gi_authorize = None\<rparr>"

theorem group_edit_lifts_exclusions_witness:
  "list_ex (\<lambda>t. st_group t = Some 8 \<and> st_mode t = ModeExclude) (db_scope_targets target_db) \<and>
   \<not> list_ex (\<lambda>t. st_group t = Some 8 \<and> st_mode t = ModeExclude)
       (db_scope_targets (snd (patchTargetGroup (Some 5) (Some 8) (Some rename_only) member_request target_db)))"
proof -
  let ?p = "patchTargetGroup (Some 5) (Some 8) (Some rename_only) member_request target_db"
  have "(case fst ?p of Ok v \<Rightarrow> True | _ \<Rightarrow> False)" by code_simp
  then obtain v where "?p = (Ok v, snd ?p)" by (cases ?p) (auto split: answer.splits)
  from group_edit_lifts_exclusions [OF this]
  have "\<not> list_ex (\<lambda>t. st_group t = Some 8 \<and> st_mode t = ModeExclude) (db_scope_targets (snd ?p))" .
  moreover have "list_ex (\<lambda>t. st_group t = Some 8 \<and> st_mode t = ModeExclude) (db_scope_targets target_db)" by code_simp
  ultimately show ?thesis by blast
qed

end
