(* ===== verification/GoURL.thy ===== *)
theory GoURL
  imports Prelude
begin

text \<open>
  The part of Go's \<^verbatim>\<open>net/url\<close> the sources use: \<open>url_parse\<close> gives the scheme and the host of a URL,
  or the parse error of \<^verbatim>\<open>url.Parse\<close>; \<open>split_host_port\<close> is what \<^verbatim>\<open>Hostname\<close> and \<^verbatim>\<open>Port\<close> read off that
  host. The fragment, the query, the user information and the path are cut off the way
  \<^verbatim>\<open>url.Parse\<close> cuts them, and the checks it makes of them are kept.
\<close>

definition before_char :: "char \<Rightarrow> string \<Rightarrow> string" where
  [go_defs]: "before_char c s = takeWhile (\<lambda>x. x \<noteq> c) s"

definition after_char :: "char \<Rightarrow> string \<Rightarrow> string" where
  [go_defs]: "after_char c s = drop 1 (dropWhile (\<lambda>x. x \<noteq> c) s)"

definition after_last :: "char \<Rightarrow> string \<Rightarrow> string" where
  [go_defs]: "after_last c s = rev (takeWhile (\<lambda>x. x \<noteq> c) (rev s))"

definition before_last :: "char \<Rightarrow> string \<Rightarrow> string" where
  [go_defs]: "before_last c s = rev (drop 1 (dropWhile (\<lambda>x. x \<noteq> c) (rev s)))"

text \<open>The scheme and the rest; no scheme where the text before the first colon is not one.\<close>

fun take_scheme :: "string \<Rightarrow> string \<Rightarrow> (string \<times> string) option" where
  "take_scheme acc [] = Some ([], rev acc)"
| "take_scheme acc (c # s) =
     (if is_lower_alpha c \<or> is_upper_alpha c then take_scheme (c # acc) s
      else if is_digit c \<or> c = CHR ''+'' \<or> c = CHR ''-'' \<or> c = CHR ''.''
      then (if acc = [] then Some ([], c # s) else take_scheme (c # acc) s)
      else if c = CHR '':'' then (if acc = [] then None else Some (rev acc, s))
      else Some ([], rev acc @ c # s))"

definition unhex :: "char \<Rightarrow> nat option" where
  "unhex c = (if is_digit c then Some (code c - 48)
     else if 97 \<le> code c \<and> code c \<le> 102 then Some (code c - 87)
     else if 65 \<le> code c \<and> code c \<le> 70 then Some (code c - 55) else None)"

text \<open>Every percent sign starts an escape of two hexadecimal digits.\<close>

fun escapes_ok :: "string \<Rightarrow> bool" where
  "escapes_ok [] = True"
| "escapes_ok (c # s) =
     (if c = CHR ''%'' then (case s of
        a # b # r \<Rightarrow> unhex a \<noteq> None \<and> unhex b \<noteq> None \<and> escapes_ok r
      | _ \<Rightarrow> False)
      else escapes_ok s)"

definition host_char :: "char \<Rightarrow> bool" where
  "host_char c \<longleftrightarrow> 128 \<le> code c \<or> is_lower_alpha c \<or> is_upper_alpha c \<or> is_digit c \<or>
     c \<in> set ''-_.~!$&()*+,;=:[]<>'' \<or> code c \<in> {34, 39}"

text \<open>
  Unescaping a host. Outside an IPv6 zone an escape may only stand for a percent sign or a
  non-ASCII byte; inside one also for a space and for the characters a host may hold.
\<close>

fun unescape_host :: "bool \<Rightarrow> string \<Rightarrow> string option" where
  "unescape_host zone [] = Some []"
| "unescape_host zone (c # s) =
     (if c = CHR ''%'' then (case s of
        a # b # r \<Rightarrow> (case (unhex a, unhex b) of
           (Some x, Some y) \<Rightarrow>
             (let v = char_of (16 * x + y); esc = ([a, b] = ''25'')
              in if esc \<or> (if zone then v = CHR '' '' \<or> host_char v else 8 \<le> x)
                 then map_option ((#) v) (unescape_host zone r) else None)
         | _ \<Rightarrow> None)
      | _ \<Rightarrow> None)
      else if host_char c then map_option ((#) c) (unescape_host zone s) else None)"

definition valid_port :: "string \<Rightarrow> bool" where
  "valid_port p = (case p of [] \<Rightarrow> True | c # r \<Rightarrow> c = CHR '':'' \<and> list_all is_digit r)"

definition bracketed_host :: "string \<Rightarrow> string option" where
  "bracketed_host h =
     (let inner = before_last CHR '']'' h; port = after_last CHR '']'' h
      in if CHR '']'' \<notin> set h \<or> \<not> valid_port port then None
         else case str_index inner ''%25'' of
           None \<Rightarrow> unescape_host False h
         | Some z \<Rightarrow> (case (unescape_host False (take z inner), unescape_host True (drop z inner),
                            unescape_host False (CHR '']'' # port)) of
             (Some a, Some b, Some c) \<Rightarrow> Some (a @ b @ c)
           | _ \<Rightarrow> None))"

definition parse_host :: "string \<Rightarrow> string option" where
  "parse_host h =
     (if HasPrefix h ''['' then bracketed_host h
      else if CHR '':'' \<in> set h \<and> \<not> list_all is_digit (after_last CHR '':'' h) then None
      else unescape_host False h)"

definition userinfo_ok :: "string \<Rightarrow> bool" where
  "userinfo_ok u \<longleftrightarrow> escapes_ok u \<and>
     list_all (\<lambda>c. is_lower_alpha c \<or> is_upper_alpha c \<or> is_digit c \<or>
       c \<in> set ''-._:~!$&()*+,;=%@'' \<or> code c = 39) u"

definition parse_authority :: "string \<Rightarrow> string option" where
  "parse_authority a =
     (case parse_host (after_last CHR ''@'' a) of
        None \<Rightarrow> None
      | Some h \<Rightarrow> if CHR ''@'' \<in> set a \<and> \<not> userinfo_ok (before_last CHR ''@'' a) then None else Some h)"

definition url_parse :: "string \<Rightarrow> (string \<times> string) option" where
  "url_parse raw =
     (let s = before_char CHR ''#'' raw in
      if \<not> list_all (\<lambda>c. 32 \<le> code c \<and> code c \<noteq> 127) s \<or> \<not> escapes_ok (after_char CHR ''#'' raw) then None
      else case take_scheme [] s of
        None \<Rightarrow> None
      | Some (scheme, rest0) \<Rightarrow>
          (let rest = before_char CHR ''?'' rest0 in
           if \<not> HasPrefix rest ''/'' \<and> scheme \<noteq> [] then Some (ToLower scheme, [])
           else if \<not> HasPrefix rest ''/'' \<and> CHR '':'' \<in> set (before_char CHR ''/'' rest) then None
           else if HasPrefix rest ''//'' \<and> (scheme \<noteq> [] \<or> \<not> HasPrefix rest ''///'')
           then (let authority = before_char CHR ''/'' (drop 2 rest)
                 in case parse_authority authority of
                      None \<Rightarrow> None
                    | Some h \<Rightarrow> if escapes_ok (drop (length authority) (drop 2 rest))
                                then Some (ToLower scheme, h) else None)
           else if escapes_ok rest then Some (ToLower scheme, []) else None))"

text \<open>\<^verbatim>\<open>Hostname\<close> and \<^verbatim>\<open>Port\<close>: the port is what follows the last colon, when that is empty or all digits.\<close>

definition split_host_port :: "string \<Rightarrow> string \<times> string" where
  "split_host_port h =
     (let hp = (if CHR '':'' \<in> set h \<and> list_all is_digit (after_last CHR '':'' h)
                then (before_last CHR '':'' h, after_last CHR '':'' h) else (h, []))
      in case fst hp of
           c # r \<Rightarrow> (if c = CHR ''['' \<and> r \<noteq> [] \<and> last r = CHR '']'' then (butlast r, snd hp) else hp)
         | [] \<Rightarrow> hp)"

section \<open>Addresses written into URLs\<close>

text \<open>
  A host of plain characters, without brackets or escapes, is read back as written when a port
  follows it; colons are allowed, so an IPv6 address is such a host.
\<close>

definition plain_host :: "string \<Rightarrow> bool" where
  "plain_host h \<longleftrightarrow> h \<noteq> [] \<and> list_all (\<lambda>c. is_lower_alpha c \<or> is_upper_alpha c \<or> is_digit c \<or> c = CHR ''-'' \<or> c = CHR ''.'' \<or> c = CHR '':'') h"

lemma takeWhile_all_neq: "c \<notin> set s \<Longrightarrow> takeWhile (\<lambda>x. x \<noteq> c) (s @ c # r) = s"
  by (induction s) auto

lemma dropWhile_all_neq: "c \<notin> set s \<Longrightarrow> dropWhile (\<lambda>x. x \<noteq> c) (s @ c # r) = c # r"
  by (induction s) auto

lemma before_last_eq: "c \<notin> set p \<Longrightarrow> before_last c (h @ c # p) = h"
  by (simp add: before_last_def dropWhile_all_neq [of c "rev p" "rev h"])

lemma after_last_eq: "c \<notin> set p \<Longrightarrow> after_last c (h @ c # p) = p"
  by (simp add: after_last_def takeWhile_all_neq [of c "rev p" "rev h"])

lemma after_last_none: "c \<notin> set s \<Longrightarrow> after_last c s = s"
proof -
  assume "c \<notin> set s"
  then have "takeWhile (\<lambda>x. x \<noteq> c) (rev s) = rev s" by (subst takeWhile_eq_all_conv) auto
  then show ?thesis by (simp only: after_last_def rev_rev_ident)
qed

lemma before_char_none: "c \<notin> set s \<Longrightarrow> before_char c s = s"
  unfolding before_char_def by (subst takeWhile_eq_all_conv) auto

lemma unescape_plain: "list_all (\<lambda>c. host_char c \<and> c \<noteq> CHR ''%'') s \<Longrightarrow> unescape_host z s = Some s"
  by (induction s) auto

lemma plain_hostD:
  assumes "plain_host h" and "c \<in> set h"
  shows "host_char c \<and> c \<notin> set ''%/?#@[]''"
proof -
  have "is_lower_alpha c \<or> is_upper_alpha c \<or> is_digit c \<or> c = CHR ''-'' \<or> c = CHR ''.'' \<or> c = CHR '':''"
    using assms by (auto simp: plain_host_def list_all_iff)
  then consider "is_lower_alpha c \<or> is_upper_alpha c \<or> is_digit c" | "c = CHR ''-''" | "c = CHR ''.''" | "c = CHR '':''" by blast
  then show ?thesis
  proof cases
    case 1
    then have "host_char c" unfolding host_char_def by blast
    moreover have "c \<notin> set ''%/?#@[]''" using 1
      by (auto simp: is_digit_def is_lower_alpha_def is_upper_alpha_def code_def)
    ultimately show ?thesis ..
  qed (simp_all add: host_char_def)
qed

lemma digit_host_char: "is_digit c \<Longrightarrow> host_char c \<and> c \<notin> set ''%:/?#@[]''"
  by (auto simp: host_char_def is_digit_def code_def)

lemma split_host_port_plain:
  assumes "plain_host h" and "list_all is_digit p"
  shows "split_host_port (h @ CHR '':'' # p) = (h, p)"
proof -
  have p: "CHR '':'' \<notin> set p" using assms(2) digit_host_char by (auto simp: list_all_iff)
  obtain c r where h: "h = c # r" using assms(1) by (cases h) (auto simp: plain_host_def)
  then have "c \<noteq> CHR ''[''" using plain_hostD [OF assms(1), of c] by simp
  then show ?thesis
    unfolding split_host_port_def Let_def before_last_eq [OF p] after_last_eq [OF p]
    using assms(2) h by simp
qed

lemma parse_authority_plain:
  assumes "plain_host h" and "list_all is_digit p"
  shows "parse_authority (h @ CHR '':'' # p) = Some (h @ CHR '':'' # p)"
proof -
  let ?a = "h @ CHR '':'' # p"
  have chars: "host_char c \<and> c \<noteq> CHR ''%'' \<and> c \<noteq> CHR ''@'' \<and> c \<noteq> CHR ''/''" if c: "c \<in> set ?a" for c
  proof -
    from c consider "c \<in> set h" | "c = CHR '':''" | "is_digit c" using assms(2) by (auto simp: list_all_iff)
    then show ?thesis
    proof cases
      case 1
      then show ?thesis using plain_hostD [OF assms(1) 1] by simp
    next
      case 2
      then show ?thesis by (simp add: host_char_def)
    next
      case 3
      then show ?thesis using digit_host_char [OF 3] by simp
    qed
  qed
  have p: "CHR '':'' \<notin> set p" using assms(2) digit_host_char by (auto simp: list_all_iff)
  have at: "CHR ''@'' \<notin> set ?a" using chars by blast
  obtain c r where h: "h = c # r" using assms(1) by (cases h) (auto simp: plain_host_def)
  then have "\<not> HasPrefix ?a ''[''" using plain_hostD [OF assms(1), of c] by simp
  moreover have "unescape_host False ?a = Some ?a"
    by (rule unescape_plain) (use chars in \<open>auto simp: list_all_iff\<close>)
  ultimately have "parse_host ?a = Some ?a" using assms(2) by (simp add: parse_host_def after_last_eq [OF p])
  then show ?thesis using at by (simp add: parse_authority_def after_last_none [OF at])
qed

end
