(* ===== verification/Planner.thy ===== *)
theory Planner
  imports WorkerStore TaskLife ScopeGuard GoURL
begin

text \<open>
  The planner of \<^verbatim>\<open>internal/planner/planner.go\<close>: the first tasks of a run (\<open>PlanInitial\<close>), the stage
  machine that turns what tasks found into more tasks (\<open>Advance\<close>), the routing of every task to
  the one pool that may run it (\<open>routeTasks\<close>) and the closing of a run (\<open>finish\<close>). The planner's
  writes go through \<open>InsertTasks\<close> of the task queue.

  The loops over Go maps visit the addresses in first-seen order here; the code sorts what it
  builds from them, so the order is not observable.
\<close>

section \<open>Helpers\<close>

definition ipPortFromURL :: "string \<Rightarrow> string \<times> int" where
  "ipPortFromURL raw = (case url_parse raw of
     None \<Rightarrow> ([], 0)
   | Some (scheme, h) \<Rightarrow>
       (let (host, p) = split_host_port h
        in (host, if p \<noteq> [] then fst (Atoi p) else if scheme = ''https'' then 443
                  else if scheme = ''http'' then 80 else 0)))"

text \<open>\<open>etld_plus_one\<close> is \<^verbatim>\<open>publicsuffix.EffectiveTLDPlusOne\<close>.\<close>

definition Apex :: "(string \<Rightarrow> string option) \<Rightarrow> string \<Rightarrow> string" where
  "Apex etld_plus_one host = (let h = TrimSuffix (ToLower host) ''.'' in
     case etld_plus_one h of Some apex \<Rightarrow> apex | None \<Rightarrow> h)"

definition spec :: "stage \<Rightarrow> job_target \<Rightarrow> int \<Rightarrow> uuid \<Rightarrow> string list \<Rightarrow> task_spec" where
  "spec s tgt prio origin caps = \<lparr>sp_stage = s, sp_target = tgt, sp_requires = caps, sp_priority = prio,
     sp_origins = [origin], sp_wordlist = [], sp_pool = None\<rparr>"

definition origin0 :: "uuid list \<Rightarrow> uuid" where
  "origin0 xs = (case xs of [] \<Rightarrow> uuid_Nil | x # _ \<Rightarrow> x)"

fun merge_seen :: "uuid set \<Rightarrow> uuid list \<Rightarrow> uuid list \<Rightarrow> uuid list" where
  "merge_seen seen a [] = a"
| "merge_seen seen a (x # b) = (if x \<in> seen then merge_seen seen a b else merge_seen (insert x seen) (a @ [x]) b)"

definition mergeOrigins :: "uuid list \<Rightarrow> uuid list \<Rightarrow> uuid list" where
  "mergeOrigins a b = merge_seen (set a) a b"

lemma merge_seen_append_new: "seen = set a \<Longrightarrow> merge_seen seen a b = append_new a b"
  by (induction seen a b rule: merge_seen.induct) auto

interpretation origins: seen_merge mergeOrigins
  by unfold_locales (simp add: mergeOrigins_def merge_seen_append_new)

definition authIndex :: "scope_target list \<Rightarrow> (string \<rightharpoonup> scope_target)" where
  "authIndex ts = foldl (\<lambda>m t. m(st_value t \<mapsto> t)) Map.empty ts"

definition authorized :: "(string \<rightharpoonup> scope_target) \<Rightarrow> string \<Rightarrow> bool" where
  "authorized idx v \<longleftrightarrow> (case idx v of None \<Rightarrow> False | Some t \<Rightarrow> Authorized t)"

definition private_addr :: "addr \<Rightarrow> bool" where
  "private_addr a \<longleftrightarrow> IsPrivate a \<or> IsLoopback a \<or> IsLinkLocalUnicast a"

definition isPrivateTarget :: "string \<Rightarrow> bool" where
  "isPrivateTarget v = (case ParsePrefix v of
     Some p \<Rightarrow> private_addr (fst p)
   | None \<Rightarrow> (case ParseAddr v of Some a \<Rightarrow> private_addr a | None \<Rightarrow> False))"

definition authorizedRunTargets :: "scan_run \<Rightarrow> db \<Rightarrow> uuid \<Rightarrow> bool" where
  "authorizedRunTargets run d oid =
     (let auth = foldl (\<lambda>m t. m(st_value t \<mapsto> Authorized t)) Map.empty (ListTargetsMerged (run_scope run) [] d)
      in case map_of (rev (map (\<lambda>r. (rt_id r, rt_value r)) (ListRunTargets (run_id run) d))) oid of
           None \<Rightarrow> False
         | Some v \<Rightarrow> auth v = Some True)"

section \<open>Routing\<close>

record routing =
  rt_passive :: uuid
  rt_active :: "uuid option"

definition route_one :: "routing \<Rightarrow> task_spec \<Rightarrow> task_spec result" where
  "route_one rt sp =
     (if SendsTrafficToTarget (sp_stage sp)
      then (case rt_active rt of
              None \<Rightarrow> Inl (stage_name (sp_stage sp) @
                '' task has no exit pool to run from: the run was planned before its exit was bound'')
            | Some p \<Rightarrow> Inr (sp\<lparr>sp_pool := Some p\<rparr>))
      else Inr (sp\<lparr>sp_pool := Some (rt_passive rt)\<rparr>))"

fun routeTasks :: "task_spec list \<Rightarrow> routing \<Rightarrow> task_spec list result" where
  "routeTasks [] rt = Inr []"
| "routeTasks (sp # sps) rt = (case route_one rt sp of
     Inl e \<Rightarrow> Inl e
   | Inr sp' \<Rightarrow> (case routeTasks sps rt of Inl e \<Rightarrow> Inl e | Inr sps' \<Rightarrow> Inr (sp' # sps')))"

definition routingFor :: "scan_run \<Rightarrow> db \<Rightarrow> routing result" where
  "routingFor run d = (case PassivePool d of
     None \<Rightarrow> Inl ''no pool for passive stages: no rows in result set''
   | Some p \<Rightarrow> Inr \<lparr>rt_passive = p, rt_active = run_pool run\<rparr>)"

text \<open>The close of every planning site: route the batch, then insert it.\<close>

definition route_and_insert :: "scan_run \<Rightarrow> task_spec list \<Rightarrow> routing \<Rightarrow> db \<Rightarrow> string option \<times> db" where
  "route_and_insert run specs rt d = (case routeTasks specs rt of
     Inl e \<Rightarrow> (Some e, d)
   | Inr routed \<Rightarrow> InsertTasks (run_id run) routed d)"

section \<open>The first stage\<close>

definition cidrHostCap :: int where
  "cidrHostCap = 4096"

text \<open>What one run target contributes: its tasks, and the status and reason written on it.\<close>

definition plan_target ::
  "bool \<Rightarrow> bool \<Rightarrow> (string \<rightharpoonup> scope_target) \<Rightarrow> run_target \<Rightarrow> task_spec list \<times> (target_status \<times> string option) option" where
  "plan_target allow_private passive auth t =
     (if rt_kind t = ''domain''
      then ([spec StagePassiveEnum (no_target\<lparr>tg_domain := rt_value t\<rparr>) 10 (rt_id t) [],
             spec StageDNSResolve (no_target\<lparr>tg_domain := rt_value t\<rparr>) 30 (rt_id t) []], Some (TargetRunning, None))
      else if rt_kind t = ''ip'' \<or> rt_kind t = ''cidr''
      then (if passive \<or> \<not> authorized auth (rt_value t)
            then ([], Some (TargetSkipped, Some (if passive then ''passive_profile'' else ''not_authorized'')))
            else if isPrivateTarget (rt_value t) \<and> \<not> allow_private
            then ([], Some (TargetSkipped, Some ''internal_range_out_of_scope''))
            else ((if rt_kind t = ''ip''
                   then [spec StagePortScan (no_target\<lparr>tg_ip := rt_value t\<rparr>) 100 (rt_id t) [CapRawSocket]]
                   else map (\<lambda>ip. spec StagePortScan (no_target\<lparr>tg_ip := ip\<rparr>) 100 (rt_id t) [CapRawSocket])
                          (ExpandCIDRHosts (rt_value t) cidrHostCap)), Some (TargetRunning, None)))
      else ([], None))"

fun plan_targets ::
  "bool \<Rightarrow> bool \<Rightarrow> (string \<rightharpoonup> scope_target) \<Rightarrow> run_target list \<Rightarrow> db \<Rightarrow> task_spec list \<times> db" where
  "plan_targets ap passive auth [] d = ([], d)"
| "plan_targets ap passive auth (t # ts) d =
     (case plan_target ap passive auth t of (sps, st) \<Rightarrow>
        (case plan_targets ap passive auth ts
           (case st of None \<Rightarrow> d | Some (s, why) \<Rightarrow> SetRunTargetStatus (rt_id t) s why d) of
           (rest, d') \<Rightarrow> (sps @ rest, d')))"

definition dnsBruteSpecs :: "scan_run \<Rightarrow> run_target list \<Rightarrow> db \<Rightarrow> task_spec list" where
  "dnsBruteSpecs run targets d =
     (if run_profile run = ProfilePassive then []
      else if (case GetRunParams (run_id run) d of None \<Rightarrow> False | Some ps \<Rightarrow> ps ''dns_bruteforce'' = Some ''false'') then []
      else concat (map (\<lambda>t. map (\<lambda>wl.
             (spec StageDNSBrute (no_target\<lparr>tg_domain := rt_value t\<rparr>) 20 (rt_id t) [])
               \<lparr>sp_wordlist := db_uuid_text d (wl_id wl)\<rparr>) (RunWordlistsByKind (run_id run) ''dns'' d))
           (filter (\<lambda>t. rt_kind t = ''domain'' \<and> rt_status t \<noteq> TargetSkipped) targets)))"

definition PlanInitial ::
  "bool \<Rightarrow> scan_run \<Rightarrow> run_target list \<Rightarrow> scope_target list \<Rightarrow> db \<Rightarrow> string option \<times> db" where
  "PlanInitial allow_private run targets scopeTargets d =
     (let d1 = SetRunStatus (run_id run) RunRunning d
      in case routingFor run d1 of
           Inl e \<Rightarrow> (Some e, d1)
         | Inr rt \<Rightarrow>
             (case plan_targets allow_private (run_profile run = ProfilePassive) (authIndex scopeTargets) targets d1 of
                (sps, d2) \<Rightarrow>
                  (let specs = sps @ dnsBruteSpecs run targets d2
                   in if specs = [] then (None, SetRunStatus (run_id run) RunCompleted d2)
                      else route_and_insert run specs rt d2)))"

section \<open>Scanning what discovery found\<close>

definition scanBatchSize :: nat where
  "scanBatchSize = 64"

type_synonym ip_set = "(string \<times> uuid list) list"

definition ipset_origins :: "ip_set \<Rightarrow> string \<Rightarrow> uuid list" where
  "ipset_origins s ip = (case map_of s ip of None \<Rightarrow> [] | Some os \<Rightarrow> os)"

definition ipset_add :: "uuid list \<Rightarrow> ip_set \<Rightarrow> string \<Rightarrow> ip_set" where
  "ipset_add os s ip =
     (if ip \<in> set (map fst s)
      then map (\<lambda>(k, v). if k = ip then (k, mergeOrigins v os) else (k, v)) s
      else s @ [(ip, mergeOrigins [] os)])"

definition discovery_stages :: "stage list" where
  "discovery_stages = [StagePassiveEnum, StageDNSBrute, StageDNSResolve]"

definition discovered :: "uuid \<Rightarrow> db \<Rightarrow> ip_set" where
  "discovered rid d = foldl (\<lambda>s t. foldl (ipset_add (OriginsForTask (t_id t) d)) s (sm_ips (decode (t_result t)))) []
     (filter (\<lambda>t. t_status t = TaskDone) (concat (map (\<lambda>s. TasksByStage rid s d) discovery_stages)))"

definition cdnPortsFor :: "uuid \<Rightarrow> db \<Rightarrow> string" where
  "cdnPortsFor rid d = (case GetRunParams rid d of
     None \<Rightarrow> ''80,443''
   | Some ps \<Rightarrow> (case ps ''cdn_ports'' of None \<Rightarrow> ''80,443'' | Some v \<Rightarrow> if v \<noteq> [] then v else ''80,443''))"

text \<open>What becomes of one discovered address.\<close>

datatype verdict = Already | NotPermitted | Refused string | Edge | Fresh

definition address_verdict ::
  "bool \<Rightarrow> guard \<Rightarrow> string list \<Rightarrow> (uuid \<Rightarrow> bool) \<Rightarrow> string list \<Rightarrow> string \<Rightarrow> string \<Rightarrow> uuid list \<Rightarrow> verdict" where
  "address_verdict allow_private g already auth shared cdn ip os =
     (if ip \<in> set already then Already
      else if \<not> list_ex auth os then NotPermitted
      else let isCDN = (ip \<in> set shared \<and> cdn \<noteq> ''all'')
           in if isCDN \<and> cdn = ''none'' then Refused ''cdn''
              else let dec = CheckIP allow_private g ip False
                   in if \<not> Allowed dec then Refused (Reason dec)
                      else if isCDN then Edge else Fresh)"

function chunks :: "nat \<Rightarrow> 'a list \<Rightarrow> 'a list list" where
  "chunks n xs = (if xs = [] \<or> n = 0 then [] else take n xs # chunks n (drop n xs))"
  by pat_completeness auto
termination
  by (relation "measure (\<lambda>(n, xs). length xs)") auto

declare chunks.simps [simp del]

definition batch_specs :: "ip_set \<Rightarrow> string list \<Rightarrow> string \<Rightarrow> task_spec list" where
  "batch_specs ipset ips ports =
     concat (map (\<lambda>batch.
       let origins = foldl (\<lambda>os ip. mergeOrigins os (ipset_origins ipset ip)) [] batch
       in if origins = [] then []
          else [(spec StagePortScan (no_target\<lparr>tg_ips := batch, tg_ports := ports\<rparr>) 100 (hd origins) [CapRawSocket])
                  \<lparr>sp_origins := origins\<rparr>])
       (chunks scanBatchSize (sort ips)))"

definition scan_specs :: "bool \<Rightarrow> scan_run \<Rightarrow> db \<Rightarrow> task_spec list" where
  "scan_specs allow_private run d =
     (let ipset = discovered (run_id run) d;
          g = NewGuard (ListTargetsMerged (run_scope run) [] d);
          cdn = cdnPortsFor (run_id run) d;
          verdict = (\<lambda>(ip, os). address_verdict allow_private g (ScannedAddresses (run_id run) d)
                       (authorizedRunTargets run d) (SharedAddresses (run_scope run) d) cdn ip os)
      in batch_specs ipset (map fst (filter (\<lambda>e. verdict e = Fresh) ipset)) [] @
         batch_specs ipset (map fst (filter (\<lambda>e. verdict e = Edge) ipset)) cdn)"

definition scanNewAddresses :: "bool \<Rightarrow> scan_run \<Rightarrow> db \<Rightarrow> string option \<times> db" where
  "scanNewAddresses allow_private run d =
     (if discovered (run_id run) d = [] then (None, d)
      else case routingFor run d of
        Inl e \<Rightarrow> (Some e, d)
      | Inr rt \<Rightarrow>
          (let specs = scan_specs allow_private run d
           in if specs = [] then (None, d) else route_and_insert run specs rt d))"

section \<open>Probing open ports\<close>

fun probe_services :: "uuid list \<Rightarrow> string list \<Rightarrow> ip_port list \<Rightarrow> task_spec list \<times> string list" where
  "probe_services os already [] = ([], already)"
| "probe_services os already ((ip, port) # svs) =
     (if endpoint_key ip port \<in> set already then probe_services os already svs
      else case probe_services os (endpoint_key ip port # already) svs of (sps, a) \<Rightarrow>
        (spec StageServiceProbe (no_target\<lparr>tg_ip := ip, tg_port := port\<rparr>) 200 (origin0 os) [] # sps, a))"

fun probe_tasks :: "db \<Rightarrow> string list \<Rightarrow> task list \<Rightarrow> task_spec list" where
  "probe_tasks d already [] = []"
| "probe_tasks d already (t # ts) =
     (if t_status t \<noteq> TaskDone \<and> t_status t \<noteq> TaskFailed then probe_tasks d already ts
      else case probe_services (OriginsForTask (t_id t) d) already (sm_services (decode (t_result t))) of
        (sps, already') \<Rightarrow> sps @ probe_tasks d already' ts)"

definition probeNewServices :: "scan_run \<Rightarrow> db \<Rightarrow> string option \<times> db" where
  "probeNewServices run d = (case ProbedEndpoints (run_id run) d of
     Inl e \<Rightarrow> (Some e, d)
   | Inr already \<Rightarrow> (case routingFor run d of
       Inl e \<Rightarrow> (Some e, d)
     | Inr rt \<Rightarrow>
         (let specs = probe_tasks d already (TasksByStage (run_id run) StagePortScan d)
          in if specs = [] then (None, d) else route_and_insert run specs rt d)))"

section \<open>The web stages\<close>

definition postProbeStages :: "params \<Rightarrow> bool \<times> bool" where
  "postProbeStages ps = (let off = (\<lambda>k. ps k = Some ''false'') in
     (\<not> (off ''gobuster_enabled'' \<and> off ''katana_enabled''), \<not> off ''nuclei_enabled''))"

definition defaultVhostsPerAddress :: int where
  "defaultVhostsPerAddress = 20"

definition webTargets :: "string \<Rightarrow> string \<Rightarrow> int \<Rightarrow> string list \<Rightarrow> int \<Rightarrow> job_target list \<times> nat" where
  "webTargets liveURL ip port names maxNames =
     (if names = [] then ([no_target\<lparr>tg_url := liveURL, tg_ip := ip, tg_port := port\<rparr>], 0)
      else let scheme = (case url_parse liveURL of Some (s, _) \<Rightarrow> (if s \<noteq> [] then s else ''http'') | None \<Rightarrow> ''http'');
               over = (maxNames > 0 \<and> int (length names) > maxNames);
               kept = (if over then take (nat maxNames) names else names)
           in (map (\<lambda>n. no_target\<lparr>tg_url := scheme @ ''://'' @
                   (if \<not> (scheme = ''https'' \<and> port = 443) \<and> \<not> (scheme = ''http'' \<and> port = 80)
                    then n @ '':'' @ Itoa port else n),
                 tg_host := n, tg_ip := ip, tg_port := port\<rparr>) kept,
               if over then length names - nat maxNames else 0))"

definition vhost_cap :: "params \<Rightarrow> int" where
  "vhost_cap ps = (case ps ''web_vhosts_per_address'' of
     None \<Rightarrow> defaultVhostsPerAddress
   | Some v \<Rightarrow> (case Atoi v of (n, ok) \<Rightarrow> if ok \<and> n > 0 then n else defaultVhostsPerAddress))"

definition web_specs :: "bool \<Rightarrow> bool \<Rightarrow> uuid \<Rightarrow> job_target \<Rightarrow> task_spec list" where
  "web_specs runDir runVuln origin tgt =
     [spec StageTechDetect tgt 300 origin [], spec StageScreenshot tgt 310 origin [CapBrowser]] @
     (if runDir then [spec StageDirBrute tgt 320 origin []] else []) @
     (if runVuln then [spec StageVulnCheck tgt 330 origin []] else [])"

text \<open>The names of an address are read once per pass in the code; the state does not change meanwhile.\<close>

definition post_probe_specs :: "scan_run \<Rightarrow> db \<Rightarrow> task_spec list" where
  "post_probe_specs run d =
     (let ps = (case GetRunParams (run_id run) d of None \<Rightarrow> Map.empty | Some ps \<Rightarrow> ps);
          (runDir, runVuln) = postProbeStages ps;
          cap = vhost_cap ps
      in concat (map (\<lambda>t. concat (map (\<lambda>u.
           let (ip, port) = ipPortFromURL u;
               names = (case NamesResolvingTo (run_scope run) ip (cap + 1) d of Inl _ \<Rightarrow> [] | Inr ns \<Rightarrow> ns)
           in concat (map (web_specs runDir runVuln (origin0 (OriginsForTask (t_id t) d)))
                (fst (webTargets u ip port names cap))))
           (sm_urls (decode (t_result t)))))
         (TasksByStage (run_id run) StageServiceProbe d)))"

definition maybePostProbe :: "scan_run \<Rightarrow> db \<Rightarrow> string option \<times> db" where
  "maybePostProbe run d =
     (if StageExists (run_id run) StageTechDetect d then (None, d)
      else if StageOutstanding (run_id run) [StageServiceProbe] d > 0 then (None, d)
      else case routingFor run d of
        Inl e \<Rightarrow> (Some e, d)
      | Inr rt \<Rightarrow>
          (let specs = post_probe_specs run d
           in if specs = [] then (None, d) else route_and_insert run specs rt d))"

section \<open>Finishing and advancing\<close>

definition final_status :: "run_target \<Rightarrow> target_status" where
  "final_status t = (if rt_total t > 0 \<and> rt_done t < rt_total t then TargetIncomplete else TargetCompleted)"

fun finish_targets :: "run_target list \<Rightarrow> db \<Rightarrow> db" where
  "finish_targets [] d = d"
| "finish_targets (t # ts) d =
     (if rt_status t = TargetSkipped then finish_targets ts d
      else finish_targets ts (SetRunTargetStatus (rt_id t) (final_status t) None d))"

definition finish :: "scan_run \<Rightarrow> db \<Rightarrow> db" where
  "finish run d = SetRunStatus (run_id run) RunCompleted (finish_targets (ListRunTargets (run_id run) d) d)"

definition active_stages :: "bool \<Rightarrow> scan_run \<Rightarrow> db \<Rightarrow> string option \<times> db" where
  "active_stages allow_private run d =
     (case scanNewAddresses allow_private run d of
        (Some e, d1) \<Rightarrow> (Some e, d1)
      | (None, d1) \<Rightarrow> (case probeNewServices run d1 of
          (Some e, d2) \<Rightarrow> (Some e, d2)
        | (None, d2) \<Rightarrow> maybePostProbe run d2))"

text \<open>Whether the run finished in this call, the error, and the state after.\<close>

definition Advance :: "bool \<Rightarrow> scan_run \<Rightarrow> db \<Rightarrow> bool \<times> string option \<times> db" where
  "Advance allow_private run d =
     (if run_status run \<noteq> RunRunning then (False, None, d)
      else case (if run_profile run = ProfilePassive then (None, d) else active_stages allow_private run d) of
        (Some e, d1) \<Rightarrow> (False, Some e, d1)
      | (None, d1) \<Rightarrow>
          (let prog = RunProgress (run_id run) d1
           in if pr_total prog > 0 \<and> pr_outstanding prog = 0 then (True, None, finish run d1)
              else (False, None, d1)))"

end
