(* ===== verification/Ingest.thy ===== *)
theory Ingest
  imports Assets Planner
begin

text \<open>
  The ingestor (\<^verbatim>\<open>internal/ingest\<close>): how the observations of a batch become rows of the asset graph,
  and the summary of the batch from which the planner plans the next stage. The statements commit
  one by one: when a statement of the batch fails, the ones before it stay.

  \<open>now\<close> is the gateway's clock. The maps \<^verbatim>\<open>domSeen\<close>, \<^verbatim>\<open>ipSeen\<close>, \<^verbatim>\<open>svcSeen\<close> and \<^verbatim>\<open>urlSeen\<close> hold
  exactly what the summary lists already, so membership in the summary stands for them.
\<close>

section \<open>The scope cache\<close>

type_synonym scope_cache = "(uuid \<times> uuid) list"

definition maxScopeCache :: nat where
  "maxScopeCache = 4096"

definition cache_put :: "uuid \<Rightarrow> uuid \<Rightarrow> scope_cache \<Rightarrow> scope_cache" where
  "cache_put run sc m = (let m' = (if length m \<ge> maxScopeCache then [] else m)
     in (run, sc) # filter (\<lambda>e. fst e \<noteq> run) m')"

definition scopeOf :: "uuid \<Rightarrow> db \<Rightarrow> scope_cache \<Rightarrow> uuid result \<times> scope_cache" where
  "scopeOf run d m = (case map_of m run of
     Some sc \<Rightarrow> (Inr sc, m)
   | None \<Rightarrow> (case GetRun run d of
       None \<Rightarrow> (Inl ''no rows in result set'', m)
     | Some r \<Rightarrow> (Inr (run_scope r), cache_put run (run_scope r) m)))"

section \<open>Helpers\<close>

definition norm :: "string \<Rightarrow> string" where
  "norm s = TrimSuffix (ToLower s) ''.''"

definition urlFor :: "observation \<Rightarrow> string" where
  "urlFor ob = (if o_ip ob = [] \<or> o_port ob = 0 then []
     else (if o_port ob = 443 \<or> o_port ob = 8443 then ''https'' else ''http'') @ ''://'' @ o_ip ob @ '':'' @ Itoa (o_port ob))"

definition sev :: "string \<Rightarrow> string" where
  "sev s = (if s \<in> {''critical'', ''high'', ''medium'', ''low'', ''info''} then s else ''info'')"

definition serviceID :: "uuid \<Rightarrow> string \<Rightarrow> int \<Rightarrow> string \<Rightarrow> string \<Rightarrow> instant \<Rightarrow> db \<Rightarrow> uuid result \<times> db" where
  "serviceID sc ip port proto state at d = (case UpsertIP sc ip at d of
     (Inl e, d1) \<Rightarrow> (Inl e, d1)
   | (Inr i, d1) \<Rightarrow> UpsertService i port (if proto = [] then ''tcp'' else proto) (if state = [] then ''open'' else state) at d1)"

definition domainObs :: "instant \<Rightarrow> service_snapshot" where
  "domainObs at = \<lparr>ss_at = at, ss_host = [], ss_banner = [], ss_product = [], ss_version = [], ss_http = [],
     ss_tls = [], ss_screenshot = [], ss_raw = []\<rparr>"

text \<open>A finding is recorded with the run that observed it; failures are logged and passed over.\<close>

definition finding ::
  "uuid \<Rightarrow> uuid \<Rightarrow> uuid \<Rightarrow> string \<Rightarrow> string \<Rightarrow> string \<Rightarrow> string \<Rightarrow> json_object \<Rightarrow> instant \<Rightarrow> db \<Rightarrow> db" where
  "finding run sc asset assetKind kind severity title evidence at d =
     (case UpsertFinding sc asset assetKind kind severity title evidence at d of
        (Inl e, d1) \<Rightarrow> d1
      | (Inr i, d1) \<Rightarrow> snd (RecordFindingObservation i run severity evidence at d1))"

section \<open>Certificates\<close>

record cert_finding =
  cf_kind :: string
  cf_severity :: string
  cf_title :: string
  cf_evidence :: json_object

definition day :: int where
  "day = seconds (24 * 3600)"

text \<open>Go's zero time, 1 January of the year 1.\<close>

definition zero_time :: instant where
  "zero_time = seconds (- 62135596800)"

text \<open>The days are exact here; the code divides floating-point hours and truncates towards zero.\<close>

definition days_left :: "instant \<Rightarrow> instant \<Rightarrow> int" where
  "days_left notAfter now = (if notAfter \<ge> now then (notAfter - now) div day else - ((now - notAfter) div day))"

definition certFindings :: "instant option \<Rightarrow> string \<Rightarrow> string \<Rightarrow> string \<Rightarrow> instant \<Rightarrow> cert_finding list" where
  "certFindings notAfter subjectCN issuer host now = (case notAfter of
     None \<Rightarrow> []
   | Some na \<Rightarrow>
       (if na = zero_time then []
        else let wher = (if host = [] then subjectCN else host);
                 ev = [(''not_after'', JTime na), (''subject_cn'', JStr subjectCN), (''issuer'', JStr issuer),
                       (''host'', JStr host), (''days_left'', JNum (days_left na now))];
                 on = (\<lambda>s. if wher = [] then s else s @ '' on '' @ wher);
                 mk = (\<lambda>k sv t. [\<lparr>cf_kind = k, cf_severity = sv, cf_title = on t, cf_evidence = ev\<rparr>])
             in if na < now then mk ''tls_certificate_expired'' ''high'' ''TLS certificate has expired''
                else if na - now \<le> 14 * day then mk ''tls_certificate_expiring'' ''medium'' ''TLS certificate expires within 14 days''
                else if na - now \<le> 30 * day then mk ''tls_certificate_expiring'' ''low'' ''TLS certificate expires within 30 days''
                else if issuer \<noteq> [] \<and> ToLower issuer = ToLower subjectCN
                then mk ''tls_certificate_self_signed'' ''low'' ''Self-signed TLS certificate''
                else []))"

section \<open>One observation\<close>

text \<open>What a web observation says of its response: only fields with a value.\<close>

definition http_doc :: "observation \<Rightarrow> json_object" where
  "http_doc ob =
     (if o_status ob \<noteq> 0 then [(''status'', JNum (o_status ob))] else []) @
     (if o_title ob \<noteq> [] then [(''title'', JStr (o_title ob))] else []) @
     (if o_headers ob \<noteq> [] then [(''headers'', JObj (map (\<lambda>(k, v). (k, JStr v)) (o_headers ob)))] else []) @
     (if o_favicon ob \<noteq> [] then [(''favicon'', JStr (o_favicon ob))] else []) @
     (if o_cookies ob \<noteq> [] then [(''cookies'', JTexts (o_cookies ob))] else [])"

definition tls_doc :: "observation \<Rightarrow> json_object" where
  "tls_doc ob = [(''cert_sha256'', JStr (o_cert_sha256 ob)), (''subject_cn'', JStr (o_subject_cn ob)),
     (''issuer'', JStr (o_issuer ob)), (''sans'', if o_sans ob = [] then JNull else JTexts (o_sans ob)),
     (''not_after'', case o_not_after ob of None \<Rightarrow> JNull | Some t \<Rightarrow> JTime t)]"

definition needs_address :: "obs_type \<Rightarrow> bool" where
  "needs_address t \<longleftrightarrow> t \<in> {ObsService, ObsHTTP, ObsTLS, ObsTech, ObsScreenshot, ObsPath}"

fun bump_sources :: "string list \<Rightarrow> (string \<rightharpoonup> int) \<Rightarrow> (string \<rightharpoonup> int)" where
  "bump_sources [] m = m"
| "bump_sources (s # ss) m = (let x = TrimSpace s in bump_sources ss
     (if x = [] then m else m(x \<mapsto> (case m x of None \<Rightarrow> 0 | Some n \<Rightarrow> n) + 1)))"

definition note_domain :: "observation \<Rightarrow> stage_summary \<Rightarrow> stage_summary" where
  "note_domain ob sm = (if o_domain ob \<in> set (sm_domains sm) then sm
     else sm\<lparr>sm_domains := sm_domains sm @ [o_domain ob],
              sm_sources := bump_sources (split_on CHR '','' (o_source ob)) (sm_sources sm)\<rparr>)"

definition note_ip :: "string \<Rightarrow> stage_summary \<Rightarrow> stage_summary" where
  "note_ip ip sm = (if ip \<in> set (sm_ips sm) then sm else sm\<lparr>sm_ips := sm_ips sm @ [ip]\<rparr>)"

definition service_key :: "ip_port \<Rightarrow> string" where
  "service_key e = fst e @ '':'' @ Itoa (snd e)"

definition note_service :: "ip_port \<Rightarrow> stage_summary \<Rightarrow> stage_summary" where
  "note_service e sm = (if service_key e \<in> service_key ` set (sm_services sm) then sm
     else sm\<lparr>sm_services := sm_services sm @ [e]\<rparr>)"

definition note_url :: "string \<Rightarrow> stage_summary \<Rightarrow> stage_summary" where
  "note_url u sm = (if u \<noteq> [] \<and> u \<notin> set (sm_urls sm) then sm\<lparr>sm_urls := sm_urls sm @ [u]\<rparr> else sm)"

text \<open>What a batch is ingested for.\<close>

record ingest_env =
  ie_apex :: "string \<Rightarrow> string"
  ie_scope :: uuid
  ie_run :: uuid
  ie_worker :: "uuid option"
  ie_now :: instant

type_synonym ingested = "string option \<times> stage_summary \<times> db"

definition observe_wildcard :: "ingest_env \<Rightarrow> observation \<Rightarrow> stage_summary \<Rightarrow> db \<Rightarrow> ingested" where
  "observe_wildcard v ob sm d = (None, sm, if o_domain ob = [] then d
     else snd (MarkWildcard (ie_scope v) (norm (o_domain ob)) (ie_apex v (o_domain ob)) (split_on CHR '','' (o_value ob)) (ie_now v) d))"

definition observe_subdomain :: "ingest_env \<Rightarrow> observation \<Rightarrow> stage_summary \<Rightarrow> db \<Rightarrow> ingested" where
  "observe_subdomain v ob sm d = (if o_domain ob = [] then (None, sm, d)
     else case UpsertDomain (ie_scope v) (norm (o_domain ob)) (ie_apex v (o_domain ob)) (o_source ob) (ie_now v) d of
       (Inl e, d1) \<Rightarrow> (Some e, sm, d1)
     | (Inr i, d1) \<Rightarrow> (None, note_domain ob sm, d1))"

definition observe_resolution :: "ingest_env \<Rightarrow> uuid \<Rightarrow> observation \<Rightarrow> stage_summary \<Rightarrow> db \<Rightarrow> ingested" where
  "observe_resolution v dm ob sm d = (case UpsertIP (ie_scope v) (o_value ob) (ie_now v) d of
     (Inl e, d1) \<Rightarrow> (Some e, sm, d1)
   | (Inr ip, d1) \<Rightarrow> (case LinkDomainIP dm ip (o_rtype ob) (ie_now v) d1 of
       (Some e, d2) \<Rightarrow> (Some e, sm, d2)
     | (None, d2) \<Rightarrow> (None, note_ip (o_value ob) sm, snd (RecordDomainIPObservation dm ip (ie_run v) (ie_now v) d2))))"

definition observe_dns :: "ingest_env \<Rightarrow> observation \<Rightarrow> stage_summary \<Rightarrow> db \<Rightarrow> ingested" where
  "observe_dns v ob sm d =
     (case UpsertDomain (ie_scope v) (norm (o_domain ob)) (ie_apex v (o_domain ob)) ''dns'' (ie_now v) d of
        (Inl e, d1) \<Rightarrow> (Some e, sm, d1)
      | (Inr dm, d1) \<Rightarrow> (case UpsertDNSRecord dm (o_rtype ob) (o_value ob) (o_ttl ob) (ie_now v) d1 of
          (Some e, d2) \<Rightarrow> (Some e, sm, d2)
        | (None, d2) \<Rightarrow> (if o_rtype ob \<in> {''A'', ''AAAA''} then observe_resolution v dm ob sm d2 else (None, sm, d2))))"

definition observe_ip :: "ingest_env \<Rightarrow> observation \<Rightarrow> stage_summary \<Rightarrow> db \<Rightarrow> ingested" where
  "observe_ip v ob sm d = (case UpsertIP (ie_scope v) (o_ip ob) (ie_now v) d of
     (Inl e, d1) \<Rightarrow> (Some e, sm, d1)
   | (Inr i, d1) \<Rightarrow> (None, note_ip (o_ip ob) sm,
       if o_ptr ob \<noteq> [] \<or> o_asn ob \<noteq> 0 \<or> o_as_org ob \<noteq> [] \<or> o_as_range ob \<noteq> [] \<or> o_country ob \<noteq> [] \<or>
          o_cloud ob \<noteq> [] \<or> o_shared ob
       then EnrichIP i (o_ptr ob) (o_as_org ob) (o_country ob) (o_cloud ob) (o_as_range ob) (o_asn ob) (o_shared ob) d1
       else d1))"

definition observe_service :: "ingest_env \<Rightarrow> observation \<Rightarrow> stage_summary \<Rightarrow> db \<Rightarrow> ingested" where
  "observe_service v ob sm d = (case serviceID (ie_scope v) (o_ip ob) (o_port ob) (o_proto ob) (o_state ob) (ie_now v) d of
     (Inl e, d1) \<Rightarrow> (Some e, sm, d1)
   | (Inr svc, d1) \<Rightarrow> (None, note_service (o_ip ob, o_port ob) sm,
       if o_state ob = [] \<or> o_state ob = ''open''
       then snd (UpsertServiceObservation svc (ie_run v) (ie_worker v)
              ((domainObs (ie_now v))\<lparr>ss_product := o_product ob, ss_version := o_version ob, ss_banner := o_banner ob\<rparr>) d1)
       else d1))"

text \<open>The stages that report on a web service record it as an open TCP port first.\<close>

definition web_service :: "ingest_env \<Rightarrow> observation \<Rightarrow> db \<Rightarrow> uuid result \<times> db" where
  "web_service v ob d = serviceID (ie_scope v) (o_ip ob) (o_port ob) ''tcp'' ''open'' (ie_now v) d"

definition observe_http :: "ingest_env \<Rightarrow> observation \<Rightarrow> stage_summary \<Rightarrow> db \<Rightarrow> ingested" where
  "observe_http v ob sm d = (case web_service v ob d of
     (Inl e, d1) \<Rightarrow> (Some e, sm, d1)
   | (Inr svc, d1) \<Rightarrow> (case UpsertServiceObservation svc (ie_run v) (ie_worker v)
         ((domainObs (ie_now v))\<lparr>ss_host := norm (o_host ob), ss_product := o_product ob, ss_version := o_version ob,
            ss_http := http_doc ob\<rparr>) d1 of
       (Some e, d2) \<Rightarrow> (Some e, sm, d2)
     | (None, d2) \<Rightarrow> (None, note_url (urlFor ob) sm, d2)))"

fun cert_rows :: "ingest_env \<Rightarrow> uuid \<Rightarrow> cert_finding list \<Rightarrow> db \<Rightarrow> db" where
  "cert_rows v svc [] d = d"
| "cert_rows v svc (cf # cfs) d = cert_rows v svc cfs
     (finding (ie_run v) (ie_scope v) svc ''service'' (cf_kind cf) (cf_severity cf) (cf_title cf) (cf_evidence cf) (ie_now v) d)"

definition observe_tls :: "ingest_env \<Rightarrow> observation \<Rightarrow> stage_summary \<Rightarrow> db \<Rightarrow> ingested" where
  "observe_tls v ob sm d = (case web_service v ob d of
     (Inl e, d1) \<Rightarrow> (Some e, sm, d1)
   | (Inr svc, d1) \<Rightarrow> (case UpsertServiceObservation svc (ie_run v) (ie_worker v)
         ((domainObs (ie_now v))\<lparr>ss_tls := tls_doc ob\<rparr>) d1 of
       (Some e, d2) \<Rightarrow> (Some e, sm, d2)
     | (None, d2) \<Rightarrow> (None, sm,
         cert_rows v svc (certFindings (o_not_after ob) (o_subject_cn ob) (o_issuer ob) (norm (o_host ob)) (ie_now v)) d2)))"

definition observe_tech :: "ingest_env \<Rightarrow> observation \<Rightarrow> stage_summary \<Rightarrow> db \<Rightarrow> ingested" where
  "observe_tech v ob sm d = (case web_service v ob d of
     (Inl e, d1) \<Rightarrow> (Some e, sm, d1)
   | (Inr svc, d1) \<Rightarrow> (case UpsertTechnology svc (o_tech_name ob) (o_tech_version ob) (o_tech_cpe ob) (o_tech_confidence ob) (ie_now v) d1 of
       (e, d2) \<Rightarrow> (e, sm, d2)))"

definition observe_screenshot :: "ingest_env \<Rightarrow> observation \<Rightarrow> stage_summary \<Rightarrow> db \<Rightarrow> ingested" where
  "observe_screenshot v ob sm d = (case web_service v ob d of
     (Inl e, d1) \<Rightarrow> (Some e, sm, d1)
   | (Inr svc, d1) \<Rightarrow> (case UpsertServiceObservation svc (ie_run v) (ie_worker v)
         ((domainObs (ie_now v))\<lparr>ss_host := norm (o_host ob), ss_screenshot := o_screenshot_key ob\<rparr>) d1 of
       (e, d2) \<Rightarrow> (e, sm, d2)))"

definition on_host :: "string \<Rightarrow> observation \<Rightarrow> string" where
  "on_host title ob = (if norm (o_host ob) = [] then title else title @ '' on '' @ norm (o_host ob))"

definition observe_path :: "ingest_env \<Rightarrow> observation \<Rightarrow> stage_summary \<Rightarrow> db \<Rightarrow> ingested" where
  "observe_path v ob sm d = (case web_service v ob d of
     (Inl e, d1) \<Rightarrow> (None, sm, d1)
   | (Inr svc, d1) \<Rightarrow> (None, sm, finding (ie_run v) (ie_scope v) svc ''service'' ''content_discovery'' ''info''
       (on_host (''Discovered path: '' @ o_path ob) ob)
       [(''path'', JStr (o_path ob)), (''status'', JNum (o_status ob)), (''host'', JStr (norm (o_host ob)))] (ie_now v) d1))"

definition observe_finding :: "ingest_env \<Rightarrow> observation \<Rightarrow> stage_summary \<Rightarrow> db \<Rightarrow> ingested" where
  "observe_finding v ob sm d =
     (let (asset, d1) = (if o_ip ob \<noteq> [] \<and> o_port ob \<noteq> 0
            then (case web_service v ob d of (Inl e, d1) \<Rightarrow> (uuid_Nil, d1) | (Inr svc, d1) \<Rightarrow> (svc, d1))
            else (uuid_Nil, d))
      in (None, sm, finding (ie_run v) (ie_scope v) asset ''service'' (o_finding_kind ob) (sev (o_finding_severity ob))
           (on_host (o_finding_title ob) ob) [(''banner'', JStr (o_banner ob)), (''host'', JStr (norm (o_host ob)))] (ie_now v) d1))"

definition observe :: "ingest_env \<Rightarrow> observation \<Rightarrow> stage_summary \<Rightarrow> db \<Rightarrow> ingested" where
  "observe v ob sm d = (if needs_address (o_type ob) \<and> o_ip ob = [] then (None, sm, d)
     else case o_type ob of
       ObsWildcard \<Rightarrow> observe_wildcard v ob sm d
     | ObsSubdomain \<Rightarrow> observe_subdomain v ob sm d
     | ObsDNSRecord \<Rightarrow> observe_dns v ob sm d
     | ObsIP \<Rightarrow> observe_ip v ob sm d
     | ObsService \<Rightarrow> observe_service v ob sm d
     | ObsHTTP \<Rightarrow> observe_http v ob sm d
     | ObsTLS \<Rightarrow> observe_tls v ob sm d
     | ObsTech \<Rightarrow> observe_tech v ob sm d
     | ObsScreenshot \<Rightarrow> observe_screenshot v ob sm d
     | ObsPath \<Rightarrow> observe_path v ob sm d
     | ObsFinding \<Rightarrow> observe_finding v ob sm d)"

section \<open>A batch\<close>

fun observe_all :: "ingest_env \<Rightarrow> observation list \<Rightarrow> stage_summary \<Rightarrow> db \<Rightarrow> ingested" where
  "observe_all v [] sm d = (None, sm, d)"
| "observe_all v (ob # obs) sm d = (case observe v ob sm d of
     (Some e, sm1, d1) \<Rightarrow> (Some e, sm1, d1)
   | (None, sm1, d1) \<Rightarrow> observe_all v obs sm1 d1)"

definition Process ::
  "(string \<Rightarrow> string) \<Rightarrow> uuid \<Rightarrow> uuid option \<Rightarrow> instant \<Rightarrow> observation list \<Rightarrow> scope_cache \<Rightarrow> db \<Rightarrow> ingested \<times> scope_cache" where
  "Process apex run w now obs m d = (case scopeOf run d m of
     (Inl e, m1) \<Rightarrow> ((Some e, no_summary, d), m1)
   | (Inr sc, m1) \<Rightarrow> (observe_all \<lparr>ie_apex = apex, ie_scope = sc, ie_run = run, ie_worker = w, ie_now = now\<rparr>
        obs no_summary d, m1))"

end
