(* ===== verification/IngestProps.thy ===== *)
theory IngestProps
  imports Ingest
begin

text \<open>
  What ingesting a batch guarantees: the graph only grows and stays well formed, the summary the
  planner reads is complete, and the URL written for a web service names its address and port.
\<close>

section \<open>Every observation is a step of the graph\<close>

lemma finding_step: "asset_step d (finding run sc asset ak kind severity title evidence at d)"
proof -
  obtain r d1 where u: "UpsertFinding sc asset ak kind severity title evidence at d = (r, d1)"
    by (cases "UpsertFinding sc asset ak kind severity title evidence at d")
  from UpsertFinding_step [OF u] RecordFindingObservation_step [of d1] show ?thesis
    by (cases r) (auto simp: finding_def u intro: asset_step_trans)
qed

lemma serviceID_step: "serviceID sc ip port proto state at d = (r, d') \<Longrightarrow> asset_step d d'"
  by (auto simp: serviceID_def split: prod.splits sum.splits dest!: UpsertIP_step UpsertService_step intro: asset_step_trans)

lemma web_service_step: "web_service v ob d = (r, d') \<Longrightarrow> asset_step d d'"
  unfolding web_service_def by (rule serviceID_step)

lemma cert_rows_step: "asset_step d (cert_rows v svc cfs d)"
  by (induction cfs arbitrary: d) (auto intro: asset_step_trans finding_step)

lemma MarkWildcard_snd: "asset_step d (snd (MarkWildcard sc name apex ips at d))"
  by (cases "MarkWildcard sc name apex ips at d") (auto dest: MarkWildcard_step)

lemma UpsertServiceObservation_snd: "asset_step d (snd (UpsertServiceObservation svc run w s d))"
  by (cases "UpsertServiceObservation svc run w s d") (auto dest: UpsertServiceObservation_step)

lemmas observe_defs = observe_wildcard_def observe_subdomain_def observe_resolution_def observe_dns_def observe_ip_def
  observe_service_def observe_http_def observe_tls_def observe_tech_def observe_screenshot_def observe_path_def
  observe_finding_def

lemmas graph_steps = UpsertDomain_step UpsertIP_step UpsertDNSRecord_step LinkDomainIP_step serviceID_step web_service_step
  UpsertServiceObservation_step UpsertTechnology_step

lemma observe_resolution_step: "observe_resolution v dm ob sm d = (e, sm', d') \<Longrightarrow> asset_step d d'"
  by (auto simp: observe_resolution_def split: prod.splits sum.splits option.splits dest!: graph_steps
      intro: asset_step_trans RecordDomainIPObservation_step)

lemma observe_kinds_step:
  "observe_wildcard v ob sm d = (e, sm', d') \<Longrightarrow> asset_step d d'"
  "observe_subdomain v ob sm d = (e, sm', d') \<Longrightarrow> asset_step d d'"
  "observe_dns v ob sm d = (e, sm', d') \<Longrightarrow> asset_step d d'"
  "observe_ip v ob sm d = (e, sm', d') \<Longrightarrow> asset_step d d'"
  "observe_service v ob sm d = (e, sm', d') \<Longrightarrow> asset_step d d'"
  "observe_http v ob sm d = (e, sm', d') \<Longrightarrow> asset_step d d'"
  "observe_tls v ob sm d = (e, sm', d') \<Longrightarrow> asset_step d d'"
  "observe_tech v ob sm d = (e, sm', d') \<Longrightarrow> asset_step d d'"
  "observe_screenshot v ob sm d = (e, sm', d') \<Longrightarrow> asset_step d d'"
  "observe_path v ob sm d = (e, sm', d') \<Longrightarrow> asset_step d d'"
  "observe_finding v ob sm d = (e, sm', d') \<Longrightarrow> asset_step d d'"
proof -
  show "observe_wildcard v ob sm d = (e, sm', d') \<Longrightarrow> asset_step d d'"
    by (auto simp: observe_wildcard_def MarkWildcard_snd)
  show "observe_subdomain v ob sm d = (e, sm', d') \<Longrightarrow> asset_step d d'"
    by (auto simp: observe_subdomain_def split: if_splits prod.splits sum.splits dest!: graph_steps)
  show "observe_dns v ob sm d = (e, sm', d') \<Longrightarrow> asset_step d d'"
    by (auto simp: observe_dns_def split: if_splits prod.splits sum.splits option.splits
        dest!: graph_steps observe_resolution_step intro: asset_step_trans)
  show "observe_ip v ob sm d = (e, sm', d') \<Longrightarrow> asset_step d d'"
    by (auto simp: observe_ip_def split: prod.splits sum.splits if_splits dest!: graph_steps intro: asset_step_trans EnrichIP_step)
  show "observe_service v ob sm d = (e, sm', d') \<Longrightarrow> asset_step d d'"
    by (auto simp: observe_service_def split: prod.splits sum.splits if_splits dest!: graph_steps
        intro: asset_step_trans UpsertServiceObservation_snd)
  show "observe_http v ob sm d = (e, sm', d') \<Longrightarrow> asset_step d d'"
    by (auto simp: observe_http_def split: prod.splits sum.splits option.splits dest!: graph_steps intro: asset_step_trans)
  show "observe_tls v ob sm d = (e, sm', d') \<Longrightarrow> asset_step d d'"
    by (auto simp: observe_tls_def split: prod.splits sum.splits option.splits dest!: graph_steps
        intro: asset_step_trans cert_rows_step)
  show "observe_tech v ob sm d = (e, sm', d') \<Longrightarrow> asset_step d d'"
    by (auto simp: observe_tech_def split: prod.splits sum.splits dest!: graph_steps intro: asset_step_trans)
  show "observe_screenshot v ob sm d = (e, sm', d') \<Longrightarrow> asset_step d d'"
    by (auto simp: observe_screenshot_def split: prod.splits sum.splits dest!: graph_steps intro: asset_step_trans)
  show "observe_path v ob sm d = (e, sm', d') \<Longrightarrow> asset_step d d'"
    by (auto simp: observe_path_def split: prod.splits sum.splits dest!: graph_steps intro: asset_step_trans finding_step)
  show "observe_finding v ob sm d = (e, sm', d') \<Longrightarrow> asset_step d d'"
    by (auto simp: observe_finding_def Let_def split: prod.splits sum.splits if_splits dest!: graph_steps
        intro: asset_step_trans finding_step)
qed

lemma observe_step: "observe v ob sm d = (e, sm', d') \<Longrightarrow> asset_step d d'"
  unfolding observe_def by (cases "o_type ob") (auto split: if_splits dest: observe_kinds_step)

lemma observe_all_step: "observe_all v obs sm d = (e, sm', d') \<Longrightarrow> asset_step d d'"
proof (induction obs arbitrary: sm d)
  case (Cons ob obs)
  obtain e1 sm1 d1 where 1: "observe v ob sm d = (e1, sm1, d1)" by (cases "observe v ob sm d")
  from Cons.prems 1 Cons.IH [of sm1 d1] observe_step [OF 1] show ?case
    by (cases e1) (auto intro: asset_step_trans)
qed simp

lemma Process_step: "Process apex run w now obs m d = ((e, sm, d'), m') \<Longrightarrow> asset_step d d'"
  by (auto simp: Process_def split: prod.splits sum.splits dest: observe_all_step)

section \<open>The graph only grows\<close>

definition ingest_db :: db where
  "ingest_db = empty_db\<lparr>db_scopes := [\<lparr>sco_id = 1, sco_name = ''acme'', sco_created_by = ''local'', sco_created_at = 0,
       sco_exit = [], sco_vpn = None, sco_pool = None, sco_visibility = ''shared'', sco_owner = None\<rparr>],
     db_runs := [sample_run]\<rparr>"

definition wordpress :: "string \<Rightarrow> observation" where
  "wordpress version = (no_observation ObsTech)\<lparr>o_ip := ''8.8.8.8'', o_port := 80, o_tech_name := ''WordPress'', o_tech_version := version\<rparr>"

definition batch :: "observation list" where
  "batch = [(no_observation ObsService)\<lparr>o_ip := ''8.8.8.8'', o_port := 80, o_banner := ''nginx''\<rparr>,
     (no_observation ObsHTTP)\<lparr>o_ip := ''8.8.8.8'', o_port := 80, o_title := ''Home'', o_cookies := [''sid'']\<rparr>,
     (no_observation ObsTech)\<lparr>o_tech_name := ''Drupal''\<rparr>, wordpress [], wordpress ''6.4'', wordpress []]"

definition ingested_db :: db where
  "ingested_db = snd (snd (fst (Process id 7 None 0 batch [] ingest_db)))"



text \<open>
  C31: The graph stays well formed. Names are unique in their company, addresses too, services on
  their address, observations per service, run and virtual host, and findings by asset, kind and
  title; and a technology is never listed without a version beside the same one with a version.
  A batch keeps all of this, even one that fails half way.
\<close>

theorem Process_well_formed:
  assumes "assets_ok d" and "Process apex run w now obs m d = ((e, sm, d'), m')"
  shows "assets_ok d'"
  using Process_step [OF assms(2)] assms(1) by (simp add: asset_step_def)

theorem Process_well_formed_witness:
  "assets_ok ingested_db \<and> map te_version (as_technologies (db_assets ingested_db)) = [''6.4'']"
proof -
  have "assets_ok ingest_db" by (simp add: assets_ok_def ingest_db_def empty_db_def no_assets_def techs_ok_def)
  moreover have "map te_version (as_technologies (db_assets ingested_db)) = [''6.4'']" by code_simp
  ultimately show ?thesis
    using Process_well_formed [of ingest_db id 7 None 0 batch "[]"] unfolding ingested_db_def by (metis prod.collapse)
qed

section \<open>The summary\<close>

definition note_obs :: "observation \<Rightarrow> stage_summary \<Rightarrow> stage_summary" where
  "note_obs ob sm = (case o_type ob of
     ObsSubdomain \<Rightarrow> if o_domain ob = [] then sm else note_domain ob sm
   | ObsDNSRecord \<Rightarrow> if o_rtype ob \<in> {''A'', ''AAAA''} then note_ip (o_value ob) sm else sm
   | ObsIP \<Rightarrow> note_ip (o_ip ob) sm
   | ObsService \<Rightarrow> if o_ip ob = [] then sm else note_service (o_ip ob, o_port ob) sm
   | ObsHTTP \<Rightarrow> if o_ip ob = [] then sm else note_url (urlFor ob) sm
   | _ \<Rightarrow> sm)"

lemma observe_notes: "observe v ob sm d = (None, sm', d') \<Longrightarrow> sm' = note_obs ob sm"
  unfolding observe_def note_obs_def needs_address_def
  by (cases "o_type ob") (auto simp: observe_defs Let_def split: if_splits prod.splits sum.splits option.splits)

lemma observe_all_notes: "observe_all v obs sm d = (None, sm', d') \<Longrightarrow> sm' = foldl (\<lambda>s ob. note_obs ob s) sm obs"
proof (induction obs arbitrary: sm d)
  case (Cons ob obs)
  obtain e1 sm1 d1 where 1: "observe v ob sm d = (e1, sm1, d1)" by (cases "observe v ob sm d")
  with Cons show ?case by (cases e1) (auto dest: observe_notes)
qed simp

lemma itoa_no_colon: "CHR '':'' \<notin> set (Itoa n)"
  using itoa_nat_no_char [of "CHR '':''"] by (auto simp: Itoa_def is_digit_def code_def)

lemma Itoa_inj: "Itoa a = Itoa b \<Longrightarrow> a = b"
proof -
  have "CHR ''-'' \<notin> set (itoa_nat n)" for n by (rule itoa_nat_no_char) (simp add: is_digit_def code_def)
  then have "CHR ''-'' # itoa_nat m \<noteq> itoa_nat n" for m n by (metis list.set_intros(1))
  then show "Itoa a = Itoa b \<Longrightarrow> a = b"
    by (auto simp: Itoa_def dest: itoa_nat_inj split: if_splits) (metis)+
qed

lemma service_key_inj: "service_key a = service_key b \<longleftrightarrow> a = b"
proof
  assume "service_key a = service_key b"
  then have "rev (Itoa (snd a)) @ CHR '':'' # rev (fst a) = rev (Itoa (snd b)) @ CHR '':'' # rev (fst b)"
    by (metis (no_types) append.simps rev.simps rev_append append_assoc service_key_def)
  then have "rev (Itoa (snd a)) = rev (Itoa (snd b)) \<and> rev (fst a) = rev (fst b)"
    using itoa_no_colon by (simp add: append_sep_eq)
  then show "a = b" using Itoa_inj by (simp add: prod_eq_iff)
qed simp

text \<open>What one observation adds to each list of the summary.\<close>

definition noted_domain :: "observation \<Rightarrow> string list" where
  "noted_domain ob = (if o_type ob = ObsSubdomain \<and> o_domain ob \<noteq> [] then [o_domain ob] else [])"

definition noted_ip :: "observation \<Rightarrow> string list" where
  "noted_ip ob = (if o_type ob = ObsIP then [o_ip ob]
     else if o_type ob = ObsDNSRecord \<and> o_rtype ob \<in> {''A'', ''AAAA''} then [o_value ob] else [])"

definition noted_service :: "observation \<Rightarrow> ip_port list" where
  "noted_service ob = (if o_type ob = ObsService \<and> o_ip ob \<noteq> [] then [(o_ip ob, o_port ob)] else [])"

definition noted_url :: "observation \<Rightarrow> string list" where
  "noted_url ob = (if o_type ob = ObsHTTP \<and> urlFor ob \<noteq> [] then [urlFor ob] else [])"

lemma note_obs_lists:
  "sm_domains (note_obs ob sm) = append_new (sm_domains sm) (noted_domain ob)"
  "sm_ips (note_obs ob sm) = append_new (sm_ips sm) (noted_ip ob)"
  "sm_services (note_obs ob sm) = append_new (sm_services sm) (noted_service ob)"
  "sm_urls (note_obs ob sm) = append_new (sm_urls sm) (noted_url ob)"
proof -
  have url: "o_ip ob = [] \<Longrightarrow> urlFor ob = []" by (simp add: urlFor_def)
  have key: "service_key e \<in> service_key ` set es \<longleftrightarrow> e \<in> set es" for e es
    by (auto simp: service_key_inj)
  show "sm_domains (note_obs ob sm) = append_new (sm_domains sm) (noted_domain ob)"
    by (cases "o_type ob") (simp_all add: note_obs_def noted_domain_def note_domain_def note_ip_def note_service_def note_url_def)
  show "sm_ips (note_obs ob sm) = append_new (sm_ips sm) (noted_ip ob)"
    by (cases "o_type ob") (simp_all add: note_obs_def noted_ip_def note_domain_def note_ip_def note_service_def note_url_def)
  show "sm_services (note_obs ob sm) = append_new (sm_services sm) (noted_service ob)"
    by (cases "o_type ob") (simp_all add: note_obs_def noted_service_def note_domain_def note_ip_def note_service_def note_url_def key)
  show "sm_urls (note_obs ob sm) = append_new (sm_urls sm) (noted_url ob)"
    by (cases "o_type ob") (auto simp: note_obs_def noted_url_def note_domain_def note_ip_def note_service_def note_url_def url)
qed

lemma foldl_note:
  "(\<And>ob sm. f (note_obs ob sm) = append_new (f sm) (g ob)) \<Longrightarrow>
   f (foldl (\<lambda>s ob. note_obs ob s) sm obs) = append_new (f sm) (concat (map g obs))"
proof (induction obs arbitrary: sm)
  case (Cons ob obs)
  then show ?case by (simp add: append_new_append)
qed simp

lemma Process_lists:
  assumes "Process apex run w now obs m d = ((None, sm, d'), m')"
  shows "sm_domains sm = append_new [] (concat (map noted_domain obs)) \<and>
    sm_ips sm = append_new [] (concat (map noted_ip obs)) \<and>
    sm_services sm = append_new [] (concat (map noted_service obs)) \<and>
    sm_urls sm = append_new [] (concat (map noted_url obs))"
proof -
  obtain v d0 where "observe_all v obs no_summary d = (None, sm, d0)"
    using assms by (auto simp: Process_def split: prod.splits sum.splits)
  from observe_all_notes [OF this] show ?thesis
    using foldl_note [of sm_domains, OF note_obs_lists(1)] foldl_note [of sm_ips, OF note_obs_lists(2)]
      foldl_note [of sm_services, OF note_obs_lists(3)] foldl_note [of sm_urls, OF note_obs_lists(4)] by simp
qed

text \<open>
  C32: The summary of a batch is exactly what it reported. When a batch is ingested without an error,
  its summary lists each new name, address, service and web URL of its observations once, in the
  order they were reported, and nothing else; so no service that was reported is left out of what
  the planner probes next.
\<close>

theorem Process_summary_exact:
  assumes "Process apex run w now obs m d = ((None, sm, d'), m')"
  shows "sm_domains sm = append_new [] (concat (map noted_domain obs)) \<and>
    sm_ips sm = append_new [] (concat (map noted_ip obs)) \<and>
    sm_services sm = append_new [] (concat (map noted_service obs)) \<and>
    sm_urls sm = append_new [] (concat (map noted_url obs))"
  using assms by (rule Process_lists)

theorem Process_summary_exact_witness:
  "sm_services (fst (snd (fst (Process id 7 None 0 batch [] ingest_db)))) = [(''8.8.8.8'', 80)] \<and>
   sm_urls (fst (snd (fst (Process id 7 None 0 batch [] ingest_db)))) = [''http://8.8.8.8:80'']"
proof -
  have "fst (fst (Process id 7 None 0 batch [] ingest_db)) = None" by code_simp
  then obtain sm d' m' where "Process id 7 None 0 batch [] ingest_db = ((None, sm, d'), m')" by (metis prod.collapse)
  moreover have "append_new [] (concat (map noted_service batch)) = [(''8.8.8.8'', 80)]"
    "append_new [] (concat (map noted_url batch)) = [''http://8.8.8.8:80'']" by code_simp+
  ultimately show ?thesis using Process_summary_exact by fastforce
qed

section \<open>Web URLs\<close>

lemma take_scheme_letters:
  "list_all is_lower_alpha s \<Longrightarrow> acc @ s \<noteq> [] \<Longrightarrow> take_scheme acc (s @ CHR '':'' # r) = Some (rev acc @ s, r)"
proof (induction s arbitrary: acc)
  case Nil
  then show ?case by (simp add: is_lower_alpha_def is_upper_alpha_def is_digit_def code_def)
next
  case (Cons c s)
  then show ?case by simp
qed

text \<open>
  C34: The URL written for a web service is read back as its address and port: the planner's
  \<open>ipPortFromURL\<close> undoes the ingestor's \<open>urlFor\<close>, for IPv4 and for IPv6 addresses.
\<close>

theorem urlFor_roundtrip:
  assumes host: "plain_host (o_ip ob)" and port: "0 < o_port ob" "o_port ob \<le> max_int64"
  shows "ipPortFromURL (urlFor ob) = (o_ip ob, o_port ob)"
proof -
  define p where "p = itoa_nat (nat (o_port ob))"
  define a where "a = o_ip ob @ CHR '':'' # p"
  define sch where "sch = (if o_port ob = 443 \<or> o_port ob = 8443 then ''https'' else ''http'')"
  have p: "list_all is_digit p" "p \<noteq> []" unfolding p_def by (rule itoa_nat_digits) simp
  have u: "urlFor ob = sch @ CHR '':'' # ''//'' @ a"
    using port host by (simp add: urlFor_def sch_def a_def p_def Itoa_def plain_host_def)
  have chars: "(is_lower_alpha c \<or> is_upper_alpha c \<or> is_digit c \<or> c \<in> {CHR ''-'', CHR ''.'', CHR '':''})" if "c \<in> set a" for c
  proof -
    from that consider "c \<in> set (o_ip ob)" | "c = CHR '':''" | "c \<in> set p" unfolding a_def by auto
    then show ?thesis
      using host p(1) by cases (auto simp: plain_host_def list_all_iff)
  qed
  have plain: "32 \<le> code c \<and> code c \<noteq> 127 \<and> c \<noteq> CHR ''/'' \<and> c \<noteq> CHR ''?'' \<and> c \<noteq> CHR ''#'' \<and> c \<noteq> CHR ''%''" if "c \<in> set a" for c
    using chars [OF that] by (elim disjE) (auto simp: is_lower_alpha_def is_upper_alpha_def is_digit_def code_def)
  have sch: "list_all is_lower_alpha sch" "sch \<noteq> []" "ToLower sch = sch" "CHR ''#'' \<notin> set sch"
      "list_all (\<lambda>c. 32 \<le> code c \<and> code c \<noteq> 127) sch"
    by (simp_all add: sch_def is_lower_alpha_def code_def ToLower_def to_lower_def is_upper_alpha_def)
  have noslash: "CHR ''/'' \<notin> set a" "CHR ''?'' \<notin> set (''//'' @ a)" "CHR ''#'' \<notin> set (urlFor ob)"
    using plain sch(4) by (auto simp: u)
  have frag: "before_char CHR ''#'' (urlFor ob) = urlFor ob" "after_char CHR ''#'' (urlFor ob) = []"
  proof -
    have "dropWhile (\<lambda>x. x \<noteq> CHR ''#'') (urlFor ob) = []" using noslash(3) by (auto simp: dropWhile_eq_Nil_conv)
    then show "after_char CHR ''#'' (urlFor ob) = []" by (simp only: after_char_def drop_Nil)
  qed (rule before_char_none [OF noslash(3)])
  have printable: "list_all (\<lambda>c. 32 \<le> code c \<and> code c \<noteq> 127) (urlFor ob)"
    using sch(5) plain by (auto simp: u list_all_iff code_def)
  have scheme: "take_scheme [] (urlFor ob) = Some (sch, ''//'' @ a)"
    unfolding u using take_scheme_letters [of sch "[]" "''//'' @ a"] sch by simp
  have a0: "\<not> HasPrefix a ''/''" using noslash(1) by (cases a) auto
  have "url_parse (urlFor ob) = Some (sch, a)"
    unfolding url_parse_def Let_def frag scheme
    using printable sch noslash a0 parse_authority_plain [OF host p(1)]
    by (simp add: before_char_none a_def [symmetric])
  then show ?thesis
    using split_host_port_plain [OF host p(1)] p(2) port Atoi_itoa_nat [of "nat (o_port ob)"]
    by (simp add: ipPortFromURL_def a_def p_def)
qed

theorem urlFor_roundtrip_witness:
  "ipPortFromURL (urlFor ((no_observation ObsHTTP)\<lparr>o_ip := ''2001:db8::1'', o_port := 8443\<rparr>)) = (''2001:db8::1'', 8443)"
proof -
  have "plain_host ''2001:db8::1''" by code_simp
  then show ?thesis
    using urlFor_roundtrip [of "(no_observation ObsHTTP)\<lparr>o_ip := ''2001:db8::1'', o_port := 8443\<rparr>"]
    by (simp add: max_int64_def)
qed

section \<open>One bad address\<close>

text \<open>
  One address the database cannot read discards the rest of its batch. An address observation
  whose address PostgreSQL cannot read, an empty one included, fails the batch: every observation
  behind it is neither stored nor summarised. The check for unusable observations covers the
  kinds that are recorded against a service only.
\<close>

theorem unreadable_address_stops_batch:
  assumes "o_type ob = ObsIP" and "db_host d (o_ip ob) = None"
  shows "observe_all v (ob # obs) sm d = (Some ''invalid input syntax for type inet'', sm, d)"
  using assms by (simp add: observe_def needs_address_def observe_ip_def UpsertIP_def)

theorem unreadable_address_stops_batch_witness:
  "\<exists>v. observe_all v (no_observation ObsIP # batch) no_summary (ingest_db\<lparr>db_host := \<lambda>a. if a = [] then None else Some a\<rparr>) =
     (Some ''invalid input syntax for type inet'', no_summary, ingest_db\<lparr>db_host := \<lambda>a. if a = [] then None else Some a\<rparr>)"
  using unreadable_address_stops_batch [of "no_observation ObsIP" "ingest_db\<lparr>db_host := \<lambda>a. if a = [] then None else Some a\<rparr>"]
  by (simp add: no_observation_def)

end
