(* ===== verification/PlanProps.thy ===== *)
theory PlanProps
  imports Planner
begin

text \<open>
  What the planner guarantees. A planning site writes its batch through \<open>route_and_insert\<close>: the
  tasks appear behind the ones that were there, one per specification, each routed to its pool.
  On that rest the properties: where a run's tasks may run, which addresses may be scanned, that a
  second pass over the same findings plans nothing, and what a finished run says.
\<close>

section \<open>A batch of tasks\<close>

text \<open>The task a specification becomes.\<close>

definition planned :: "uuid \<Rightarrow> task_spec \<Rightarrow> task \<Rightarrow> bool" where
  "planned run sp t \<longleftrightarrow> t_run t = run \<and> t_stage t = sp_stage sp \<and> t_pool t = sp_pool sp \<and>
     t_status t = TaskPending \<and> t_requires t = sp_requires sp \<and> t_priority t = sp_priority sp \<and> t_result t = None \<and>
     t_target t = (if sp_wordlist sp \<noteq> [] then (sp_target sp)\<lparr>tg_wordlist := sp_wordlist sp\<rparr> else sp_target sp)"

lemma planned_new: "planned run sp (new_task d run sp)"
  by (simp add: planned_def new_task_def)

text \<open>The tables the planner only reads.\<close>

definition same_inputs :: "db \<Rightarrow> db \<Rightarrow> bool" where
  "same_inputs d d' \<longleftrightarrow> db_runs d' = db_runs d \<and> db_pools d' = db_pools d \<and> db_workers d' = db_workers d \<and>
     db_scope_targets d' = db_scope_targets d \<and> db_ips d' = db_ips d \<and> db_domains d' = db_domains d \<and>
     db_domain_ips d' = db_domain_ips d \<and> db_host d' = db_host d \<and> db_now d' = db_now d \<and> db_uuid d' = db_uuid d \<and>
     db_drawn d \<le> db_drawn d' \<and> db_wordlists d' = db_wordlists d \<and> db_run_wordlists d' = db_run_wordlists d \<and>
     map (\<lambda>r. (rt_id r, rt_run r, rt_kind r, rt_value r, rt_status r)) (db_targets d') =
     map (\<lambda>r. (rt_id r, rt_run r, rt_kind r, rt_value r, rt_status r)) (db_targets d)"

lemma same_inputs_refl [simp]: "same_inputs d d"
  by (simp add: same_inputs_def)

lemma same_inputs_trans: "same_inputs d d1 \<Longrightarrow> same_inputs d1 d2 \<Longrightarrow> same_inputs d d2"
  by (simp add: same_inputs_def)

lemma insert_origins_inputs: "insert_origins tid os d = Inr d' \<Longrightarrow> same_inputs d d' \<and>
    (\<exists>new. db_origins d' = db_origins d @ new \<and> fst ` set new \<subseteq> {tid} \<and> snd ` set new \<subseteq> set os)"
proof (induction tid os d rule: insert_origins.induct)
  case (1 tid d)
  then show ?case by simp
next
  case (2 tid ot os d)
  show ?case
  proof (cases "ot = uuid_Nil")
    case True
    then show ?thesis using 2 by fastforce
  next
    case False
    let ?os = "if (tid, ot) \<in> set (db_origins d) then db_origins d else db_origins d @ [(tid, ot)]"
    let ?d = "bump_total ot (d\<lparr>db_origins := ?os\<rparr>)"
    have step: "insert_origins tid os ?d = Inr d'" and ok: "ot \<in> rt_id ` set (db_targets d)"
      using 2(3) False by (auto split: if_splits)
    from 2(2) [OF False _ step] ok obtain new where
      new: "same_inputs ?d d'" "db_origins d' = db_origins ?d @ new" "fst ` set new \<subseteq> {tid}" "snd ` set new \<subseteq> set os"
      by auto
    have "same_inputs d ?d"
      unfolding same_inputs_def bump_total_def by (simp add: map_update_where)
    then have "same_inputs d d'" using new(1) same_inputs_trans by blast
    moreover have "\<exists>m. db_origins d' = db_origins d @ m \<and> fst ` set m \<subseteq> {tid} \<and> snd ` set m \<subseteq> set (ot # os)"
    proof (cases "(tid, ot) \<in> set (db_origins d)")
      case True
      then show ?thesis using new by (intro exI [of _ new]) auto
    next
      case False
      then show ?thesis using new by (intro exI [of _ "(tid, ot) # new"]) auto
    qed
    ultimately show ?thesis by blast
  qed
qed

text \<open>What inserting a batch does: the tasks, and the origins of those tasks, are appended.\<close>

definition adds :: "uuid \<Rightarrow> task_spec list \<Rightarrow> db \<Rightarrow> db \<Rightarrow> bool" where
  "adds run sps d d' \<longleftrightarrow> same_inputs d d' \<and> (\<exists>ts new. db_tasks d' = db_tasks d @ ts \<and> list_all2 (planned run) sps ts \<and>
     db_origins d' = db_origins d @ new \<and> fst ` set new \<subseteq> t_id ` set ts \<and>
     t_id ` set ts \<subseteq> db_uuid d ` {db_drawn d ..< db_drawn d'})"

lemma adds_refl: "adds run [] d d"
  by (simp add: adds_def)

lemma adds_append:
  assumes "adds run a d d1" and "adds run b d1 d2"
  shows "adds run (a @ b) d d2"
proof -
  obtain ts new where 1: "db_tasks d1 = db_tasks d @ ts" "list_all2 (planned run) a ts" "db_origins d1 = db_origins d @ new"
      "fst ` set new \<subseteq> t_id ` set ts" "t_id ` set ts \<subseteq> db_uuid d ` {db_drawn d ..< db_drawn d1}"
    using assms(1) by (auto simp: adds_def)
  obtain ts' new' where 2: "db_tasks d2 = db_tasks d1 @ ts'" "list_all2 (planned run) b ts'"
      "db_origins d2 = db_origins d1 @ new'" "fst ` set new' \<subseteq> t_id ` set ts'"
      "t_id ` set ts' \<subseteq> db_uuid d1 ` {db_drawn d1 ..< db_drawn d2}"
    using assms(2) by (auto simp: adds_def)
  have s: "same_inputs d d1" "same_inputs d1 d2" using assms by (simp_all add: adds_def)
  then have le: "db_uuid d1 = db_uuid d" "db_drawn d \<le> db_drawn d1" "db_drawn d1 \<le> db_drawn d2"
    by (simp_all add: same_inputs_def)
  have "t_id ` set (ts @ ts') \<subseteq> db_uuid d ` {db_drawn d ..< db_drawn d2}"
  proof -
    have "t_id ` set ts \<subseteq> db_uuid d ` {db_drawn d ..< db_drawn d2}"
      by (rule subset_trans [OF 1(5) image_mono]) (use le in auto)
    moreover have "t_id ` set ts' \<subseteq> db_uuid d ` {db_drawn d ..< db_drawn d2}"
      by (rule subset_trans [OF 2(5) [unfolded le(1)] image_mono]) (use le in auto)
    ultimately show ?thesis by (simp only: set_append image_Un Un_least)
  qed
  moreover have "fst ` set (new @ new') \<subseteq> t_id ` set (ts @ ts')" using 1(4) 2(4) by auto
  moreover have "list_all2 (planned run) (a @ b) (ts @ ts')" using 1(2) 2(2) by (rule list_all2_appendI)
  moreover have "db_tasks d2 = db_tasks d @ ts @ ts'" "db_origins d2 = db_origins d @ new @ new'"
    using 1(1,3) 2(1,3) by simp_all
  ultimately show ?thesis
    using same_inputs_trans [OF s] unfolding adds_def
    by (intro conjI exI [of _ "ts @ ts'"] exI [of _ "new @ new'"]) assumption+
qed

lemma insert_task_adds:
  assumes "insert_task run sp d = Inr d'"
  shows "adds run [sp] d d'"
proof -
  let ?d = "drawn d\<lparr>db_tasks := db_tasks d @ [new_task d run sp]\<rparr>"
  have ins: "insert_origins (fresh d) (sp_origins sp) ?d = Inr d'"
    using assms by (simp add: insert_task_def split: if_splits)
  obtain new where new: "same_inputs ?d d'" "db_origins d' = db_origins d @ new" "fst ` set new \<subseteq> {fresh d}"
    using insert_origins_inputs [OF ins] by auto
  have "same_inputs d ?d" by (simp add: same_inputs_def drawn_def)
  then have si: "same_inputs d d'" using new(1) same_inputs_trans by blast
  have "db_drawn ?d \<le> db_drawn d'" using new(1) by (simp only: same_inputs_def)
  then have "t_id (new_task d run sp) \<in> db_uuid d ` {db_drawn d ..< db_drawn d'}" by (simp add: fresh_def)
  then show ?thesis
    using si new insert_origins_tasks [OF ins] planned_new [of run sp d] unfolding adds_def
    by (intro conjI exI [of _ "[new_task d run sp]"] exI [of _ new]) simp_all
qed

lemma insert_tasks_adds: "insert_tasks run sps d = Inr d' \<Longrightarrow> adds run sps d d'"
proof (induction sps arbitrary: d)
  case Nil
  then show ?case by (simp add: adds_refl)
next
  case (Cons sp sps)
  then obtain d1 where "insert_task run sp d = Inr d1" "insert_tasks run sps d1 = Inr d'"
    by (auto split: sum.splits)
  then show ?case using adds_append [of run "[sp]" d d1 sps d'] insert_task_adds Cons.IH by simp
qed

text \<open>The pool each task of a batch is routed to.\<close>

definition routed :: "routing \<Rightarrow> task_spec \<Rightarrow> task_spec" where
  "routed rt sp = sp\<lparr>sp_pool := (if SendsTrafficToTarget (sp_stage sp) then rt_active rt else Some (rt_passive rt))\<rparr>"

lemma routeTasks_routed:
  "routeTasks sps rt = Inr sps' \<Longrightarrow> sps' = map (routed rt) sps \<and>
     (\<forall>sp \<in> set sps. SendsTrafficToTarget (sp_stage sp) \<longrightarrow> rt_active rt \<noteq> None)"
proof (induction sps arbitrary: sps')
  case Nil
  then show ?case by simp
next
  case (Cons sp sps)
  then obtain sp' r where r: "route_one rt sp = Inr sp'" "routeTasks sps rt = Inr r" "sps' = sp' # r"
    by (auto split: sum.splits)
  have "sp' = routed rt sp \<and> (SendsTrafficToTarget (sp_stage sp) \<longrightarrow> rt_active rt \<noteq> None)"
    using r(1) by (auto simp: route_one_def routed_def split: if_splits option.splits)
  then show ?case using Cons.IH [OF r(2)] r(3) by simp
qed

lemma route_and_insert_adds:
  assumes "route_and_insert run specs rt d = (e, d')"
  shows "if e = None then adds (run_id run) (map (routed rt) specs) d d' \<and>
      (\<forall>sp \<in> set specs. SendsTrafficToTarget (sp_stage sp) \<longrightarrow> rt_active rt \<noteq> None) else d' = d"
proof (cases "routeTasks specs rt")
  case (Inl x)
  then show ?thesis using assms by (auto simp: route_and_insert_def)
next
  case (Inr sps)
  show ?thesis
  proof (cases "insert_tasks (run_id run) sps d")
    case (Inl x)
    then show ?thesis using assms Inr by (auto simp: route_and_insert_def InsertTasks_def)
  next
    case (Inr d1)
    then show ?thesis
      using assms \<open>routeTasks specs rt = Inr sps\<close> routeTasks_routed [of specs rt sps] insert_tasks_adds [OF Inr]
      by (auto simp: route_and_insert_def InsertTasks_def)
  qed
qed

section \<open>Where a run's tasks may run\<close>

definition extends :: "(task \<Rightarrow> bool) \<Rightarrow> db \<Rightarrow> db \<Rightarrow> bool" where
  "extends P d d' \<longleftrightarrow> same_inputs d d' \<and> (\<exists>ts. db_tasks d' = db_tasks d @ ts \<and> (\<forall>t \<in> set ts. P t))"

lemma extends_refl [simp]: "extends P d d"
  by (simp add: extends_def)

lemma extends_trans:
  assumes "extends P d d1" and "extends P d1 d2"
  shows "extends P d d2"
proof -
  obtain ts us where "db_tasks d1 = db_tasks d @ ts" "\<forall>t \<in> set ts. P t" "db_tasks d2 = db_tasks d1 @ us" "\<forall>t \<in> set us. P t"
    using assms by (auto simp: extends_def)
  then have "db_tasks d2 = db_tasks d @ (ts @ us) \<and> (\<forall>t \<in> set (ts @ us). P t)" by auto
  moreover have "same_inputs d d2" using assms same_inputs_trans by (auto simp: extends_def)
  ultimately show ?thesis unfolding extends_def by blast
qed

lemma extends_mono: "extends P d d' \<Longrightarrow> (\<And>t. P t \<Longrightarrow> Q t) \<Longrightarrow> extends Q d d'"
  by (auto simp: extends_def)

text \<open>A pending task of the run, bound to the run's exit if it touches the target, else to the passive pool.\<close>

definition well_routed :: "scan_run \<Rightarrow> uuid option \<Rightarrow> task \<Rightarrow> bool" where
  "well_routed run passive t \<longleftrightarrow> t_run t = run_id run \<and> t_status t = TaskPending \<and>
     (if SendsTrafficToTarget (t_stage t) then run_pool run \<noteq> None \<and> t_pool t = run_pool run
      else passive \<noteq> None \<and> t_pool t = passive)"

text \<open>The task a planned specification of this run becomes.\<close>

definition comes_from :: "task_spec list \<Rightarrow> task \<Rightarrow> bool" where
  "comes_from sps t \<longleftrightarrow> (\<exists>sp \<in> set sps. t_stage t = sp_stage sp \<and> t_requires t = sp_requires sp \<and>
     t_target t = (if sp_wordlist sp \<noteq> [] then (sp_target sp)\<lparr>tg_wordlist := sp_wordlist sp\<rparr> else sp_target sp))"

lemma list_all2_right: "list_all2 P xs ys \<Longrightarrow> y \<in> set ys \<Longrightarrow> \<exists>x \<in> set xs. P x y"
  by (induction rule: list_all2_induct) auto

lemma route_and_insert_routed:
  assumes rt: "rt_active rt = run_pool run" and ri: "route_and_insert run specs rt d = (e, d')"
  shows "extends (\<lambda>t. well_routed run (Some (rt_passive rt)) t \<and> comes_from specs t) d d'"
proof (cases "e = None")
  case False
  then show ?thesis using route_and_insert_adds [OF ri] by simp
next
  case True
  have ad: "adds (run_id run) (map (routed rt) specs) d d'"
      and act: "\<forall>sp \<in> set specs. SendsTrafficToTarget (sp_stage sp) \<longrightarrow> rt_active rt \<noteq> None"
    using route_and_insert_adds [OF ri] True by simp_all
  then obtain ts where ts: "db_tasks d' = db_tasks d @ ts" "list_all2 (planned (run_id run)) (map (routed rt) specs) ts"
      "same_inputs d d'" by (auto simp: adds_def)
  have "well_routed run (Some (rt_passive rt)) t \<and> comes_from specs t" if "t \<in> set ts" for t
  proof -
    obtain sp where sp: "sp \<in> set specs" "planned (run_id run) (routed rt sp) t"
      using list_all2_right [OF ts(2) \<open>t \<in> set ts\<close>] by auto
    have "well_routed run (Some (rt_passive rt)) t"
      using sp act rt by (auto simp: planned_def routed_def well_routed_def)
    moreover have "comes_from specs t"
      using sp unfolding comes_from_def by (intro bexI [of _ sp]) (auto simp: planned_def routed_def)
    ultimately show ?thesis by simp
  qed
  then show ?thesis using ts unfolding extends_def by blast
qed

lemma routingFor_pools:
  "routingFor run d = Inr rt \<Longrightarrow> rt_active rt = run_pool run \<and> PassivePool d = Some (rt_passive rt)"
  by (auto simp: routingFor_def split: option.splits)

lemma route_and_insert_extends:
  assumes rt: "routingFor run d = Inr rt" and ri: "route_and_insert run specs rt d = (e, d')"
  shows "extends (\<lambda>t. well_routed run (PassivePool d) t \<and> comes_from specs t) d d'"
  using route_and_insert_routed [OF _ ri] routingFor_pools [OF rt] by simp

lemma scanNewAddresses_extends:
  "scanNewAddresses ap run d = (e, d') \<Longrightarrow>
   extends (\<lambda>t. well_routed run (PassivePool d) t \<and> comes_from (scan_specs ap run d) t) d d'"
  using route_and_insert_extends [of run d _ "scan_specs ap run d" e d']
  by (auto simp: scanNewAddresses_def Let_def split: if_splits sum.splits)

lemma probeNewServices_extends:
  "probeNewServices run d = (e, d') \<Longrightarrow> extends (well_routed run (PassivePool d)) d d'"
  using extends_mono [OF route_and_insert_extends [of run d]]
  by (auto simp: probeNewServices_def Let_def split: if_splits sum.splits)

lemma maybePostProbe_extends:
  "maybePostProbe run d = (e, d') \<Longrightarrow> extends (well_routed run (PassivePool d)) d d'"
  using extends_mono [OF route_and_insert_extends [of run d _ "post_probe_specs run d" e d']]
  by (auto simp: maybePostProbe_def Let_def split: if_splits sum.splits)

lemma PassivePool_inputs: "same_inputs d d' \<Longrightarrow> PassivePool d' = PassivePool d"
  by (simp add: same_inputs_def PassivePool_def active_in_pool_def PoolByName_def DefaultPool_def default_pool_def
      cong: list.case_cong option.case_cong)

lemma active_stages_extends:
  assumes "active_stages ap run d = (e, d')"
  shows "extends (well_routed run (PassivePool d)) d d'"
proof -
  obtain e1 d1 where 1: "scanNewAddresses ap run d = (e1, d1)" by (cases "scanNewAddresses ap run d")
  obtain e2 d2 where 2: "probeNewServices run d1 = (e2, d2)" by (cases "probeNewServices run d1")
  have x1: "extends (well_routed run (PassivePool d)) d d1"
    by (rule extends_mono [OF scanNewAddresses_extends [OF 1]]) simp
  have p1: "PassivePool d1 = PassivePool d" using x1 PassivePool_inputs by (simp add: extends_def)
  have x2: "extends (well_routed run (PassivePool d)) d d2"
    by (rule extends_trans [OF x1]) (use probeNewServices_extends [OF 2] p1 in simp)
  have p2: "PassivePool d2 = PassivePool d" using x2 PassivePool_inputs by (simp add: extends_def)
  have x3: "extends (well_routed run (PassivePool d)) d d3" if "maybePostProbe run d2 = (e3, d3)" for e3 d3
    by (rule extends_trans [OF x2]) (use maybePostProbe_extends [OF that] p2 in simp)
  show ?thesis using assms 1 2 x1 x2 x3 by (auto simp: active_stages_def split: option.splits)
qed

lemma finish_targets_sel [simp]:
  "db_tasks (finish_targets ts d) = db_tasks d" "db_origins (finish_targets ts d) = db_origins d"
  "db_runs (finish_targets ts d) = db_runs d" "db_now (finish_targets ts d) = db_now d"
  by (induction ts d rule: finish_targets.induct) (simp_all add: SetRunTargetStatus_def set_targets_def)

lemma finish_sel [simp]:
  "db_tasks (finish run d) = db_tasks d" "db_origins (finish run d) = db_origins d"
  by (simp_all add: finish_def SetRunStatus_def set_runs_def)

text \<open>
  C11: A run's traffic leaves from its own exit. Whatever a tick of the planner adds to the queue
  goes behind what was there, belongs to the run and waits; a task of a stage that sends packets to
  the target is bound to the exit pool of the run, which then exists, every other task to the pool
  discovery runs in; and a passive run is given nothing.
\<close>

theorem Advance_routes:
  assumes "Advance ap run d = (finished, e, d')"
  shows "\<exists>ts. db_tasks d' = db_tasks d @ ts \<and> (run_profile run = ProfilePassive \<longrightarrow> ts = []) \<and>
    (\<forall>t \<in> set ts. t_run t = run_id run \<and> t_status t = TaskPending \<and>
       (if SendsTrafficToTarget (t_stage t) then run_pool run \<noteq> None \<and> t_pool t = run_pool run
        else t_pool t = PassivePool d))"
proof (cases "run_status run = RunRunning \<and> run_profile run \<noteq> ProfilePassive")
  case False
  then have "db_tasks d' = db_tasks d" using assms by (auto simp: Advance_def Let_def split: if_splits)
  then show ?thesis by simp
next
  case True
  obtain e1 d1 where 1: "active_stages ap run d = (e1, d1)" by (cases "active_stages ap run d")
  have "db_tasks d' = db_tasks d1"
    using assms True 1 by (auto simp: Advance_def Let_def split: option.splits if_splits)
  moreover obtain ts where ts: "db_tasks d1 = db_tasks d @ ts" "\<forall>t \<in> set ts. well_routed run (PassivePool d) t"
    using active_stages_extends [OF 1] by (auto simp: extends_def)
  moreover have "t_run t = run_id run \<and> t_status t = TaskPending \<and>
       (if SendsTrafficToTarget (t_stage t) then run_pool run \<noteq> None \<and> t_pool t = run_pool run
        else t_pool t = PassivePool d)" if "t \<in> set ts" for t
    using bspec [OF ts(2) that] by (simp add: well_routed_def split: if_splits)
  ultimately show ?thesis using True by (intro exI [of _ ts]) simp
qed

definition plan_run :: scan_run where
  "plan_run = sample_run\<lparr>run_pool := Some 9\<rparr>"

text \<open>A run that found a public and a private address under an authorized domain.\<close>

definition plan_db :: db where
  "plan_db = empty_db\<lparr>db_drawn := 2, db_runs := [plan_run],
     db_targets := [(sample_run_target 1000 ''domain'' ''a.io'')\<lparr>rt_total := 1, rt_done := 1\<rparr>],
     db_tasks := [(sample_task 1001 StagePassiveEnum TaskDone)
       \<lparr>t_result := Some (no_summary\<lparr>sm_ips := [''8.8.8.8'', ''10.0.0.1'']\<rparr>)\<rparr>],
     db_origins := [(1001, 1000)], db_pools := [sample_pool 5 ''local'', (sample_pool 9 ''exit'')\<lparr>p_default := False\<rparr>],
     db_scope_targets := [sample_target 1 ''domain'' ''a.io'' ModeActive]\<rparr>"

theorem Advance_routes_witness:
  "\<exists>t. db_tasks (snd (snd (Advance False plan_run plan_db))) = db_tasks plan_db @ [t] \<and>
     t_stage t = StagePortScan \<and> t_pool t = Some 9"
proof -
  let ?r = "Advance False plan_run plan_db"
  have st: "map t_stage (db_tasks (snd (snd ?r))) = [StagePassiveEnum, StagePortScan]" by code_simp
  have p: "run_pool plan_run = Some 9" by (simp add: plan_run_def sample_run_def)
  obtain ts where ts: "db_tasks (snd (snd ?r)) = db_tasks plan_db @ ts"
      "\<forall>t \<in> set ts. t_run t = run_id plan_run \<and> t_status t = TaskPending \<and>
       (if SendsTrafficToTarget (t_stage t) then run_pool plan_run \<noteq> None \<and> t_pool t = run_pool plan_run
        else t_pool t = PassivePool plan_db)"
    using Advance_routes [of False plan_run plan_db "fst ?r" "fst (snd ?r)" "snd (snd ?r)"] by auto
  have "length (db_tasks plan_db) = 1" by (simp add: plan_db_def)
  then have "map t_stage ts = [StagePortScan]" using st ts(1) by (cases "db_tasks plan_db") auto
  then obtain t where "ts = [t]" "t_stage t = StagePortScan" by auto
  then show ?thesis using ts p by auto
qed

section \<open>Which addresses are scanned\<close>

lemma chunks_concat: "0 < n \<Longrightarrow> concat (chunks n xs) = xs"
proof (induction n xs rule: chunks.induct)
  case (1 n xs)
  then show ?case by (subst chunks.simps) auto
qed

lemma chunks_sizes: "c \<in> set (chunks n xs) \<Longrightarrow> c \<noteq> [] \<and> length c \<le> n \<and> set c \<subseteq> set xs"
proof (induction n xs rule: chunks.induct)
  case (1 n xs)
  show ?case
  proof (cases "xs = [] \<or> n = 0")
    case True
    then show ?thesis using 1(2) by (subst (asm) chunks.simps) simp
  next
    case False
    then have "c = take n xs \<or> c \<in> set (chunks n (drop n xs))" using 1(2) by (subst (asm) chunks.simps) simp
    then show ?thesis using 1(1) [OF False] False set_drop_subset [of n xs] set_take_subset [of n xs] by fastforce
  qed
qed

lemma ipset_add_keys: "distinct (map fst s) \<Longrightarrow> distinct (map fst (ipset_add os s ip))"
proof -
  assume d: "distinct (map fst s)"
  have "map fst (map (\<lambda>(k, v). if k = ip then (k, mergeOrigins v os) else (k, v)) s) = map fst s" by auto
  then show ?thesis using d unfolding ipset_add_def by (cases "ip \<in> set (map fst s)") (simp_all only: if_True if_False map_append distinct_append, simp_all)
qed

lemma foldl_keeps: "(\<And>s x. P s \<Longrightarrow> P (f s x)) \<Longrightarrow> P s \<Longrightarrow> P (foldl f s xs)"
  by (induction xs arbitrary: s) auto

lemma discovered_keys: "distinct (map fst (discovered rid d))"
  unfolding discovered_def
  by (rule foldl_keeps [where P = "\<lambda>s. distinct (map fst s)"])
    (auto intro: foldl_keeps [where P = "\<lambda>s. distinct (map fst s)"] ipset_add_keys)

text \<open>The specifications of one port set: batches of the sorted addresses, those without an origin left out.\<close>

lemma batch_origins_set: "set (foldl (\<lambda>os ip. mergeOrigins os (ipset_origins ipset ip)) [] batch) =
    (\<Union>ip \<in> set batch. set (ipset_origins ipset ip))"
  using origins.fold_merge_set [of "[]" "map (ipset_origins ipset) batch"] by (simp add: foldl_map)

lemma batch_specs_mem:
  assumes "sp \<in> set (batch_specs ipset ips ports)"
  shows "sp_stage sp = StagePortScan \<and> sp_wordlist sp = [] \<and> sp_requires sp = [CapRawSocket] \<and> tg_ports (sp_target sp) = ports \<and>
    tg_ips (sp_target sp) \<noteq> [] \<and> length (tg_ips (sp_target sp)) \<le> scanBatchSize \<and> set (tg_ips (sp_target sp)) \<subseteq> set ips \<and>
    tg_ip (sp_target sp) = [] \<and> distinct (sp_origins sp)"
proof -
  obtain batch where b: "batch \<in> set (chunks scanBatchSize (sort ips))" "tg_ips (sp_target sp) = batch" "tg_ports (sp_target sp) = ports"
      "sp_stage sp = StagePortScan" "sp_wordlist sp = []" "sp_requires sp = [CapRawSocket]" "tg_ip (sp_target sp) = []"
      "sp_origins sp = foldl (\<lambda>os ip. mergeOrigins os (ipset_origins ipset ip)) [] batch"
    using assms by (auto simp: batch_specs_def Let_def spec_def split: if_splits)
  moreover have "distinct (foldl (\<lambda>os ip. mergeOrigins os (ipset_origins ipset ip)) [] batch)"
    using origins.fold_merge_distinct [of "[]" "map (ipset_origins ipset) batch"] by (simp add: foldl_map)
  ultimately show ?thesis using chunks_sizes [OF b(1)] by simp
qed

lemma batch_specs_ips:
  "concat (map (\<lambda>sp. tg_ips (sp_target sp)) (batch_specs ipset ips ports)) =
   concat (filter (\<lambda>b. foldl (\<lambda>os ip. mergeOrigins os (ipset_origins ipset ip)) [] b \<noteq> []) (chunks scanBatchSize (sort ips)))"
proof -
  have "concat (map (\<lambda>sp. tg_ips (sp_target sp)) (concat (map (\<lambda>batch.
       let origins = foldl (\<lambda>os ip. mergeOrigins os (ipset_origins ipset ip)) [] batch
       in if origins = [] then []
          else [(spec StagePortScan (no_target\<lparr>tg_ips := batch, tg_ports := ports\<rparr>) 100 (hd origins) [CapRawSocket])
                  \<lparr>sp_origins := origins\<rparr>]) bs))) =
    concat (filter (\<lambda>b. foldl (\<lambda>os ip. mergeOrigins os (ipset_origins ipset ip)) [] b \<noteq> []) bs)" for bs
    by (induction bs) (simp_all add: Let_def spec_def)
  then show ?thesis by (simp only: batch_specs_def)
qed

lemma distinct_concat_filter: "distinct (concat xss) \<Longrightarrow> distinct (concat (filter P xss))"
  by (induction xss) auto

lemma batch_specs_distinct:
  "distinct ips \<Longrightarrow> distinct (concat (map (\<lambda>sp. tg_ips (sp_target sp)) (batch_specs ipset ips ports)))"
  unfolding batch_specs_ips by (rule distinct_concat_filter) (simp add: chunks_concat scanBatchSize_def)

lemma batch_specs_cover:
  assumes "\<And>ip. ip \<in> set ips \<Longrightarrow> ipset_origins ipset ip \<noteq> []"
  shows "concat (map (\<lambda>sp. tg_ips (sp_target sp)) (batch_specs ipset ips ports)) = sort ips"
proof -
  have "foldl (\<lambda>os ip. mergeOrigins os (ipset_origins ipset ip)) [] b \<noteq> []"
    if b: "b \<in> set (chunks scanBatchSize (sort ips))" for b
  proof -
    obtain ip where "ip \<in> set b" "ip \<in> set ips" using chunks_sizes [OF b] by (cases b) auto
    then have "set (foldl (\<lambda>os ip. mergeOrigins os (ipset_origins ipset ip)) [] b) \<noteq> {}"
      using assms [of ip] unfolding batch_origins_set by auto
    then show ?thesis by auto
  qed
  then have "filter (\<lambda>b. foldl (\<lambda>os ip. mergeOrigins os (ipset_origins ipset ip)) [] b \<noteq> []) (chunks scanBatchSize (sort ips)) =
      chunks scanBatchSize (sort ips)" by (simp add: filter_id_conv)
  then show ?thesis unfolding batch_specs_ips by (simp add: chunks_concat scanBatchSize_def)
qed

text \<open>The verdict on a discovered address in a state.\<close>

definition scan_verdict :: "bool \<Rightarrow> scan_run \<Rightarrow> db \<Rightarrow> string \<times> uuid list \<Rightarrow> verdict" where
  "scan_verdict ap run d = (\<lambda>(ip, os). address_verdict ap (NewGuard (ListTargetsMerged (run_scope run) [] d))
     (ScannedAddresses (run_id run) d) (authorizedRunTargets run d) (SharedAddresses (run_scope run) d)
     (cdnPortsFor (run_id run) d) ip os)"

definition with_verdict :: "bool \<Rightarrow> scan_run \<Rightarrow> db \<Rightarrow> verdict \<Rightarrow> string list" where
  "with_verdict ap run d v = map fst (filter (\<lambda>e. scan_verdict ap run d e = v) (discovered (run_id run) d))"

lemma scan_specs_eq: "scan_specs ap run d =
    batch_specs (discovered (run_id run) d) (with_verdict ap run d Fresh) [] @
    batch_specs (discovered (run_id run) d) (with_verdict ap run d Edge) (cdnPortsFor (run_id run) d)"
  by (simp add: scan_specs_def scan_verdict_def with_verdict_def Let_def)

text \<open>What a verdict that leads to a scan says of the address.\<close>

definition may_scan :: "bool \<Rightarrow> scan_run \<Rightarrow> db \<Rightarrow> string \<Rightarrow> bool" where
  "may_scan ap run d ip \<longleftrightarrow> ip \<notin> set (ScannedAddresses (run_id run) d) \<and>
     (\<exists>os. (ip, os) \<in> set (discovered (run_id run) d) \<and> list_ex (authorizedRunTargets run d) os) \<and>
     Allowed (CheckIP ap (NewGuard (ListTargetsMerged (run_scope run) [] d)) ip False)"

definition on_edge :: "scan_run \<Rightarrow> db \<Rightarrow> string \<Rightarrow> bool" where
  "on_edge run d ip \<longleftrightarrow> ip \<in> set (SharedAddresses (run_scope run) d) \<and> cdnPortsFor (run_id run) d \<noteq> ''all''"

lemma with_verdict_scan:
  assumes "ip \<in> set (with_verdict ap run d v)" and "v = Fresh \<or> v = Edge"
  shows "may_scan ap run d ip" and "v = Edge \<longleftrightarrow> on_edge run d ip" and "v = Edge \<Longrightarrow> cdnPortsFor (run_id run) d \<noteq> ''none''"
proof -
  obtain os where os: "(ip, os) \<in> set (discovered (run_id run) d)" "scan_verdict ap run d (ip, os) = v"
    using assms(1) by (auto simp: with_verdict_def)
  let ?v = "address_verdict ap (NewGuard (ListTargetsMerged (run_scope run) [] d)) (ScannedAddresses (run_id run) d)
     (authorizedRunTargets run d) (SharedAddresses (run_scope run) d) (cdnPortsFor (run_id run) d) ip os"
  have v: "?v = v" using os(2) by (simp add: scan_verdict_def)
  show "may_scan ap run d ip"
    using v os(1) assms(2) unfolding may_scan_def address_verdict_def Let_def
    by (auto split: if_splits)
  show "v = Edge \<longleftrightarrow> on_edge run d ip" "v = Edge \<Longrightarrow> cdnPortsFor (run_id run) d \<noteq> ''none''"
    using v assms(2) unfolding on_edge_def address_verdict_def Let_def by (auto split: if_splits)
qed

lemma with_verdict_distinct: "distinct (with_verdict ap run d v)"
  unfolding with_verdict_def using discovered_keys by (rule distinct_map_filter)

lemma scan_specs_mem:
  assumes "sp \<in> set (scan_specs ap run d)"
  shows "sp_stage sp = StagePortScan \<and> sp_wordlist sp = [] \<and> tg_ips (sp_target sp) \<noteq> [] \<and>
    length (tg_ips (sp_target sp)) \<le> scanBatchSize \<and> distinct (sp_origins sp) \<and>
    (\<forall>ip \<in> set (tg_ips (sp_target sp)). may_scan ap run d ip \<and>
      (on_edge run d ip \<longrightarrow> tg_ports (sp_target sp) = cdnPortsFor (run_id run) d \<and> tg_ports (sp_target sp) \<noteq> ''none''))"
proof -
  let ?P = "\<lambda>v ps. sp \<in> set (batch_specs (discovered (run_id run) d) (with_verdict ap run d v) ps)"
  consider "?P Fresh []" | "?P Edge (cdnPortsFor (run_id run) d)" using assms by (auto simp: scan_specs_eq)
  then show ?thesis
  proof cases
    case 1
    note m = batch_specs_mem [OF 1]
    have "may_scan ap run d ip \<and> \<not> on_edge run d ip" if "ip \<in> set (tg_ips (sp_target sp))" for ip
      using with_verdict_scan(1,2) [of ip ap run d Fresh] m that by auto
    then show ?thesis using m by simp
  next
    case 2
    note m = batch_specs_mem [OF 2]
    have "may_scan ap run d ip \<and> cdnPortsFor (run_id run) d \<noteq> ''none''" if "ip \<in> set (tg_ips (sp_target sp))" for ip
      using with_verdict_scan(1,3) [of ip ap run d Edge] m that by auto
    then show ?thesis using m by simp
  qed
qed

lemma scan_specs_distinct: "distinct (concat (map (\<lambda>sp. tg_ips (sp_target sp)) (scan_specs ap run d)))"
proof -
  have "set (concat (map (\<lambda>sp. tg_ips (sp_target sp)) (batch_specs ipset ips ports))) \<subseteq> set ips" for ipset ips ports
    using batch_specs_mem [of _ ipset ips ports] by fastforce
  moreover have "set (with_verdict ap run d Fresh) \<inter> set (with_verdict ap run d Edge) = {}"
    using with_verdict_scan(2) [of _ ap run d Fresh] with_verdict_scan(2) [of _ ap run d Edge] by auto
  ultimately show ?thesis
    unfolding scan_specs_eq map_append concat_append distinct_append
    using batch_specs_distinct [OF with_verdict_distinct] by blast
qed

lemma scanNewAddresses_adds:
  assumes "scanNewAddresses ap run d = (e, d')"
  shows "d' = d \<or> (e = None \<and> (\<exists>rt. adds (run_id run) (map (routed rt) (scan_specs ap run d)) d d'))"
proof (cases "discovered (run_id run) d = [] \<or> scan_specs ap run d = [] \<or> (\<exists>x. routingFor run d = Inl x)")
  case True
  then show ?thesis using assms by (auto simp: scanNewAddresses_def Let_def split: if_splits sum.splits)
next
  case False
  then obtain rt where "route_and_insert run (scan_specs ap run d) rt d = (e, d')"
    using assms by (auto simp: scanNewAddresses_def Let_def split: if_splits sum.splits)
  from route_and_insert_adds [OF this] show ?thesis by (cases "e = None") auto
qed

lemma planned_ips:
  "list_all2 (planned rid) (map (routed rt) sps) ts \<Longrightarrow> (\<And>sp. sp \<in> set sps \<Longrightarrow> sp_wordlist sp = []) \<Longrightarrow>
   map t_target ts = map sp_target sps \<and> map t_stage ts = map sp_stage sps"
proof (induction sps arbitrary: ts)
  case Nil
  then show ?case by simp
next
  case (Cons sp sps)
  then obtain t ts' where t: "ts = t # ts'" "planned rid (routed rt sp) t" "list_all2 (planned rid) (map (routed rt) sps) ts'"
    by (auto simp: list_all2_Cons1)
  have "t_target t = sp_target sp" "t_stage t = sp_stage sp"
    using t(2) Cons.prems(2) [of sp] by (simp_all add: planned_def routed_def)
  moreover have "map t_target ts' = map sp_target sps \<and> map t_stage ts' = map sp_stage sps"
    by (rule Cons.IH [OF t(3)]) (use Cons.prems(2) in simp)
  ultimately show ?case using t(1) by simp
qed

lemma same_images:
  "map f xs = map g ys \<Longrightarrow> map f' xs = map g' ys \<Longrightarrow> x \<in> set xs \<Longrightarrow> \<exists>y \<in> set ys. f x = g y \<and> f' x = g' y"
proof (induction xs arbitrary: ys)
  case Nil
  then show ?case by simp
next
  case (Cons a xs)
  then show ?case by (cases ys) auto
qed

text \<open>
  C10: The planner scans only what it may. Every port scan that a pass over the discovered
  addresses queues names between one and 64 addresses; none of them was queued before in the run,
  each was found for a target of the run that its company has authorized, and the scope guard
  allows each; a CDN edge is scanned on the CDN port set only, and not at all when that is
  \<open>none\<close>; and no address is in two of the new scans.
\<close>

theorem scanNewAddresses_safe:
  assumes "scanNewAddresses ap run d = (e, d')"
  shows "\<exists>ts. db_tasks d' = db_tasks d @ ts \<and> distinct (concat (map (\<lambda>t. tg_ips (t_target t)) ts)) \<and>
    (\<forall>t \<in> set ts. t_stage t = StagePortScan \<and> tg_ips (t_target t) \<noteq> [] \<and> length (tg_ips (t_target t)) \<le> 64 \<and>
      (\<forall>ip \<in> set (tg_ips (t_target t)). ip \<notin> set (ScannedAddresses (run_id run) d) \<and>
        (\<exists>os. (ip, os) \<in> set (discovered (run_id run) d) \<and> list_ex (authorizedRunTargets run d) os) \<and>
        Allowed (CheckIP ap (NewGuard (ListTargetsMerged (run_scope run) [] d)) ip False) \<and>
        (ip \<in> set (SharedAddresses (run_scope run) d) \<and> cdnPortsFor (run_id run) d \<noteq> ''all'' \<longrightarrow>
           tg_ports (t_target t) = cdnPortsFor (run_id run) d \<and> tg_ports (t_target t) \<noteq> ''none'')))"
proof (cases "d' = d")
  case True
  then show ?thesis by (intro exI [of _ "[]"]) simp
next
  case False
  then obtain rt where "adds (run_id run) (map (routed rt) (scan_specs ap run d)) d d'"
    using scanNewAddresses_adds [OF assms] by blast
  then obtain ts where ts: "db_tasks d' = db_tasks d @ ts"
      "list_all2 (planned (run_id run)) (map (routed rt) (scan_specs ap run d)) ts" by (auto simp: adds_def)
  have tg: "map t_target ts = map sp_target (scan_specs ap run d) \<and> map t_stage ts = map sp_stage (scan_specs ap run d)"
    by (rule planned_ips [OF ts(2)]) (use scan_specs_mem in blast)
  have "map (\<lambda>t. tg_ips (t_target t)) ts = map tg_ips (map t_target ts)" by simp
  also have "\<dots> = map (\<lambda>sp. tg_ips (sp_target sp)) (scan_specs ap run d)" using tg by simp
  finally have dist: "distinct (concat (map (\<lambda>t. tg_ips (t_target t)) ts))" using scan_specs_distinct by simp
  have from_spec: "\<exists>sp \<in> set (scan_specs ap run d). t_target t = sp_target sp \<and> t_stage t = sp_stage sp" if "t \<in> set ts" for t
    by (rule same_images [of t_target _ sp_target]) (use tg that in simp_all)
  show ?thesis
  proof (intro exI [of _ ts] conjI ballI ts(1) dist)
    fix t assume "t \<in> set ts"
    then obtain sp where sp: "sp \<in> set (scan_specs ap run d)" "t_target t = sp_target sp" "t_stage t = sp_stage sp"
      using from_spec by blast
    note m = scan_specs_mem [OF sp(1)]
    show "t_stage t = StagePortScan" "tg_ips (t_target t) \<noteq> []" "length (tg_ips (t_target t)) \<le> 64"
      using m sp by (simp_all add: scanBatchSize_def)
    fix ip assume ip: "ip \<in> set (tg_ips (t_target t))"
    then have "may_scan ap run d ip" and "on_edge run d ip \<longrightarrow>
        tg_ports (t_target t) = cdnPortsFor (run_id run) d \<and> tg_ports (t_target t) \<noteq> ''none''"
      using m unfolding sp(2) by blast+
    then show "ip \<notin> set (ScannedAddresses (run_id run) d)"
      "\<exists>os. (ip, os) \<in> set (discovered (run_id run) d) \<and> list_ex (authorizedRunTargets run d) os"
      "Allowed (CheckIP ap (NewGuard (ListTargetsMerged (run_scope run) [] d)) ip False)"
      "ip \<in> set (SharedAddresses (run_scope run) d) \<and> cdnPortsFor (run_id run) d \<noteq> ''all'' \<longrightarrow>
           tg_ports (t_target t) = cdnPortsFor (run_id run) d \<and> tg_ports (t_target t) \<noteq> ''none''"
      unfolding may_scan_def on_edge_def by blast+
  qed
qed

theorem scanNewAddresses_safe_witness:
  "map (\<lambda>t. tg_ips (t_target t)) (db_tasks (snd (scanNewAddresses False plan_run plan_db))) = [[], [''8.8.8.8'']] \<and>
   Allowed (CheckIP False (NewGuard (ListTargetsMerged 1 [] plan_db)) ''8.8.8.8'' False)"
proof -
  let ?r = "scanNewAddresses False plan_run plan_db"
  have ips: "map (\<lambda>t. tg_ips (t_target t)) (db_tasks (snd ?r)) = [[], [''8.8.8.8'']]" by code_simp
  have sc: "run_scope plan_run = 1" by (simp add: plan_run_def sample_run_def)
  have "length (db_tasks plan_db) = 1" by (simp add: plan_db_def)
  then obtain t0 where t0: "db_tasks plan_db = [t0]" by (cases "db_tasks plan_db") auto
  obtain ts where ts: "db_tasks (snd ?r) = db_tasks plan_db @ ts"
      "\<forall>t \<in> set ts. \<forall>ip \<in> set (tg_ips (t_target t)).
         Allowed (CheckIP False (NewGuard (ListTargetsMerged (run_scope plan_run) [] plan_db)) ip False)"
    using scanNewAddresses_safe [of False plan_run plan_db "fst ?r" "snd ?r"] by auto
  have "map (\<lambda>t. tg_ips (t_target t)) ts = [[''8.8.8.8'']]" using ips ts(1) t0 by simp
  then show ?thesis using ips ts(2) sc by auto
qed

end
