(* ===== verification/PlanLife.thy ===== *)
theory PlanLife
  imports PlanProps
begin

text \<open>
  The planner over time: a second pass over the same findings plans nothing new, a run that has
  nothing left to do is closed with the status its counters justify, a run that is open always has
  something to do, and what a tick plans keeps the invariant of the queue.
\<close>

section \<open>Planning twice\<close>

lemma map_insort_key:
  "(\<And>y. f y = h (g y)) \<Longrightarrow> map g (insort_key f x xs) = insort_key h (g x) (map g xs)"
  by (induction xs) auto

lemma map_sort_key: "(\<And>y. f y = h (g y)) \<Longrightarrow> map g (sort_key f xs) = sort_key h (map g xs)"
  by (induction xs) (simp_all add: map_insort_key)

lemma map_filter_proj: "(\<And>y. P y = Q (g y)) \<Longrightarrow> map g (filter P xs) = filter Q (map g xs)"
  by (induction xs) auto

text \<open>The columns of a run target the planner reads.\<close>

lemma ListRunTargets_inputs:
  assumes "same_inputs d d'"
  shows "map (\<lambda>r. (rt_id r, rt_value r)) (ListRunTargets rid d') = map (\<lambda>r. (rt_id r, rt_value r)) (ListRunTargets rid d)"
proof -
  let ?g = "\<lambda>r. (rt_id r, rt_run r, rt_kind r, rt_value r, rt_status r)"
  have "map ?g (ListRunTargets rid d) =
      sort_key (\<lambda>x. fst (snd (snd (snd x)))) (filter (\<lambda>x. fst (snd x) = rid) (map ?g (db_targets d)))" for d
    unfolding ListRunTargets_def
    by (subst map_sort_key [where h = "\<lambda>x. fst (snd (snd (snd x)))"], simp)
      (subst map_filter_proj [where Q = "\<lambda>x. fst (snd x) = rid"], simp_all)
  then have "map ?g (ListRunTargets rid d') = map ?g (ListRunTargets rid d)" using assms by (simp add: same_inputs_def)
  then have "map (\<lambda>x. (fst x, fst (snd (snd (snd x))))) (map ?g (ListRunTargets rid d')) =
      map (\<lambda>x. (fst x, fst (snd (snd (snd x))))) (map ?g (ListRunTargets rid d))" by simp
  then show ?thesis by (simp add: comp_def)
qed

lemma planner_reads_inputs:
  assumes "same_inputs d d'"
  shows "ListTargetsMerged sc tag d' = ListTargetsMerged sc tag d" and "SharedAddresses sc d' = SharedAddresses sc d"
    and "GetRunParams rid d' = GetRunParams rid d" and "cdnPortsFor rid d' = cdnPortsFor rid d"
    and "authorizedRunTargets run d' = authorizedRunTargets run d" and "routingFor run d' = routingFor run d"
proof -
  show a: "ListTargetsMerged sc tag d' = ListTargetsMerged sc tag d" for sc tag
    using assms by (simp add: same_inputs_def ListTargetsMerged_def ListTargets_def)
  show "SharedAddresses sc d' = SharedAddresses sc d" using assms by (simp add: same_inputs_def SharedAddresses_def)
  show p: "GetRunParams rid d' = GetRunParams rid d" for rid
    using assms by (simp add: same_inputs_def GetRunParams_def run_of_def)
  show "cdnPortsFor rid d' = cdnPortsFor rid d" by (simp add: cdnPortsFor_def p)
  show "authorizedRunTargets run d' = authorizedRunTargets run d"
    by (rule ext) (simp add: authorizedRunTargets_def a ListRunTargets_inputs [OF assms])
  show "routingFor run d' = routingFor run d" by (simp add: routingFor_def PassivePool_inputs [OF assms])
qed

text \<open>The origins of a task that was there stay what they were.\<close>

lemma adds_origins:
  assumes ad: "adds rid sps d d'" and k: "keys_ok d" and t: "t \<in> set (db_tasks d)"
  shows "OriginsForTask (t_id t) d' = OriginsForTask (t_id t) d"
proof -
  obtain ts new where 1: "db_origins d' = db_origins d @ new" "fst ` set new \<subseteq> t_id ` set ts"
      "t_id ` set ts \<subseteq> db_uuid d ` {db_drawn d ..< db_drawn d'}" "db_tasks d' = db_tasks d @ ts"
    using ad by (auto simp: adds_def)
  have "t_id t \<in> used_ids d" using k t by (auto simp: keys_ok_def)
  then obtain i where i: "i < db_drawn d" "t_id t = db_uuid d i" by (auto simp: used_ids_def)
  have "inj (db_uuid d)" using k by (simp add: keys_ok_def uuids_fresh_def)
  then have "t_id t \<noteq> db_uuid d j" if "db_drawn d \<le> j" for j using i that injD [of "db_uuid d" i j] by auto
  then have "t_id t \<notin> db_uuid d ` {db_drawn d ..< db_drawn d'}"
    unfolding image_iff atLeastLessThan_iff Bex_def by blast
  then have "t_id t \<notin> fst ` set new" using 1(2,3) by auto
  then have "filter (\<lambda>e. fst e = t_id t) new = []" by (force simp: filter_empty_conv)
  then show ?thesis by (simp add: OriginsForTask_def 1(1))
qed

lemma foldl_cong_mem: "(\<And>s x. x \<in> set xs \<Longrightarrow> f s x = g s x) \<Longrightarrow> foldl f s xs = foldl g s xs"
  by (induction xs arbitrary: s) auto

lemma discovered_adds:
  assumes ad: "adds rid0 sps d d'" and k: "keys_ok d" and sc: "\<And>sp. sp \<in> set sps \<Longrightarrow> sp_stage sp \<notin> set discovery_stages"
  shows "discovered rid d' = discovered rid d"
proof -
  obtain ts where ts: "db_tasks d' = db_tasks d @ ts" "list_all2 (planned rid0) sps ts" using ad by (auto simp: adds_def)
  have "t_stage t \<notin> set discovery_stages" if t: "t \<in> set ts" for t
    using list_all2_right [OF ts(2) t] sc by (auto simp: planned_def)
  then have st: "TasksByStage rid s d' = TasksByStage rid s d" if "s \<in> set discovery_stages" for s
    using that by (auto simp: TasksByStage_def run_tasks_def ts(1) filter_empty_conv)
  then have q: "map (\<lambda>s. TasksByStage rid s d') discovery_stages = map (\<lambda>s. TasksByStage rid s d) discovery_stages"
    by (rule map_cong [OF refl])
  show ?thesis
    unfolding discovered_def q
    by (rule foldl_cong_mem) (auto simp: TasksByStage_def run_tasks_def adds_origins [OF ad k])
qed

lemma map_of_ipset: "(ip, os) \<in> set (discovered rid d) \<Longrightarrow> ipset_origins (discovered rid d) ip = os"
  using discovered_keys [of rid d] by (simp add: ipset_origins_def)

lemma scan_specs_cover:
  "set (with_verdict ap run d v) \<subseteq> set (concat (map (\<lambda>sp. tg_ips (sp_target sp)) (scan_specs ap run d)))"
  if v: "v = Fresh \<or> v = Edge"
proof -
  have "ipset_origins (discovered (run_id run) d) ip \<noteq> []" if "ip \<in> set (with_verdict ap run d v)" for ip
    using with_verdict_scan(1) [OF that v] map_of_ipset by (fastforce simp: may_scan_def)
  then have eq: "concat (map (\<lambda>sp. tg_ips (sp_target sp))
      (batch_specs (discovered (run_id run) d) (with_verdict ap run d v) ports)) = sort (with_verdict ap run d v)" for ports
    by (rule batch_specs_cover)
  from v show ?thesis
  proof
    assume v: "v = Fresh"
    show ?thesis unfolding v scan_specs_eq map_append concat_append set_append eq [unfolded v] by simp
  next
    assume v: "v = Edge"
    show ?thesis unfolding v scan_specs_eq map_append concat_append set_append eq [unfolded v] by simp
  qed
qed

text \<open>
  C18: Planning is safe to repeat. The scheduler calls the planner on every tick; when nothing was
  reported in between, the second pass over the discovered addresses queues no scan at all, so an
  address that several sources found is scanned once.
\<close>

theorem scanNewAddresses_idempotent:
  assumes inv: "queue_inv d" and first: "scanNewAddresses ap run d = (None, d')"
  shows "scanNewAddresses ap run d' = (None, d')"
proof (cases "d' = d")
  case True
  then show ?thesis using first by simp
next
  case False
  then obtain rt where ad: "adds (run_id run) (map (routed rt) (scan_specs ap run d)) d d'"
    using scanNewAddresses_adds [OF first] by blast
  have k: "keys_ok d" and same: "same_inputs d d'" using inv ad by (simp_all add: queue_inv_def adds_def)
  obtain ts where ts: "db_tasks d' = db_tasks d @ ts"
      "list_all2 (planned (run_id run)) (map (routed rt) (scan_specs ap run d)) ts" using ad by (auto simp: adds_def)
  have tg: "map t_target ts = map sp_target (scan_specs ap run d) \<and> map t_stage ts = map sp_stage (scan_specs ap run d)"
    by (rule planned_ips [OF ts(2)]) (use scan_specs_mem in blast)
  have disc: "discovered (run_id run) d' = discovered (run_id run) d"
    by (rule discovered_adds [OF ad k]) (auto simp: discovery_stages_def routed_def dest: scan_specs_mem)
  note reads = planner_reads_inputs [OF same]
  have scanned: "set (with_verdict ap run d v) \<subseteq> set (ScannedAddresses (run_id run) d')" if v: "v = Fresh \<or> v = Edge" for v
  proof
    fix ip assume "ip \<in> set (with_verdict ap run d v)"
    then obtain sp where sp: "sp \<in> set (scan_specs ap run d)" "ip \<in> set (tg_ips (sp_target sp))"
      using scan_specs_cover [OF v, of ap run d] by auto
    obtain t where t: "t \<in> set ts" "sp_target sp = t_target t" "sp_stage sp = t_stage t"
      using same_images [of sp_target "scan_specs ap run d" t_target ts sp_stage t_stage sp] tg sp(1) by auto
    have "t_run t = run_id run" using list_all2_right [OF ts(2) t(1)] by (auto simp: planned_def)
    then have "t \<in> set (TasksByStage (run_id run) StagePortScan d')"
      using t scan_specs_mem [OF sp(1)] ts(1) by (simp add: TasksByStage_def run_tasks_def)
    then show "ip \<in> set (ScannedAddresses (run_id run) d')" using sp(2) t(2) by (auto simp: ScannedAddresses_def)
  qed
  have more: "set (ScannedAddresses (run_id run) d) \<subseteq> set (ScannedAddresses (run_id run) d')"
    by (auto simp: ScannedAddresses_def TasksByStage_def run_tasks_def ts(1))
  have "with_verdict ap run d' v = []" if v: "v = Fresh \<or> v = Edge" for v
  proof (rule ccontr)
    assume "with_verdict ap run d' v \<noteq> []"
    then obtain ip where ip: "ip \<in> set (with_verdict ap run d' v)" by (cases "with_verdict ap run d' v") auto
    have new: "ip \<notin> set (ScannedAddresses (run_id run) d')" using with_verdict_scan(1) [OF ip v] by (simp add: may_scan_def)
    then have old: "ip \<notin> set (ScannedAddresses (run_id run) d)" using more by blast
    obtain os where os: "(ip, os) \<in> set (discovered (run_id run) d)" "scan_verdict ap run d' (ip, os) = v"
      using ip disc by (auto simp: with_verdict_def)
    have "scan_verdict ap run d (ip, os) = scan_verdict ap run d' (ip, os)"
      using new old by (simp add: scan_verdict_def address_verdict_def reads)
    then have "ip \<in> set (with_verdict ap run d v)" using os by (force simp: with_verdict_def)
    then show False using scanned [OF v] new by blast
  qed
  then have "scan_specs ap run d' = []" by (simp add: scan_specs_eq batch_specs_def chunks.simps)
  moreover obtain r where "routingFor run d = Inr r"
    using first False by (auto simp: scanNewAddresses_def split: sum.splits if_splits)
  ultimately show ?thesis by (simp add: scanNewAddresses_def reads(6))
qed

lemma plan_db_inv: "queue_inv plan_db"
  by (simp add: queue_inv_def keys_ok_def counters_ok_def plan_db_def uuids_fresh_def used_ids_def serving_def
      empty_db_def inj_def task_ok_def sample_task_def sample_run_target_def lessThan_Suc numeral_2_eq_2)

theorem scanNewAddresses_idempotent_witness:
  "length (db_tasks (snd (scanNewAddresses False plan_run plan_db))) = 2 \<and>
   scanNewAddresses False plan_run (snd (scanNewAddresses False plan_run plan_db)) =
     (None, snd (scanNewAddresses False plan_run plan_db))"
proof -
  have "fst (scanNewAddresses False plan_run plan_db) = None" by code_simp
  then have "scanNewAddresses False plan_run plan_db = (None, snd (scanNewAddresses False plan_run plan_db))"
    by (metis prod.collapse)
  moreover have "length (db_tasks (snd (scanNewAddresses False plan_run plan_db))) = 2" by code_simp
  ultimately show ?thesis using scanNewAddresses_idempotent [OF plan_db_inv] by blast
qed

section \<open>Planning as work on the queue\<close>

lemma probe_services_origins:
  "sp \<in> set (fst (probe_services os already svs)) \<Longrightarrow> distinct (sp_origins sp)"
  by (induction os already svs rule: probe_services.induct) (auto simp: spec_def split: if_splits prod.splits)

lemma probe_tasks_origins: "sp \<in> set (probe_tasks d already ts) \<Longrightarrow> distinct (sp_origins sp)"
proof (induction d already ts rule: probe_tasks.induct)
  case (1 d already)
  then show ?case by simp
next
  case (2 d already t ts)
  obtain sps already' where r: "probe_services (OriginsForTask (t_id t) d) already (sm_services (decode (t_result t))) = (sps, already')"
    by (cases "probe_services (OriginsForTask (t_id t) d) already (sm_services (decode (t_result t)))")
  have "x \<in> set sps \<Longrightarrow> distinct (sp_origins x)" for x
    using probe_services_origins [of x "OriginsForTask (t_id t) d" already "sm_services (decode (t_result t))"] r by simp
  then show ?case using 2 r by (auto split: if_splits)
qed

lemma web_specs_origins: "sp \<in> set (web_specs a b origin tgt) \<Longrightarrow> distinct (sp_origins sp)"
  by (auto simp: web_specs_def spec_def split: if_splits)

lemma post_probe_specs_origins: "sp \<in> set (post_probe_specs run d) \<Longrightarrow> distinct (sp_origins sp)"
  by (auto simp: post_probe_specs_def Let_def split: prod.splits dest: web_specs_origins)

lemma route_and_insert_steps:
  assumes "\<And>sp. sp \<in> set specs \<Longrightarrow> distinct (sp_origins sp)" and "route_and_insert run specs rt d = (e, d')"
  shows "queue_step\<^sup>*\<^sup>* d d'"
proof (cases "routeTasks specs rt")
  case (Inl x)
  then show ?thesis using assms(2) by (simp add: route_and_insert_def)
next
  case (Inr sps)
  then have "\<forall>sp \<in> set sps. distinct (sp_origins sp)"
    using routeTasks_routed [OF Inr] assms(1) by (auto simp: routed_def)
  then have "queue_step d (snd (InsertTasks (run_id run) sps d))" by (rule qs_insert)
  then show ?thesis using assms(2) Inr by (auto simp: route_and_insert_def)
qed

lemma site_steps:
  "scanNewAddresses ap run d = (e, d') \<Longrightarrow> queue_step\<^sup>*\<^sup>* d d'"
  "probeNewServices run d = (e, d') \<Longrightarrow> queue_step\<^sup>*\<^sup>* d d'"
  "maybePostProbe run d = (e, d') \<Longrightarrow> queue_step\<^sup>*\<^sup>* d d'"
proof -
  show "scanNewAddresses ap run d = (e, d') \<Longrightarrow> queue_step\<^sup>*\<^sup>* d d'"
    using route_and_insert_steps [of "scan_specs ap run d" run _ d e d'] scan_specs_mem [of _ ap run d]
    by (auto simp: scanNewAddresses_def Let_def split: if_splits sum.splits)
  show "probeNewServices run d = (e, d') \<Longrightarrow> queue_step\<^sup>*\<^sup>* d d'"
    using route_and_insert_steps [OF probe_tasks_origins]
    by (auto simp: probeNewServices_def Let_def split: if_splits sum.splits)
  show "maybePostProbe run d = (e, d') \<Longrightarrow> queue_step\<^sup>*\<^sup>* d d'"
    using route_and_insert_steps [of "post_probe_specs run d" run _ d e d'] post_probe_specs_origins [of _ run d]
    by (auto simp: maybePostProbe_def Let_def split: if_splits sum.splits)
qed

lemma active_stages_steps:
  assumes "active_stages ap run d = (e, d')"
  shows "queue_step\<^sup>*\<^sup>* d d'"
proof -
  obtain e1 d1 where 1: "scanNewAddresses ap run d = (e1, d1)" by (cases "scanNewAddresses ap run d")
  obtain e2 d2 where 2: "probeNewServices run d1 = (e2, d2)" by (cases "probeNewServices run d1")
  obtain e3 d3 where 3: "maybePostProbe run d2 = (e3, d3)" by (cases "maybePostProbe run d2")
  have "queue_step\<^sup>*\<^sup>* d d1" "queue_step\<^sup>*\<^sup>* d d2" "queue_step\<^sup>*\<^sup>* d d3"
    using site_steps(1) [OF 1] site_steps(2) [OF 2] site_steps(3) [OF 3] by auto
  then show ?thesis using assms 1 2 3 by (auto simp: active_stages_def split: option.splits)
qed

lemma same_queue_refl: "same_queue d d"
  by (simp add: same_queue_def list.rel_refl)

lemma SetRunTargetStatus_same: "same_queue d (SetRunTargetStatus i st why d)"
  by (auto simp: same_queue_def SetRunTargetStatus_def set_targets_def update_where_def target_status_row_def
      list_all2_map2 intro!: list.rel_refl_strong)

lemma SetRunStatus_same: "same_queue d (SetRunStatus i st d)"
  by (simp add: same_queue_def SetRunStatus_def set_runs_def list.rel_refl)

lemma finish_steps: "queue_step\<^sup>*\<^sup>* d (finish run d)"
proof -
  have "queue_step\<^sup>*\<^sup>* d (finish_targets ts d)" for ts
  proof (induction ts d rule: finish_targets.induct)
    case (1 d)
    then show ?case by simp
  next
    case (2 t ts d)
    then show ?case
      using qs_other [OF SetRunTargetStatus_same, of d "rt_id t" "final_status t" None]
      by (auto intro: converse_rtranclp_into_rtranclp)
  qed
  then show ?thesis
    unfolding finish_def by (rule rtranclp.rtrancl_into_rtrancl) (rule qs_other [OF SetRunStatus_same])
qed

lemma Advance_steps: "queue_step\<^sup>*\<^sup>* d (snd (snd (Advance ap run d)))"
proof -
  obtain e1 d1 where 1: "(if run_profile run = ProfilePassive then (None, d) else active_stages ap run d) = (e1, d1)"
    by (cases "if run_profile run = ProfilePassive then (None, d) else active_stages ap run d")
  have "queue_step\<^sup>*\<^sup>* d d1" using 1 active_stages_steps by (auto split: if_splits)
  moreover have "snd (snd (Advance ap run d)) \<in> {d, d1, finish run d1}"
    using 1 by (auto simp: Advance_def Let_def split: option.splits)
  moreover have "queue_step\<^sup>*\<^sup>* d1 (finish run d1)" by (rule finish_steps)
  ultimately show ?thesis by auto
qed

section \<open>Closing a run\<close>

text \<open>The row a run target becomes when the run is closed.\<close>

definition closed_row :: "instant \<Rightarrow> run_target list \<Rightarrow> run_target \<Rightarrow> run_target" where
  "closed_row now ts r = (case find (\<lambda>t. rt_id t = rt_id r) ts of
     None \<Rightarrow> r
   | Some t \<Rightarrow> if rt_status t = TargetSkipped then r
               else r\<lparr>rt_status := final_status t, rt_skip_reason := None, rt_finished_at := Some now\<rparr>)"

lemma final_status_row:
  "target_status_row d (final_status t) None r =
   r\<lparr>rt_status := final_status t, rt_skip_reason := None, rt_finished_at := Some (db_now d)\<rparr>"
  by (simp add: target_status_row_def final_status_def)

lemma closed_row_other: "rt_id r \<notin> rt_id ` set ts \<Longrightarrow> closed_row now ts r = r"
proof -
  assume "rt_id r \<notin> rt_id ` set ts"
  then have "find (\<lambda>t. rt_id t = rt_id r) ts = None" unfolding find_None_iff by (metis image_eqI)
  then show ?thesis by (simp add: closed_row_def)
qed

lemma closed_row_Cons:
  "closed_row now (t # ts) r = (if rt_id t = rt_id r then
      (if rt_status t = TargetSkipped then r
       else r\<lparr>rt_status := final_status t, rt_skip_reason := None, rt_finished_at := Some now\<rparr>)
    else closed_row now ts r)"
  by (simp add: closed_row_def)

lemma finish_targets_rows:
  "distinct (map rt_id ts) \<Longrightarrow> db_targets (finish_targets ts d) = map (closed_row (db_now d) ts) (db_targets d)"
proof (induction ts d rule: finish_targets.induct)
  case (1 d)
  then show ?case by (simp add: closed_row_def)
next
  case (2 t ts d)
  have t: "rt_id t \<notin> rt_id ` set ts" using 2(3) by simp
  show ?case
  proof (cases "rt_status t = TargetSkipped")
    case True
    then have "db_targets (finish_targets (t # ts) d) = map (closed_row (db_now d) ts) (db_targets d)" using 2 by simp
    also have "\<dots> = map (closed_row (db_now d) (t # ts)) (db_targets d)"
      by (rule map_cong [OF refl]) (use True t in \<open>auto simp: closed_row_Cons closed_row_other\<close>)
    finally show ?thesis .
  next
    case False
    let ?d = "SetRunTargetStatus (rt_id t) (final_status t) None d"
    have rows: "db_targets ?d = map (\<lambda>r. if rt_id r = rt_id t then
        r\<lparr>rt_status := final_status t, rt_skip_reason := None, rt_finished_at := Some (db_now d)\<rparr> else r) (db_targets d)"
      and now: "db_now ?d = db_now d"
      by (simp_all add: SetRunTargetStatus_def set_targets_def update_where_def final_status_row)
    have "db_targets (finish_targets (t # ts) d) = map (closed_row (db_now d) ts) (db_targets ?d)"
      using 2 False now by simp
    also have "\<dots> = map (closed_row (db_now d) (t # ts)) (db_targets d)"
      unfolding rows map_map by (rule map_cong [OF refl]) (use False t in \<open>auto simp: closed_row_Cons closed_row_other\<close>)
    finally show ?thesis .
  qed
qed

lemma ListRunTargets_distinct: "distinct (map rt_id (db_targets d)) \<Longrightarrow> distinct (map rt_id (ListRunTargets rid d))"
  unfolding ListRunTargets_def
  by (metis distinct_map_filter distinct_map distinct_sort set_sort)

lemma finish_row:
  assumes k: "keys_ok d" and r': "r' \<in> set (db_targets (finish run d))" and run: "rt_run r' = run_id run"
  shows "\<exists>r \<in> set (db_targets d). rt_id r' = rt_id r \<and> rt_total r' = rt_total r \<and> rt_done r' = rt_done r \<and>
    (rt_status r' = TargetSkipped \<or> rt_status r' = final_status r)"
proof -
  let ?ts = "ListRunTargets (run_id run) d"
  have dist: "distinct (map rt_id (db_targets d))" using k by (simp add: keys_ok_def)
  have "db_targets (finish run d) = map (closed_row (db_now d) ?ts) (db_targets d)"
    using finish_targets_rows [OF ListRunTargets_distinct [OF dist]] by (simp add: finish_def SetRunStatus_def set_runs_def)
  then obtain r where r: "r \<in> set (db_targets d)" "r' = closed_row (db_now d) ?ts r" using r' by auto
  have run_r: "rt_run r = run_id run" using run r(2) by (auto simp: closed_row_def split: option.splits if_splits)
  then have "r \<in> set ?ts" using r(1) by (simp add: ListRunTargets_def)
  then have "find (\<lambda>t. rt_id t = rt_id r) ?ts = Some r"
    by (intro find_key ListRunTargets_distinct dist)
  then show ?thesis using r by (intro bexI [of _ r]) (auto simp: closed_row_def)
qed

lemma all_done_count: "(\<forall>t \<in> set ts. t_status t = TaskDone) \<longleftrightarrow> \<not> (length ts > 0 \<and> dones ts < length ts)"
proof (induction ts)
  case Nil
  then show ?case by simp
next
  case (Cons t ts)
  have "dones ts \<le> length ts" by simp
  then show ?case using Cons by auto
qed

text \<open>
  C17: A run is closed when, and only when, all of it has ended, and it says honestly what became of
  each target. If a tick finishes a run, the run has tasks and every one of them is done, failed or
  cancelled; the run is completed; and a target that was not skipped is completed exactly if every
  task that served it is done, and incomplete otherwise.
\<close>

theorem Advance_finishes:
  assumes inv: "queue_inv d" and adv: "Advance ap run d = (True, e, d')"
  shows "e = None \<and> run_tasks d' (run_id run) \<noteq> [] \<and> (\<forall>t \<in> set (run_tasks d' (run_id run)). ended (t_status t)) \<and>
    (\<forall>r \<in> set (db_runs d'). run_id r = run_id run \<longrightarrow> run_status r = RunCompleted) \<and>
    (\<forall>x \<in> set (db_targets d'). rt_run x = run_id run \<longrightarrow> rt_status x = TargetSkipped \<or>
       rt_status x = (if \<forall>t \<in> set (serving d' (rt_id x)). t_status t = TaskDone then TargetCompleted else TargetIncomplete))"
proof -
  obtain e1 d1 where 1: "(if run_profile run = ProfilePassive then (None, d) else active_stages ap run d) = (e1, d1)"
    by (cases "if run_profile run = ProfilePassive then (None, d) else active_stages ap run d")
  have fin: "e = None" "d' = finish run d1" "pr_total (RunProgress (run_id run) d1) > 0"
      "pr_outstanding (RunProgress (run_id run) d1) = 0"
    using adv 1 by (auto simp: Advance_def Let_def split: if_splits option.splits)
  have tasks: "run_tasks d' (run_id run) = run_tasks d1 (run_id run)" by (simp add: fin run_tasks_def)
  have ended: "ended (t_status t)" if "t \<in> set (run_tasks d' (run_id run))" for t
    using fin(4) that by (cases "t_status t") (auto simp: RunProgress_def tasks filter_empty_conv outstanding_def ended_def)
  have "queue_step\<^sup>*\<^sup>* d d1" using 1 active_stages_steps by (auto split: if_splits)
  then have inv1: "queue_inv d1" using queue.run_inv inv by blast
  have status: "rt_status x = TargetSkipped \<or>
       rt_status x = (if \<forall>t \<in> set (serving d' (rt_id x)). t_status t = TaskDone then TargetCompleted else TargetIncomplete)"
    if x: "x \<in> set (db_targets d')" "rt_run x = run_id run" for x
  proof -
    obtain r where r: "r \<in> set (db_targets d1)" "rt_id x = rt_id r" "rt_status x = TargetSkipped \<or> rt_status x = final_status r"
      using finish_row [of d1 x run] inv1 x fin(2) by (auto simp: queue_inv_def)
    have sv: "serving d' (rt_id x) = serving d1 (rt_id r)" by (simp add: serving_def fin(2) r(2))
    have cnt: "rt_total r = int (length (serving d1 (rt_id r)))" "rt_done r = int (dones (serving d1 (rt_id r)))"
      using inv1 r(1) by (simp_all add: queue_inv_def counters_ok_def)
    show ?thesis using r(3) unfolding sv final_status_def cnt all_done_count by auto
  qed
  have "\<forall>r \<in> set (db_runs d'). run_id r = run_id run \<longrightarrow> run_status r = RunCompleted"
    by (auto simp: fin(2) finish_def SetRunStatus_def set_runs_def set_update_where status_row_def Let_def)
  then show ?thesis using fin(1,3) ended status by (auto simp: tasks RunProgress_def)
qed

definition passive_run :: scan_run where
  "passive_run = plan_run\<lparr>run_profile := ''passive''\<rparr>"

definition passive_db :: db where
  "passive_db = plan_db\<lparr>db_runs := [passive_run]\<rparr>"

lemma passive_db_inv: "queue_inv passive_db"
  by (rule same_queue_inv [OF plan_db_inv]) (simp add: same_queue_def passive_db_def list.rel_refl)

theorem Advance_finishes_witness:
  "fst (Advance False passive_run passive_db) \<and>
   map rt_status (db_targets (snd (snd (Advance False passive_run passive_db)))) = [TargetCompleted] \<and>
   map run_status (db_runs (snd (snd (Advance False passive_run passive_db)))) = [RunCompleted]"
proof -
  let ?r = "Advance False passive_run passive_db"
  have f: "fst ?r" by code_simp
  have ids: "map run_id (db_runs (snd (snd ?r))) = [run_id passive_run]"
      "map (\<lambda>x. (rt_run x, rt_status x = TargetSkipped)) (db_targets (snd (snd ?r))) = [(run_id passive_run, False)]"
      "map (\<lambda>x. list_all (\<lambda>t. t_status t = TaskDone) (serving (snd (snd ?r)) (rt_id x))) (db_targets (snd (snd ?r))) = [True]"
    by code_simp+
  then obtain r x where rx: "db_runs (snd (snd ?r)) = [r]" "run_id r = run_id passive_run"
      "db_targets (snd (snd ?r)) = [x]" "rt_run x = run_id passive_run" "rt_status x \<noteq> TargetSkipped"
      "\<forall>t \<in> set (serving (snd (snd ?r)) (rt_id x)). t_status t = TaskDone"
    by (auto simp: list_all_iff)
  have "Advance False passive_run passive_db = (True, fst (snd ?r), snd (snd ?r))" using f by (metis prod.collapse)
  from Advance_finishes [OF passive_db_inv this] show ?thesis using f rx by simp
qed

text \<open>
  C16: A run never idles. A tick on a running run that has tasks closes the run, reports an error, or
  leaves a task that is waiting or in flight: the planner never leaves a run open with nothing to do.
\<close>

theorem Advance_never_idles:
  assumes run: "run_status run = RunRunning" and tasks: "run_tasks d (run_id run) \<noteq> []"
    and adv: "Advance ap run d = (finished, e, d')"
  shows "finished \<or> e \<noteq> None \<or> (\<exists>t \<in> set (run_tasks d' (run_id run)). outstanding t)"
proof -
  obtain e1 d1 where 1: "(if run_profile run = ProfilePassive then (None, d) else active_stages ap run d) = (e1, d1)"
    by (cases "if run_profile run = ProfilePassive then (None, d) else active_stages ap run d")
  have "\<exists>ts. db_tasks d1 = db_tasks d @ ts"
    using 1 active_stages_extends [of ap run d e1 d1] by (auto simp: extends_def split: if_splits)
  then have total: "pr_total (RunProgress (run_id run) d1) > 0" using tasks by (auto simp: RunProgress_def run_tasks_def)
  show ?thesis
  proof (cases "e1 = None \<and> pr_outstanding (RunProgress (run_id run) d1) \<noteq> 0")
    case True
    then have "d' = d1" using adv run 1 by (simp add: Advance_def Let_def)
    then show ?thesis using True by (auto simp: RunProgress_def filter_empty_conv)
  next
    case False
    then show ?thesis using adv run 1 total by (cases e1) (auto simp: Advance_def Let_def)
  qed
qed

theorem Advance_never_idles_witness:
  "run_tasks plan_db 7 \<noteq> [] \<and> \<not> fst (Advance False plan_run plan_db) \<and>
   (\<exists>t \<in> set (run_tasks (snd (snd (Advance False plan_run plan_db))) 7). outstanding t)"
proof -
  let ?r = "Advance False plan_run plan_db"
  have nf: "\<not> fst ?r" "fst (snd ?r) = None" by code_simp+
  have id: "run_id plan_run = 7" "run_status plan_run = RunRunning" by (simp_all add: plan_run_def sample_run_def)
  have ne: "run_tasks plan_db 7 \<noteq> []" by code_simp
  have "Advance False plan_run plan_db = (fst ?r, fst (snd ?r), snd (snd ?r))" by simp
  from Advance_never_idles [OF id(2) ne [folded id(1)] this]
  show ?thesis using nf ne unfolding id by blast
qed

end
