(* ===== verification/PlanStart.thy ===== *)
theory PlanStart
  imports PlanLife
begin

text \<open>
  The first tasks of a run: what \<open>PlanInitial\<close> may queue, and the two places where planning falls
  short of what it promises, the exclusions \<open>PlanInitial\<close> does not consult and the web services that
  are found after the web stages were planned.
\<close>

section \<open>The first tasks of a run\<close>

lemma plan_targets_specs: "fst (plan_targets ap passive auth ts d) = concat (map (\<lambda>t. fst (plan_target ap passive auth t)) ts)"
  by (induction ts arbitrary: d) (simp_all add: case_prod_unfold)

lemma plan_targets_tasks: "db_tasks (snd (plan_targets ap passive auth ts d)) = db_tasks d"
proof (induction ts arbitrary: d)
  case Nil
  then show ?case by simp
next
  case (Cons t ts)
  obtain sps st where st: "plan_target ap passive auth t = (sps, st)" by (cases "plan_target ap passive auth t")
  have "db_tasks (case st of None \<Rightarrow> d | Some (s, why) \<Rightarrow> SetRunTargetStatus (rt_id t) s why d) = db_tasks d"
    by (auto simp: SetRunTargetStatus_def set_targets_def split: option.splits)
  then show ?case using Cons.IH st by (simp add: case_prod_unfold)
qed

text \<open>What a scan planned from the target list itself rests on.\<close>

definition target_permits :: "bool \<Rightarrow> scope_target list \<Rightarrow> run_target \<Rightarrow> string \<Rightarrow> bool" where
  "target_permits ap sts r ip \<longleftrightarrow> authorized (authIndex sts) (rt_value r) \<and> (ap \<or> \<not> isPrivateTarget (rt_value r)) \<and>
     (if rt_kind r = ''ip'' then ip = rt_value r else rt_kind r = ''cidr'' \<and> ip \<in> set (ExpandCIDRHosts (rt_value r) 4096))"

lemma plan_target_scan:
  assumes "sp \<in> set (fst (plan_target ap passive (authIndex sts) r))" and "SendsTrafficToTarget (sp_stage sp)"
  shows "\<not> passive \<and> sp_stage sp = StagePortScan \<and> sp_wordlist sp = [] \<and> tg_ips (sp_target sp) = [] \<and>
    target_permits ap sts r (tg_ip (sp_target sp))"
  using assms by (auto simp: plan_target_def target_permits_def spec_def cidrHostCap_def split: if_splits)

lemma dnsBruteSpecs_passive: "sp \<in> set (dnsBruteSpecs run ts d) \<Longrightarrow> \<not> SendsTrafficToTarget (sp_stage sp)"
  by (auto simp: dnsBruteSpecs_def spec_def split: if_splits)

text \<open>
  C19: The first tasks of a run send traffic only where it is permitted. What \<open>PlanInitial\<close> queues
  goes behind what was there; a task that sends packets to the target is a port scan, the run is
  not passive, the task is bound to the exit pool of the run, and its address is an authorized
  address target of the run or lies in an authorized block, with internal ranges left out unless
  they are allowed; every other task goes to the pool discovery runs in.
\<close>

theorem PlanInitial_safe:
  assumes "PlanInitial ap run targets sts d = (e, d')"
  shows "\<exists>ts. db_tasks d' = db_tasks d @ ts \<and> (\<forall>t \<in> set ts. t_run t = run_id run \<and> t_status t = TaskPending \<and>
    (if SendsTrafficToTarget (t_stage t)
     then t_stage t = StagePortScan \<and> run_profile run \<noteq> ProfilePassive \<and> run_pool run \<noteq> None \<and> t_pool t = run_pool run \<and>
       tg_ips (t_target t) = [] \<and> (\<exists>r \<in> set targets. target_permits ap sts r (tg_ip (t_target t)))
     else t_pool t = PassivePool d))"
proof -
  let ?d1 = "SetRunStatus (run_id run) RunRunning d"
  let ?p = "plan_targets ap (run_profile run = ProfilePassive) (authIndex sts) targets ?d1"
  let ?specs = "fst ?p @ dnsBruteSpecs run targets (snd ?p)"
  have t1: "db_tasks (snd ?p) = db_tasks d" by (simp add: plan_targets_tasks SetRunStatus_def set_runs_def)
  have pp: "PassivePool ?d1 = PassivePool d"
    by (simp add: PassivePool_def active_in_pool_def PoolByName_def DefaultPool_def default_pool_def SetRunStatus_def set_runs_def
        cong: list.case_cong option.case_cong)
  consider "db_tasks d' = db_tasks d"
    | rt where "routingFor run ?d1 = Inr rt" "route_and_insert run ?specs rt (snd ?p) = (e, d')"
    using assms t1
    by (auto simp: PlanInitial_def Let_def SetRunStatus_def set_runs_def case_prod_unfold split: sum.splits if_splits)
  then show ?thesis
  proof cases
    case 1
    then show ?thesis by simp
  next
    case (2 rt)
    note pools = routingFor_pools [OF 2(1)]
    have "extends (\<lambda>t. well_routed run (Some (rt_passive rt)) t \<and> comes_from ?specs t) (snd ?p) d'"
      using pools by (intro route_and_insert_routed [OF _ 2(2)]) simp
    then obtain ts where ts: "db_tasks d' = db_tasks d @ ts"
        "\<And>t. t \<in> set ts \<Longrightarrow> well_routed run (PassivePool d) t \<and> comes_from ?specs t"
      unfolding extends_def t1 using pools pp by auto
    have "t_stage t = StagePortScan \<and> run_profile run \<noteq> ProfilePassive \<and> tg_ips (t_target t) = [] \<and>
        (\<exists>r \<in> set targets. target_permits ap sts r (tg_ip (t_target t)))"
      if t: "t \<in> set ts" "SendsTrafficToTarget (t_stage t)" for t
    proof -
      obtain sp where sp: "sp \<in> set ?specs" "t_stage t = sp_stage sp"
          "t_target t = (if sp_wordlist sp \<noteq> [] then (sp_target sp)\<lparr>tg_wordlist := sp_wordlist sp\<rparr> else sp_target sp)"
        using ts(2) [OF t(1)] unfolding comes_from_def by blast
      then have "sp \<in> set (fst ?p)" using t(2) dnsBruteSpecs_passive by auto
      then obtain r where r: "r \<in> set targets"
          "sp \<in> set (fst (plan_target ap (run_profile run = ProfilePassive) (authIndex sts) r))"
        by (auto simp: plan_targets_specs)
      show ?thesis using plan_target_scan [OF r(2)] r(1) sp(2,3) t(2) by auto
    qed
    then have "\<forall>t \<in> set ts. t_run t = run_id run \<and> t_status t = TaskPending \<and>
      (if SendsTrafficToTarget (t_stage t)
       then t_stage t = StagePortScan \<and> run_profile run \<noteq> ProfilePassive \<and> run_pool run \<noteq> None \<and> t_pool t = run_pool run \<and>
         tg_ips (t_target t) = [] \<and> (\<exists>r \<in> set targets. target_permits ap sts r (tg_ip (t_target t)))
       else t_pool t = PassivePool d)"
      using ts(2) unfolding well_routed_def by (simp split: if_splits)
    then show ?thesis using ts(1) by blast
  qed
qed

definition start_db :: db where
  "start_db = plan_db\<lparr>db_tasks := [], db_origins := [],
     db_targets := [sample_run_target 1000 ''cidr'' ''8.8.8.0/30''],
     db_scope_targets := [sample_target 1 ''cidr'' ''8.8.8.0/30'' ModeActive, sample_target 2 ''ip'' ''8.8.8.1'' ModeExclude]\<rparr>"

definition started :: "string option \<times> db" where
  "started = PlanInitial False plan_run (db_targets start_db) (db_scope_targets start_db) start_db"

theorem PlanInitial_safe_witness:
  "map (\<lambda>t. tg_ip (t_target t)) (db_tasks (snd started)) = [''8.8.8.0'', ''8.8.8.1'', ''8.8.8.2'', ''8.8.8.3''] \<and>
   map t_pool (db_tasks (snd started)) = [Some 9, Some 9, Some 9, Some 9]"
proof -
  have ips: "map (\<lambda>t. tg_ip (t_target t)) (db_tasks (snd started)) = [''8.8.8.0'', ''8.8.8.1'', ''8.8.8.2'', ''8.8.8.3'']"
    by code_simp
  have st: "map t_stage (db_tasks (snd started)) = [StagePortScan, StagePortScan, StagePortScan, StagePortScan]" by code_simp
  have p: "run_pool plan_run = Some 9" by (simp add: plan_run_def sample_run_def)
  have none: "db_tasks start_db = []" by (simp add: start_db_def)
  have "PlanInitial False plan_run (db_targets start_db) (db_scope_targets start_db) start_db = (fst started, snd started)"
    by (simp add: started_def)
  note safe = PlanInitial_safe [OF this, unfolded none]
  obtain a b c e where l: "db_tasks (snd started) = [a, b, c, e]" "t_stage a = StagePortScan" "t_stage b = StagePortScan"
      "t_stage c = StagePortScan" "t_stage e = StagePortScan"
    using st by (auto simp: map_eq_Cons_conv)
  have "t_pool x = run_pool plan_run" if x: "x \<in> {a, b, c, e}" for x
  proof -
    have "SendsTrafficToTarget (t_stage x)" using x l by auto
    then show ?thesis using safe x l(1) by auto
  qed
  then have "map t_pool (db_tasks (snd started)) = [Some 9, Some 9, Some 9, Some 9]" unfolding l(1) p by simp
  then show ?thesis using ips by simp
qed


section \<open>Services found late\<close>

lemma probe_services_stage: "sp \<in> set (fst (probe_services os already svs)) \<Longrightarrow> sp_stage sp = StageServiceProbe"
  by (induction os already svs rule: probe_services.induct) (auto simp: spec_def split: if_splits prod.splits)

lemma probe_tasks_stage: "sp \<in> set (probe_tasks d already ts) \<Longrightarrow> sp_stage sp = StageServiceProbe"
proof (induction d already ts rule: probe_tasks.induct)
  case (1 d already)
  then show ?case by simp
next
  case (2 d already t ts)
  obtain sps already' where r: "probe_services (OriginsForTask (t_id t) d) already (sm_services (decode (t_result t))) = (sps, already')"
    by (cases "probe_services (OriginsForTask (t_id t) d) already (sm_services (decode (t_result t)))")
  have "x \<in> set sps \<Longrightarrow> sp_stage x = StageServiceProbe" for x
    using probe_services_stage [of x "OriginsForTask (t_id t) d" already "sm_services (decode (t_result t))"] r by simp
  then show ?case using 2 r by (auto split: if_splits)
qed

lemma probeNewServices_stage:
  assumes "probeNewServices run d = (e, d')"
  shows "extends (\<lambda>t. t_stage t = StageServiceProbe) d d'"
proof (cases "d' = d")
  case True
  then show ?thesis by simp
next
  case False
  then obtain rt already where rt: "routingFor run d = Inr rt"
      "route_and_insert run (probe_tasks d already (TasksByStage (run_id run) StagePortScan d)) rt d = (e, d')"
    using assms by (auto simp: probeNewServices_def Let_def split: if_splits sum.splits)
  show ?thesis
    by (rule extends_mono [OF route_and_insert_extends [OF rt]]) (auto simp: comes_from_def dest: probe_tasks_stage)
qed

lemma StageExists_extends: "extends P d d' \<Longrightarrow> StageExists rid s d \<Longrightarrow> StageExists rid s d'"
  by (auto simp: extends_def StageExists_def TasksByStage_def run_tasks_def)

text \<open>
  The web stages are planned once. As soon as a run has a \<open>tech_detect\<close> task, a tick of the
  planner queues port scans and service probes only: the web services that later probes report are
  never examined, although scanning and probing go on incrementally.
\<close>

theorem web_stages_planned_once:
  assumes "StageExists (run_id run) StageTechDetect d" and "Advance ap run d = (finished, e, d')"
  shows "\<exists>ts. db_tasks d' = db_tasks d @ ts \<and> (\<forall>t \<in> set ts. t_stage t \<in> {StagePortScan, StageServiceProbe})"
proof -
  let ?P = "\<lambda>t. t_stage t \<in> {StagePortScan, StageServiceProbe}"
  obtain e1 d1 where 1: "scanNewAddresses ap run d = (e1, d1)" by (cases "scanNewAddresses ap run d")
  obtain e2 d2 where 2: "probeNewServices run d1 = (e2, d2)" by (cases "probeNewServices run d1")
  have x1: "extends ?P d d1"
    by (rule extends_mono [OF scanNewAddresses_extends [OF 1]]) (auto simp: comes_from_def dest: scan_specs_mem)
  have x2: "extends ?P d d2"
    by (rule extends_trans [OF x1], rule extends_mono [OF probeNewServices_stage [OF 2]]) simp
  have "maybePostProbe run d2 = (None, d2)"
    using StageExists_extends [OF x2 assms(1)] by (simp add: maybePostProbe_def)
  then have x3: "extends ?P d d3" if "active_stages ap run d = (e3, d3)" for e3 d3
    using that 1 2 x1 x2 by (auto simp: active_stages_def split: option.splits)
  obtain e3 d3 where 3: "(if run_profile run = ProfilePassive then (None, d) else active_stages ap run d) = (e3, d3)"
    by (cases "if run_profile run = ProfilePassive then (None, d) else active_stages ap run d")
  have "extends ?P d d3" using 3 x3 by (cases "run_profile run = ProfilePassive") simp_all
  moreover have "db_tasks d' = db_tasks d \<or> db_tasks d' = db_tasks d3"
    using assms(2) 3 by (auto simp: Advance_def Let_def split: if_splits option.splits)
  ultimately show ?thesis unfolding extends_def by (metis append_Nil2 empty_iff list.set(1))
qed

text \<open>A run whose second service answered after the first had been examined.\<close>

definition late_db :: db where
  "late_db = plan_db\<lparr>db_origins := [], db_tasks :=
     [(sample_task 1001 StagePortScan TaskDone)\<lparr>t_target := no_target\<lparr>tg_ips := [''8.8.8.8'', ''9.9.9.9'']\<rparr>,
        t_result := Some (no_summary\<lparr>sm_services := [(''8.8.8.8'', 80), (''9.9.9.9'', 80)]\<rparr>)\<rparr>,
      (sample_task 1002 StageServiceProbe TaskDone)\<lparr>t_target := no_target\<lparr>tg_ip := ''8.8.8.8'', tg_port := 80\<rparr>,
        t_result := Some (no_summary\<lparr>sm_urls := [''http://8.8.8.8:80'']\<rparr>)\<rparr>,
      (sample_task 1003 StageTechDetect TaskDone)\<lparr>t_target := no_target\<lparr>tg_url := ''http://8.8.8.8:80'', tg_ip := ''8.8.8.8'', tg_port := 80\<rparr>\<rparr>,
      (sample_task 1004 StageServiceProbe TaskDone)\<lparr>t_target := no_target\<lparr>tg_ip := ''9.9.9.9'', tg_port := 80\<rparr>,
        t_result := Some (no_summary\<lparr>sm_urls := [''http://9.9.9.9:80'']\<rparr>)\<rparr>]\<rparr>"

theorem web_stages_planned_once_witness:
  "fst (Advance False plan_run late_db) \<and>
   filter (\<lambda>t. t_stage t = StageTechDetect) (db_tasks (snd (snd (Advance False plan_run late_db)))) =
   filter (\<lambda>t. t_stage t = StageTechDetect) (db_tasks late_db) \<and>
   map (\<lambda>t. tg_url (t_target t)) (filter (\<lambda>t. t_stage t = StageTechDetect) (db_tasks late_db)) = [''http://8.8.8.8:80'']"
proof -
  let ?r = "Advance False plan_run late_db"
  have f: "fst ?r" by code_simp
  have ex: "StageExists (run_id plan_run) StageTechDetect late_db" by code_simp
  have urls: "map (\<lambda>t. tg_url (t_target t)) (filter (\<lambda>t. t_stage t = StageTechDetect) (db_tasks late_db)) = [''http://8.8.8.8:80'']"
    by code_simp
  have "?r = (fst ?r, fst (snd ?r), snd (snd ?r))" by simp
  from web_stages_planned_once [OF ex this] obtain ts where ts: "db_tasks (snd (snd ?r)) = db_tasks late_db @ ts"
      "\<forall>t \<in> set ts. t_stage t \<in> {StagePortScan, StageServiceProbe}" by blast
  have "filter (\<lambda>t. t_stage t = StageTechDetect) ts = []" using ts(2) by (auto simp: filter_empty_conv)
  then show ?thesis using f urls unfolding ts(1) filter_append by simp
qed

end
