(* ===== verification/ConfigStore.thy ===== *)
theory ConfigStore
  imports Accounts WorkerStore
begin

text \<open>
  What a scan is configured with: the rest of the wordlist registry (\<^verbatim>\<open>store/wordlist.go\<close>), the saved
  presets (\<^verbatim>\<open>store/scanprofile.go\<close>) and the VPN tunnels of accounts (\<^verbatim>\<open>store/vpn.go\<close>). Sealing and
  opening a tunnel's configuration is the package \<^verbatim>\<open>secret\<close>, whose two functions are arguments here.
\<close>

section \<open>The wordlist registry\<close>

definition registry_order :: "wordlist \<Rightarrow> bool \<times> string" where
  "registry_order w = (\<not> wl_builtin w, wl_name w)"

definition ListWordlists :: "string \<Rightarrow> db \<Rightarrow> wordlist list" where
  "ListWordlists kind d = sort_key registry_order (filter (\<lambda>w. kind = [] \<or> wl_kind w = kind) (db_wordlists d))"

definition WordlistBySHA :: "string \<Rightarrow> db \<Rightarrow> wordlist option" where
  "WordlistBySHA sha d =
     (case sort_key registry_order (filter (\<lambda>w. wl_sha256 w = Some sha \<and> wl_status w = ''ready'') (db_wordlists d)) of
        [] \<Rightarrow> None | w # _ \<Rightarrow> Some w)"

definition PendingWordlists :: "db \<Rightarrow> wordlist list" where
  "PendingWordlists d = sort_key wl_name
     (filter (\<lambda>w. wl_status w \<in> {''pending'', ''failed''} \<and> wl_source_url w \<noteq> None) (db_wordlists d))"

definition CreateWordlist :: "string \<Rightarrow> string \<Rightarrow> string \<Rightarrow> string \<Rightarrow> db \<Rightarrow> uuid result \<times> db" where
  "CreateWordlist name kind object_key created_by d =
     (if name \<in> wl_name ` set (db_wordlists d) then (Inl ''wordlist: unique'', d)
      else (Inr (fresh d), drawn d\<lparr>db_wordlists := db_wordlists d @ [\<lparr>wl_id = fresh d, wl_name = name, wl_kind = kind,
        wl_status = ''pending'', wl_default = False, wl_builtin = False, wl_object_key = object_key, wl_source_url = None,
        wl_sha256 = None, wl_size = 0, wl_lines = 0, wl_error = None, wl_created_by = Some created_by\<rparr>]\<rparr>))"

definition set_wordlist :: "uuid \<Rightarrow> (wordlist \<Rightarrow> wordlist) \<Rightarrow> db \<Rightarrow> db" where
  "set_wordlist i f d = d\<lparr>db_wordlists := update_where (\<lambda>w. wl_id w = i) f (db_wordlists d)\<rparr>"

definition MarkWordlistReady :: "uuid \<Rightarrow> string \<Rightarrow> int \<Rightarrow> int \<Rightarrow> db \<Rightarrow> db" where
  "MarkWordlistReady i sha bytes lines d = set_wordlist i (\<lambda>w. w\<lparr>wl_status := ''ready'', wl_sha256 := Some sha,
     wl_size := bytes, wl_lines := lines, wl_error := None\<rparr>) d"

definition MarkWordlistFailed :: "uuid \<Rightarrow> string \<Rightarrow> db \<Rightarrow> db" where
  "MarkWordlistFailed i msg d = set_wordlist i (\<lambda>w. w\<lparr>wl_status := ''failed'', wl_error := Some msg\<rparr>) d"

definition SetWordlistStatus :: "uuid \<Rightarrow> string \<Rightarrow> db \<Rightarrow> db" where
  "SetWordlistStatus i status d = set_wordlist i (\<lambda>w. w\<lparr>wl_status := status\<rparr>) d"

definition SetWordlistDefault :: "uuid \<Rightarrow> bool \<Rightarrow> db \<Rightarrow> db" where
  "SetWordlistDefault i def d = set_wordlist i (\<lambda>w. w\<lparr>wl_default := def\<rparr>) d"

text \<open>Deleting a list takes it from the runs that were configured with it (\<^verbatim>\<open>ON DELETE CASCADE\<close>).\<close>

definition DeleteWordlist :: "uuid \<Rightarrow> db \<Rightarrow> bool \<times> db" where
  "DeleteWordlist i d = (let p = (\<lambda>w. wl_id w = i \<and> \<not> wl_builtin w) in
     if affected p (db_wordlists d) = 0 then (False, d)
     else (True, d\<lparr>db_wordlists := filter (\<lambda>w. \<not> p w) (db_wordlists d),
                   db_run_wordlists := filter (\<lambda>e. snd e \<noteq> i) (db_run_wordlists d)\<rparr>))"

section \<open>Presets\<close>

text \<open>
  A preset is keyed by its scope, with the nil identifier for none, and its name. Saving one again
  replaces what it holds and keeps its identifier.
\<close>

definition profile_key :: "scan_profile \<Rightarrow> uuid \<times> string" where
  "profile_key p = (case pf_scope p of None \<Rightarrow> uuid_Nil | Some s \<Rightarrow> s, pf_name p)"

definition SaveScanProfile :: "scan_profile \<Rightarrow> db \<Rightarrow> uuid result \<times> db" where
  "SaveScanProfile p d =
     (if dangling (pf_scope p) (map sco_id (db_scopes d)) then (Inl ''scan_profile: foreign key'', d)
      else case find (\<lambda>x. profile_key x = profile_key p) (db_profiles d) of
        Some x \<Rightarrow> (Inr (pf_id x), d\<lparr>db_profiles := update_where (\<lambda>y. profile_key y = profile_key p)
          (\<lambda>y. y\<lparr>pf_params := pf_params p, pf_owner := pf_owner p, pf_default := pf_default p\<rparr>) (db_profiles d)\<rparr>)
      | None \<Rightarrow> (Inr (fresh d), drawn d\<lparr>db_profiles := db_profiles d @ [p\<lparr>pf_id := fresh d\<rparr>]\<rparr>))"

definition ListScanProfiles :: "uuid \<Rightarrow> db \<Rightarrow> scan_profile list" where
  "ListScanProfiles sc d = sort_key (\<lambda>p. (\<not> pf_default p, pf_name p))
     (filter (\<lambda>p. pf_scope p = None \<or> pf_scope p = Some sc) (db_profiles d))"

section \<open>Tunnels\<close>

definition CreateVPNConfig :: "(string \<Rightarrow> string result) \<Rightarrow> vpn_config \<Rightarrow> string \<Rightarrow> db \<Rightarrow> vpn_config result \<times> db" where
  "CreateVPNConfig seal v body d = (case seal body of
     Inl e \<Rightarrow> (Inl e, d)
   | Inr sealed \<Rightarrow>
       (if (vc_owner v, vc_name v) \<in> (\<lambda>x. (vc_owner x, vc_name x)) ` set (db_vpns d) then (Inl ''vpn_config: unique'', d)
        else if vc_owner v \<notin> us_id ` set (users d) then (Inl ''vpn_config: foreign key'', d)
        else if vc_kind v \<notin> {''wireguard'', ''openvpn''} then (Inl ''vpn_config: check'', d)
        else let row = v\<lparr>vc_id := fresh d, vc_config := sealed, vc_egress := None, vc_checked_at := None, vc_created_at := db_now d\<rparr>
             in (Inr row, drawn d\<lparr>db_vpns := db_vpns d @ [row]\<rparr>)))"

definition ListVPNConfigs :: "uuid \<Rightarrow> db \<Rightarrow> vpn_config list" where
  "ListVPNConfigs owner d = sort_key vc_name (filter (\<lambda>v. vc_owner v = owner) (db_vpns d))"

definition GetVPNConfig :: "uuid \<Rightarrow> db \<Rightarrow> vpn_config option" where
  "GetVPNConfig i d = find (\<lambda>v. vc_id v = i) (db_vpns d)"

definition OpenVPNConfigBody :: "(string \<Rightarrow> string result) \<Rightarrow> uuid \<Rightarrow> db \<Rightarrow> string result" where
  "OpenVPNConfigBody open_sealed i d = (case GetVPNConfig i d of None \<Rightarrow> Inl ''no rows in result set'' | Some v \<Rightarrow> open_sealed (vc_config v))"

definition DeleteVPNConfig :: "uuid \<Rightarrow> uuid option \<Rightarrow> db \<Rightarrow> bool \<times> db" where
  "DeleteVPNConfig i owner d = (let p = (\<lambda>v. vc_id v = i \<and> (owner = None \<or> owner = Some (vc_owner v)))
     in (0 < affected p (db_vpns d), delete_vpns p d))"

definition VPNConfigOwnedBy :: "uuid \<Rightarrow> uuid \<Rightarrow> db \<Rightarrow> bool" where
  "VPNConfigOwnedBy i owner d \<longleftrightarrow> list_ex (\<lambda>v. vc_id v = i \<and> vc_owner v = owner) (db_vpns d)"

definition RecordVPNEgress :: "uuid \<Rightarrow> string \<Rightarrow> db \<Rightarrow> db" where
  "RecordVPNEgress i ip d = d\<lparr>db_vpns := update_where (\<lambda>v. vc_id v = i)
     (\<lambda>v. v\<lparr>vc_egress := Some ip, vc_checked_at := Some (db_now d)\<rparr>) (db_vpns d)\<rparr>"

end
