(* ===== verification/Gateway.thy ===== *)
theory Gateway
  imports Dispatch ConfigStore IngestProps
begin

text \<open>
  \<^verbatim>\<open>internal/agentapi\<close>, the gateway the workers talk to: whose word counts for a client's address
  (\<^verbatim>\<open>proxies.go\<close>), the credentials of workers (\<^verbatim>\<open>cred.go\<close>), the confinement of results
  (\<^verbatim>\<open>confine.go\<close>) and the handlers of \<^verbatim>\<open>gateway.go\<close>. A handler returns its answer, the gateway and
  the database. The loops of \<open>connect\<close> and \<open>readLoop\<close> are one definition per turn, and \<open>readLoop\<close>
  folds its turn over the messages that arrive.

  Code from elsewhere is a field of \<open>gateway_env\<close>: \<^verbatim>\<open>uuid.Parse\<close>, \<^verbatim>\<open>argon2.IDKey\<close>,
  \<^verbatim>\<open>sha256.Sum256\<close>, name lookup, the object store and the public suffix list. A JSON body is the
  decoded value, or \<open>None\<close> when it does not decode; the identifiers in it are texts. The database
  answers every statement, so the branches for a connection that fails are not there.
\<close>

section \<open>Trusted proxies\<close>

record trusted_proxies =
  tp_prefixes :: "prefix list"
  tp_names :: "string list"
  tp_resolved :: "addr list"
  tp_at :: "instant option"

text \<open>
  \<open>PrefixFrom\<close> drops the zone and \<open>Masked\<close> the host bits; \<open>prefix_contains\<close> looks at neither.
\<close>

fun parse_proxy_fields :: "string list \<Rightarrow> trusted_proxies \<Rightarrow> trusted_proxies" where
  "parse_proxy_fields [] t = t"
| "parse_proxy_fields (x # fs) t = (let f = TrimSpace x in parse_proxy_fields fs
     (if f = [] then t
      else if CHR ''/'' \<in> set f
      then (case ParsePrefix f of None \<Rightarrow> t | Some p \<Rightarrow> t\<lparr>tp_prefixes := tp_prefixes t @ [p]\<rparr>)
      else (case ParseAddr f of
              Some a \<Rightarrow> t\<lparr>tp_prefixes := tp_prefixes t @ [(a, BitLen a)]\<rparr>
            | None \<Rightarrow> t\<lparr>tp_names := tp_names t @ [f]\<rparr>)))"

definition parseTrustedProxies :: "string \<Rightarrow> trusted_proxies" where
  "parseTrustedProxies s = parse_proxy_fields (split_on CHR '','' s)
     \<lparr>tp_prefixes = [], tp_names = [], tp_resolved = [], tp_at = None\<rparr>"

definition proxies_empty :: "trusted_proxies \<Rightarrow> bool" where
  "proxies_empty t \<longleftrightarrow> tp_prefixes t = [] \<and> tp_names t = []"

text \<open>\<^verbatim>\<open>netip.AddrFromSlice\<close>: four bytes or sixteen.\<close>

definition AddrFromSlice :: "byte list \<Rightarrow> addr option" where
  "AddrFromSlice b = (if length b = 4 then Some (Addr4 b) else if length b = 16 then Some (Addr6 b []) else None)"

fun resolve_names :: "(string \<Rightarrow> byte list list option) \<Rightarrow> string list \<Rightarrow> addr list" where
  "resolve_names lookup [] = []"
| "resolve_names lookup (n # ns) = (case lookup n of
     None \<Rightarrow> resolve_names lookup ns
   | Some ips \<Rightarrow> map Unmap (List.map_filter AddrFromSlice ips) @ resolve_names lookup ns)"

text \<open>\<open>trusts\<close>: the verdict and the cache of resolved names, refreshed when older than 30 seconds.\<close>

definition trusts ::
  "(string \<Rightarrow> byte list list option) \<Rightarrow> instant \<Rightarrow> addr \<Rightarrow> trusted_proxies \<Rightarrow> bool \<times> trusted_proxies" where
  "trusts lookup now peer0 t =
     (let peer = Unmap peer0
      in if proxies_empty t then (False, t)
         else if list_ex (\<lambda>p. prefix_contains p peer) (tp_prefixes t) then (True, t)
         else if tp_names t = [] then (False, t)
         else let stale = (case tp_at t of None \<Rightarrow> True | Some a \<Rightarrow> now - a > seconds 30);
                  t1 = (if stale then t\<lparr>tp_resolved := resolve_names lookup (tp_names t), tp_at := Some now\<rparr> else t)
              in (peer \<in> set (tp_resolved t1), t1))"

text \<open>\<^verbatim>\<open>Addr.String\<close> of an address that is not an IPv4-mapped one.\<close>

definition addr_string :: "addr \<Rightarrow> string" where
  "addr_string a = (case a of Addr4 b \<Rightarrow> v4_string b
     | Addr6 b z \<Rightarrow> v6_string b @ (if z = [] then [] else CHR ''%'' # z))"

section \<open>Requests, answers and the gateway\<close>

text \<open>
  What a handler reads of a request: the connection's address, the host asked for and whether the
  connection is encrypted, the forwarding headers, and the two places a worker names itself in.
\<close>

record agent_request =
  ar_remote :: string
  ar_host :: string
  ar_tls :: bool
  ar_forwarded_for :: "string list"
  ar_forwarded_proto :: string
  ar_worker :: string
  ar_credential :: string
  ar_query_worker :: string
  ar_query_credential :: string

datatype 'a reply = Refused nat string | Accepted 'a

datatype fetched = BadURL | NoAnswer string | Answered nat string string

record gateway_env =
  ge_uuid :: "string \<Rightarrow> uuid option"
  ge_idkey :: idkey
  ge_sha :: "string \<Rightarrow> string"
  ge_lookup :: "string \<Rightarrow> byte list list option"
  ge_presign_get :: "string \<Rightarrow> string result"
  ge_presign_put :: "string \<Rightarrow> string result"
  ge_fetch :: "string \<Rightarrow> fetched"
  ge_apex :: "string \<Rightarrow> string"

record gateway_config =
  gc_trusted_proxies :: string
  gc_lease_ttl :: int
  gc_brute_per_worker :: int
  gc_tasks_per_company :: int
  gc_public_url :: string
  gc_bootstrap_token :: string

text \<open>
  The gateway's own memory: a connection is a number, and the scopes the ingestor caches are kept
  here, with it.
\<close>

record gateway =
  gw_cfg :: gateway_config
  gw_proxies :: trusted_proxies
  gw_disp :: dispatcher
  gw_scopes :: scope_cache
  gw_conns :: "(uuid \<times> nat) list"
  gw_params :: "(uuid \<times> params) list"
  gw_last_beat :: "(uuid \<times> instant) list"
  gw_lost :: "(uuid \<times> uuid) list"

definition NewGateway :: "gateway_config \<Rightarrow> gateway" where
  "NewGateway cfg = \<lparr>gw_cfg = cfg, gw_proxies = parseTrustedProxies (gc_trusted_proxies cfg),
     gw_disp = WithCompanyCap (gc_tasks_per_company cfg) (WithBruteCap (gc_brute_per_worker cfg) (NewDispatcher (gc_lease_ttl cfg))),
     gw_scopes = [], gw_conns = [], gw_params = [], gw_last_beat = [], gw_lost = []\<rparr>"

definition proxies_clientIP ::
  "(string \<Rightarrow> byte list list option) \<Rightarrow> instant \<Rightarrow> agent_request \<Rightarrow> trusted_proxies \<Rightarrow> string \<times> trusted_proxies" where
  "proxies_clientIP lookup now r t =
     (let host = (case net_split_host (ar_remote r) of Some h \<Rightarrow> h | None \<Rightarrow> ar_remote r)
      in case ParseAddr host of
           None \<Rightarrow> (host, t)
         | Some peer \<Rightarrow> (case trusts lookup now peer t of
             (False, t1) \<Rightarrow> (host, t1)
           | (True, t1) \<Rightarrow>
               (if ar_forwarded_for r = [] then (host, t1)
                else case ParseAddr (TrimSpace (last (split_on CHR '','' (last (ar_forwarded_for r))))) of
                       None \<Rightarrow> (host, t1)
                     | Some a \<Rightarrow> (addr_string (Unmap a), t1))))"

definition observedIP :: "gateway_env \<Rightarrow> instant \<Rightarrow> agent_request \<Rightarrow> gateway \<Rightarrow> string \<times> gateway" where
  "observedIP v now r g = (case proxies_clientIP (ge_lookup v) now r (gw_proxies g) of
     (ip, t) \<Rightarrow> (ip, g\<lparr>gw_proxies := t\<rparr>))"

definition isPrivateAddr :: "string \<Rightarrow> bool" where
  "isPrivateAddr s = (case ParseAddr s of None \<Rightarrow> False
     | Some a \<Rightarrow> IsPrivate a \<or> IsLoopback a \<or> IsLinkLocalUnicast a)"

definition egressToRecord :: "string \<Rightarrow> string \<Rightarrow> string" where
  "egressToRecord kind src = (if kind \<noteq> ''local'' \<and> isPrivateAddr src then [] else src)"

fun firstNonEmpty :: "string list \<Rightarrow> string" where
  "firstNonEmpty [] = []"
| "firstNonEmpty (x # xs) = (if x \<noteq> [] then x else firstNonEmpty xs)"

definition workerSlots :: "int \<Rightarrow> int" where
  "workerSlots reported = (if reported \<le> 0 then 8 else if reported > 64 then 64 else reported)"

section \<open>Credentials\<close>

definition cred_key :: "idkey \<Rightarrow> string \<Rightarrow> string \<Rightarrow> string" where
  "cred_key idkey raw salt = idkey raw salt 1 (64 * 1024) 4 32"

definition hex_encode :: "string \<Rightarrow> string" where
  "hex_encode s = concat (map (\<lambda>c. [hex_digit (code c div 16), hex_digit (code c mod 16)]) s)"

text \<open>\<open>newCredential\<close> from 24 random bytes and a salt of 16.\<close>

definition newCredential :: "idkey \<Rightarrow> string \<Rightarrow> string \<Rightarrow> string \<times> string" where
  "newCredential idkey secret salt = (let raw = hex_encode secret in (raw, salt @ cred_key idkey raw salt))"

definition verifyCredential :: "idkey \<Rightarrow> string \<Rightarrow> string \<Rightarrow> bool" where
  "verifyCredential idkey raw stored \<longleftrightarrow> length stored = 16 + 32 \<and>
     drop 16 stored = cred_key idkey raw (take 16 stored)"

definition authWorker :: "gateway_env \<Rightarrow> agent_request \<Rightarrow> db \<Rightarrow> (uuid \<times> worker) option" where
  "authWorker v r d =
     (let both = ar_worker r \<noteq> [] \<and> ar_credential r \<noteq> [];
          wid = (if both then ar_worker r else firstNonEmpty [ar_worker r, ar_query_worker r]);
          cred = (if both then ar_credential r else firstNonEmpty [ar_credential r, ar_query_credential r])
      in case ge_uuid v wid of
           None \<Rightarrow> None
         | Some i \<Rightarrow> (case WorkerForAuth i d of
             None \<Rightarrow> None
           | Some (w, hash) \<Rightarrow> if verifyCredential (ge_idkey v) cred hash then Some (i, w) else None))"

section \<open>Enrolment\<close>

record enroll_request =
  er_token :: string
  er_name :: string
  er_hostname :: string
  er_capabilities :: "string list"
  er_max_concurrency :: int

definition SeedBootstrapToken :: "gateway_env \<Rightarrow> (instant \<Rightarrow> instant) \<Rightarrow> gateway \<Rightarrow> db \<Rightarrow> db" where
  "SeedBootstrapToken v in_ten_years g d =
     (if gc_bootstrap_token (gw_cfg g) = [] then d
      else EnsureBootstrapToken in_ten_years (ge_sha v (gc_bootstrap_token (gw_cfg g))) (PoolByName ''local'' d) d)"

text \<open>
  The row \<open>enroll\<close> makes from what the token grants, the request and the address it came from. A token
  for local workers counts only from a private address.
\<close>

definition enrolled_worker :: "enrollment \<Rightarrow> enroll_request \<Rightarrow> string \<Rightarrow> string \<Rightarrow> instant \<Rightarrow> worker" where
  "enrolled_worker tok req srcIP hash now =
     (let kind0 = (if en_kind tok = [] then ''vps'' else en_kind tok);
          isLocal = (kind0 = ''local'');
          trustedLocal = (isLocal \<and> isPrivateAddr srcIP)
      in \<lparr>w_id = uuid_Nil, w_pool = en_pool tok, w_name = firstNonEmpty [er_name req, er_hostname req, ''worker''],
          w_kind = (if isLocal \<and> \<not> trustedLocal then ''vps'' else kind0),
          w_status = (if trustedLocal \<or> en_preapproved tok then WorkerActive else WorkerPending),
          w_capabilities = er_capabilities req, w_max_concurrency = workerSlots (er_max_concurrency req),
          w_running_tasks = 0, w_last_seen = now,
          w_egress = (case en_egress_hint tok of Some h \<Rightarrow> Some h | None \<Rightarrow> if srcIP \<noteq> [] then Some srcIP else None),
          w_cred = hash\<rparr>)"

text \<open>
  \<open>enroll\<close>, given the random bytes of the credential it makes: the worker's identifier and its
  credential, which is shown once.
\<close>

definition enroll ::
  "gateway_env \<Rightarrow> string \<Rightarrow> string \<Rightarrow> agent_request \<Rightarrow> enroll_request option \<Rightarrow> gateway \<Rightarrow> db \<Rightarrow> (uuid \<times> string) reply \<times> gateway \<times> db" where
  "enroll v secret salt r body g d = (case body of
     None \<Rightarrow> (Refused 400 ''bad request'', g, d)
   | Some req \<Rightarrow> (case RedeemEnrollment (ge_sha v (er_token req)) d of
       (None, d1) \<Rightarrow> (Refused 401 ''invalid or expired token'', g, d1)
     | (Some tok, d1) \<Rightarrow>
         (let cred = newCredential (ge_idkey v) secret salt;
              src = observedIP v (db_now d) r g;
              w = enrolled_worker tok req (fst src) (snd cred) (db_now d);
              made = CreateWorker w (snd cred) (w_status w) (snd (PruneReplacedWorker (w_name w) (w_kind w) d1))
          in (case fst made of Inl e \<Rightarrow> Refused 500 ''enroll failed'' | Inr i \<Rightarrow> Accepted (i, fst cred),
              snd src, snd made))))"

section \<open>Wordlists\<close>

definition workerBase :: "gateway \<Rightarrow> agent_request \<Rightarrow> string" where
  "workerBase g r =
     (if ar_host r = [] then gc_public_url (gw_cfg g)
      else (if ar_tls r then ''https''
            else if ar_forwarded_proto r \<in> {''https'', ''http''} then ar_forwarded_proto r else ''http'')
        @ ''://'' @ ar_host r)"

definition listURL :: "gateway_env \<Rightarrow> wordlist \<Rightarrow> string \<Rightarrow> string result" where
  "listURL v wl base = (case wl_sha256 wl of
     Some sha \<Rightarrow> if sha \<noteq> [] \<and> base \<noteq> [] then Inr (base @ ''/agent/v1/wordlists/'' @ sha) else ge_presign_get v (wl_object_key wl)
   | None \<Rightarrow> ge_presign_get v (wl_object_key wl))"

record list_entry =
  le_name :: string
  le_kind :: string
  le_sha :: string
  le_size :: int
  le_url :: string

definition list_entries :: "gateway_env \<Rightarrow> string \<Rightarrow> wordlist \<Rightarrow> list_entry list" where
  "list_entries v base wl = (case wl_sha256 wl of
     None \<Rightarrow> []
   | Some sha \<Rightarrow> if wl_status wl \<noteq> ''ready'' \<or> sha = [] then []
       else (case listURL v wl base of
               Inl e \<Rightarrow> []
             | Inr u \<Rightarrow> [\<lparr>le_name = wl_name wl, le_kind = wl_kind wl, le_sha = sha, le_size = wl_size wl, le_url = u\<rparr>]))"

definition listWordlists :: "gateway_env \<Rightarrow> agent_request \<Rightarrow> gateway \<Rightarrow> db \<Rightarrow> list_entry list reply" where
  "listWordlists v r g d = (case authWorker v r d of
     None \<Rightarrow> Refused 401 ''unauthorized''
   | Some _ \<Rightarrow> Accepted (concat (map (list_entries v (workerBase g r)) (ListWordlists [] d))))"

text \<open>The name, the length when it is known, and the content.\<close>

definition serveWordlist ::
  "gateway_env \<Rightarrow> agent_request \<Rightarrow> string \<Rightarrow> db \<Rightarrow> (string \<times> int option \<times> string) reply" where
  "serveWordlist v r sha d = (case authWorker v r d of
     None \<Rightarrow> Refused 401 ''unauthorized''
   | Some _ \<Rightarrow>
       (if length sha \<noteq> 64 then Refused 400 ''bad hash''
        else case WordlistBySHA sha d of
               None \<Rightarrow> Refused 404 ''no ready wordlist with that hash''
             | Some wl \<Rightarrow> (case ge_presign_get v (wl_object_key wl) of
                 Inl e \<Rightarrow> Refused 502 ''storage unavailable''
               | Inr u \<Rightarrow> (case ge_fetch v u of
                   BadURL \<Rightarrow> Refused 502 ''storage unavailable''
                 | NoAnswer e \<Rightarrow> Refused 502 (''storage unavailable: '' @ e)
                 | Answered st status content \<Rightarrow>
                     (if st \<noteq> 200 then Refused 502 (''storage answered '' @ status)
                      else Accepted (wl_name wl, if wl_size wl > 0 then Some (wl_size wl) else None, content))))))"

section \<open>Jobs on their way out\<close>

text \<open>A job as it is sent: where its results go, the run's parameters and the lists to fetch.\<close>

record sent_job =
  sj_job :: job
  sj_ingest :: string
  sj_tool :: "params option"
  sj_wordlist :: "string \<times> string \<times> string"
  sj_resolvers :: "string \<times> string \<times> string"

definition list_ref :: "wordlist \<Rightarrow> string \<Rightarrow> string \<times> string \<times> string" where
  "list_ref wl url = (url, wl_name wl, case wl_sha256 wl of Some s \<Rightarrow> s | None \<Rightarrow> [])"

definition attachDirWordlist :: "gateway_env \<Rightarrow> string \<Rightarrow> db \<Rightarrow> sent_job \<Rightarrow> sent_job" where
  "attachDirWordlist v base d sj = (case RunWordlistsByKind (j_run_id (sj_job sj)) ''dir'' d of
     [] \<Rightarrow> sj
   | wl # _ \<Rightarrow> (case listURL v wl base of Inl e \<Rightarrow> sj | Inr url \<Rightarrow> sj\<lparr>sj_wordlist := list_ref wl url\<rparr>))"

definition attach_resolvers :: "gateway_env \<Rightarrow> string \<Rightarrow> db \<Rightarrow> sent_job \<Rightarrow> sent_job" where
  "attach_resolvers v base d sj = (case RunWordlistsByKind (j_run_id (sj_job sj)) ''resolvers'' d of
     [] \<Rightarrow> sj
   | rl # _ \<Rightarrow> (case listURL v rl base of Inl e \<Rightarrow> sj | Inr url \<Rightarrow> sj\<lparr>sj_resolvers := list_ref rl url\<rparr>))"

definition attachWordlist :: "gateway_env \<Rightarrow> string \<Rightarrow> db \<Rightarrow> sent_job \<Rightarrow> sent_job" where
  "attachWordlist v base d sj =
     (if j_stage (sj_job sj) = StageDirBrute then attachDirWordlist v base d sj
      else if j_stage (sj_job sj) \<noteq> StageDNSBrute then sj
      else case j_targets (sj_job sj) of
             [] \<Rightarrow> sj
           | tgt # _ \<Rightarrow>
               (if tg_wordlist tgt = [] then sj
                else case Option.bind (ge_uuid v (tg_wordlist tgt)) (\<lambda>i. GetWordlist i d) of
                       None \<Rightarrow> sj
                     | Some wl \<Rightarrow>
                         (if wl_status wl \<noteq> ''ready'' then sj
                          else case listURL v wl base of
                                 Inl e \<Rightarrow> sj
                               | Inr url \<Rightarrow> attach_resolvers v base d (sj\<lparr>sj_wordlist := list_ref wl url\<rparr>))))"

definition paramsForRun :: "uuid \<Rightarrow> db \<Rightarrow> gateway \<Rightarrow> params option \<times> gateway" where
  "paramsForRun rid d g = (case map_of (gw_params g) rid of
     Some p \<Rightarrow> (Some p, g)
   | None \<Rightarrow> (case GetRunParams rid d of
       None \<Rightarrow> (None, g)
     | Some p \<Rightarrow> (Some p, g\<lparr>gw_params := (rid, p) # gw_params g\<rparr>)))"

section \<open>The control channel\<close>

definition Connected :: "gateway \<Rightarrow> nat" where
  "Connected g = length (gw_conns g)"

definition register :: "uuid \<Rightarrow> nat \<Rightarrow> gateway \<Rightarrow> db \<Rightarrow> gateway \<times> db" where
  "register i conn g d = (g\<lparr>gw_conns := (i, conn) # filter (\<lambda>e. fst e \<noteq> i) (gw_conns g)\<rparr>, ReviveWorker i d)"

definition unregister :: "uuid \<Rightarrow> gateway \<Rightarrow> db \<Rightarrow> gateway \<times> db" where
  "unregister i g d = (g\<lparr>gw_conns := filter (\<lambda>e. fst e \<noteq> i) (gw_conns g)\<rparr>, MarkWorkerDisconnected i d)"

datatype worker_state = workerOK | workerMissing | workerUnknown

definition reloadWorker :: "uuid \<Rightarrow> db \<Rightarrow> worker option \<times> worker_state" where
  "reloadWorker i d = (case WorkerForAuth i d of Some (w, _) \<Rightarrow> (Some w, workerOK) | None \<Rightarrow> (None, workerMissing))"

text \<open>\<open>connect\<close> up to its loop, given the connection the upgrade made or none: the worker and the base URL.\<close>

definition connect ::
  "gateway_env \<Rightarrow> agent_request \<Rightarrow> nat option \<Rightarrow> gateway \<Rightarrow> db \<Rightarrow> (uuid \<times> string) reply \<times> gateway \<times> db" where
  "connect v r upgraded g d = (case authWorker v r d of
     None \<Rightarrow> (Refused 401 ''unauthorized'', g, d)
   | Some (i, w) \<Rightarrow>
       (if w_status w \<in> {WorkerRevoked, WorkerQuarantined} then (Refused 403 ''worker not permitted'', g, d)
        else case upgraded of
               None \<Rightarrow> (Refused 400 [], g, d)
             | Some conn \<Rightarrow>
                 (let (g1, d1) = register i conn g d;
                      (src, g2) = observedIP v (db_now d) r g1
                  in (Accepted (i, workerBase g r), g2, snd (TouchWorker i (egressToRecord (w_kind w) src) d1)))))"

text \<open>
  The jobs of one turn are written one by one; \<open>written\<close> says which writes succeed. The loop ends
  at the first that does not.
\<close>

fun push_jobs ::
  "gateway_env \<Rightarrow> string \<Rightarrow> (sent_job \<Rightarrow> bool) \<Rightarrow> job list \<Rightarrow> gateway \<Rightarrow> db \<Rightarrow> bool \<times> sent_job list \<times> gateway" where
  "push_jobs v base written [] g d = (True, [], g)"
| "push_jobs v base written (j # js) g d =
     (let pg = paramsForRun (j_run_id j) d g;
          sj = attachWordlist v base d \<lparr>sj_job = j, sj_ingest = base @ ''/agent/v1/results'', sj_tool = fst pg,
                 sj_wordlist = ([], [], []), sj_resolvers = ([], [], [])\<rparr>
      in if \<not> written sj then (False, [], snd pg)
         else let rest = push_jobs v base written js (snd pg) d
              in (fst rest, sj # fst (snd rest), snd (snd rest)))"

datatype turn = Closed string | Held | Pushed "sent_job list"

text \<open>One tick of the dispatch loop of \<open>connect\<close>.\<close>

definition connect_tick ::
  "gateway_env \<Rightarrow> uuid \<Rightarrow> string \<Rightarrow> (sent_job \<Rightarrow> bool) \<Rightarrow> gateway \<Rightarrow> db \<Rightarrow> turn \<times> gateway \<times> db" where
  "connect_tick v i base written g d = (case reloadWorker i d of
     (Some cur, workerOK) \<Rightarrow>
       (if w_status cur \<noteq> WorkerActive \<or> w_max_concurrency cur - w_running_tasks cur \<le> 0 then (Held, g, d)
        else case Lease (gw_disp g) i (w_capabilities cur) (w_pool cur) (w_max_concurrency cur - w_running_tasks cur) d of
               (_, Some e, d1) \<Rightarrow> (Held, g, d1)
             | (jobs, None, d1) \<Rightarrow>
                 (if jobs = [] then (Held, g, d1)
                  else case push_jobs v base written jobs g d1 of
                         (False, sent, g1) \<Rightarrow> (Closed [], g1, d1)
                       | (True, sent, g1) \<Rightarrow> (Pushed sent, g1, snd (TouchWorker i [] d1))))
   | (_, workerMissing) \<Rightarrow> (Closed ''unknown to the control plane; re-enrol'', g, d)
   | _ \<Rightarrow> (Held, g, d))"

section \<open>Heartbeats\<close>

record heartbeat =
  hb_stopping :: bool
  hb_max_concurrency :: int
  hb_leases :: "(string \<times> string) list"
  hb_running :: "string list"

definition beat :: "instant \<Rightarrow> uuid \<Rightarrow> gateway \<Rightarrow> int \<times> gateway" where
  "beat now i g = ((case map_of (gw_last_beat g) i of None \<Rightarrow> 0 | Some t \<Rightarrow> now - t),
     g\<lparr>gw_last_beat := (i, now) # filter (\<lambda>e. fst e \<noteq> i) (gw_last_beat g)\<rparr>)"

definition noteLostLease :: "uuid \<Rightarrow> uuid \<Rightarrow> gateway \<Rightarrow> bool \<times> gateway" where
  "noteLostLease i tid g = (if (i, tid) \<in> set (gw_lost g) then (False, g) else (True, g\<lparr>gw_lost := (i, tid) # gw_lost g\<rparr>))"

text \<open>One lease a heartbeat names: extended, handed back, or noted as lost.\<close>

definition keep_lease :: "gateway_env \<Rightarrow> uuid \<Rightarrow> string \<times> string \<Rightarrow> gateway \<Rightarrow> db \<Rightarrow> gateway \<times> db" where
  "keep_lease v i h g d = (case ge_uuid v (fst h) of
     None \<Rightarrow> (g, d)
   | Some tid \<Rightarrow> (case ExtendLeaseForWorker tid i (gc_lease_ttl (gw_cfg g)) d of
       (True, d1) \<Rightarrow> (g, d1)
     | (False, d1) \<Rightarrow> (case ge_uuid v (snd h) of
         None \<Rightarrow> (snd (noteLostLease i tid g), d1)
       | Some tok \<Rightarrow> (case ReadoptTask tid i tok (gc_lease_ttl (gw_cfg g)) d1 of
           (Inr True, d2) \<Rightarrow> (g, d2)
         | (_, d2) \<Rightarrow> (snd (noteLostLease i tid g), d2)))))"

fun keep_leases :: "gateway_env \<Rightarrow> uuid \<Rightarrow> (string \<times> string) list \<Rightarrow> gateway \<Rightarrow> db \<Rightarrow> gateway \<times> db" where
  "keep_leases v i [] g d = (g, d)"
| "keep_leases v i (h # hs) g d = (let gd = keep_lease v i h g d in keep_leases v i hs (fst gd) (snd gd))"

definition held_leases :: "heartbeat \<Rightarrow> (string \<times> string) list" where
  "held_leases hb = (if hb_leases hb = [] then map (\<lambda>tid. (tid, [])) (hb_running hb) else hb_leases hb)"

text \<open>One turn of \<open>readLoop\<close> on a message that was read: whether the loop goes on.\<close>

definition read_heartbeat :: "gateway_env \<Rightarrow> uuid \<Rightarrow> heartbeat \<Rightarrow> gateway \<Rightarrow> db \<Rightarrow> bool \<times> gateway \<times> db" where
  "read_heartbeat v i hb g d =
     (if hb_stopping hb then (False, g, MarkWorkerDisconnected i (snd (ReleaseWorkerLeases i d)))
      else let g1 = snd (beat (db_now d) i g);
               d1 = snd (TouchWorker i [] d);
               d2 = (if hb_max_concurrency hb > 0 then snd (SetWorkerConcurrency i (workerSlots (hb_max_concurrency hb)) d1) else d1)
           in (True, keep_leases v i (held_leases hb) g1 d2))"

text \<open>\<open>readLoop\<close> on the messages and the times they arrive at, until reading fails.\<close>

fun readLoop :: "gateway_env \<Rightarrow> uuid \<Rightarrow> (instant \<times> heartbeat) list \<Rightarrow> gateway \<Rightarrow> db \<Rightarrow> gateway \<times> db" where
  "readLoop v i [] g d = (g\<lparr>gw_last_beat := filter (\<lambda>e. fst e \<noteq> i) (gw_last_beat g)\<rparr>, d)"
| "readLoop v i ((now, hb) # ms) g d =
     (let r = read_heartbeat v i hb g (d\<lparr>db_now := now\<rparr>)
      in if fst r then readLoop v i ms (fst (snd r)) (snd (snd r)) else snd r)"

section \<open>Results\<close>

definition confined_type :: "obs_type \<Rightarrow> bool" where
  "confined_type ty \<longleftrightarrow> ty \<in> {ObsService, ObsHTTP, ObsTLS, ObsTech, ObsScreenshot, ObsPath}"

text \<open>\<open>confineViolation\<close>: the reason of the first violation, if there is one.\<close>

fun confineViolation :: "job_target \<Rightarrow> observation list \<Rightarrow> string option" where
  "confineViolation tgt [] = None"
| "confineViolation tgt (ob # obs) =
     (if tg_ip tgt = [] then None
      else if confined_type (o_type ob) \<and> o_ip ob \<noteq> [] \<and> o_ip ob \<noteq> tg_ip tgt
      then Some (''observation IP '' @ o_ip ob @ '' outside assigned target '' @ tg_ip tgt)
      else confineViolation tgt obs)"

definition loadTask :: "uuid \<Rightarrow> uuid \<Rightarrow> uuid \<Rightarrow> db \<Rightarrow> task option" where
  "loadTask tid i tok d =
     find (\<lambda>t. t_id t = tid \<and> t_worker t = Some i \<and> t_token t = Some tok \<and> in_flight t) (db_tasks d)"

fun merge_new :: "('a \<Rightarrow> 'k) \<Rightarrow> 'k list \<Rightarrow> 'a list \<Rightarrow> 'a list \<Rightarrow> 'a list" where
  "merge_new key seen a [] = a"
| "merge_new key seen a (x # b) =
     (if key x \<in> set seen then merge_new key seen a b else merge_new key (key x # seen) (a @ [x]) b)"

definition mergeStrings :: "string list \<Rightarrow> string list \<Rightarrow> string list" where
  "mergeStrings a b = (if b = [] then a else merge_new id a a b)"

definition merge_services :: "ip_port list \<Rightarrow> ip_port list \<Rightarrow> ip_port list" where
  "merge_services a b = (let key = (\<lambda>(ip, port). ip @ '':'' @ Itoa port) in merge_new key (map key a) a b)"

definition add_sources :: "(string \<rightharpoonup> int) \<Rightarrow> (string \<rightharpoonup> int) \<Rightarrow> (string \<rightharpoonup> int)" where
  "add_sources cur add = (\<lambda>src. case add src of
     None \<Rightarrow> cur src
   | Some n \<Rightarrow> Some ((case cur src of None \<Rightarrow> 0 | Some m \<Rightarrow> m) + n))"

definition mergeTaskSummary :: "uuid \<Rightarrow> stage_summary \<Rightarrow> db \<Rightarrow> stage_summary \<times> db" where
  "mergeTaskSummary tid add d =
     (let cur = decode (TaskResult tid d);
          out = \<lparr>sm_domains = mergeStrings (sm_domains cur) (sm_domains add), sm_ips = mergeStrings (sm_ips cur) (sm_ips add),
                 sm_services = merge_services (sm_services cur) (sm_services add),
                 sm_urls = mergeStrings (sm_urls cur) (sm_urls add),
                 sm_sources = add_sources (sm_sources cur) (sm_sources add)\<rparr>
      in (out, SetTaskResult tid out d))"

record result_body =
  rb_task :: string
  rb_lease :: string
  rb_observations :: "observation list"
  rb_final :: bool
  rb_status :: string
  rb_errors :: "string list"
  rb_permanent :: bool

text \<open>The lease a delivery is made under: the task held, or the task handed back.\<close>

definition claim_task :: "uuid \<Rightarrow> uuid \<Rightarrow> uuid \<Rightarrow> int \<Rightarrow> db \<Rightarrow> task option \<times> db" where
  "claim_task tid i tok ttl d = (case loadTask tid i tok d of
     Some t \<Rightarrow> (Some t, d)
   | None \<Rightarrow> (case ReadoptTask tid i tok ttl d of
       (Inr True, d1) \<Rightarrow> (loadTask tid i tok d1, d1)
     | (_, d1) \<Rightarrow> (None, d1)))"

text \<open>What a batch does to the task after it was stored: fail it, complete it, or keep the lease.\<close>

definition close_task :: "gateway \<Rightarrow> result_body \<Rightarrow> uuid \<Rightarrow> uuid \<Rightarrow> stage_summary \<Rightarrow> db \<Rightarrow> db" where
  "close_task g res tid tok merged d =
     (if rb_final res \<and> rb_status res = ''error''
      then let msg = (let m = str_join ''; '' (rb_errors res) in if m = [] then ''worker reported an error with no detail'' else m)
           in if rb_permanent res then FailForGood tid tok msg d else Fail tid tok msg d
      else if rb_final res then Complete tid tok (Some merged) d
      else Heartbeat (gw_disp g) tid tok d)"

definition results ::
  "gateway_env \<Rightarrow> instant \<Rightarrow> agent_request \<Rightarrow> result_body option \<Rightarrow> gateway \<Rightarrow> db \<Rightarrow> nat reply \<times> gateway \<times> db" where
  "results v now r body g d = (case authWorker v r d of
     None \<Rightarrow> (Refused 401 ''unauthorized'', g, d)
   | Some (i, _) \<Rightarrow> (case body of
       None \<Rightarrow> (Refused 400 ''bad body'', g, d)
     | Some res \<Rightarrow> (case ge_uuid v (rb_task res) of
         None \<Rightarrow> (Refused 400 ''bad task id'', g, d)
       | Some tid \<Rightarrow> (case ge_uuid v (rb_lease res) of
           None \<Rightarrow> (Refused 400 ''bad lease token'', g, d)
         | Some tok \<Rightarrow> (case claim_task tid i tok (gc_lease_ttl (gw_cfg g)) d of
             (None, d1) \<Rightarrow> (Refused 409 ''stale or invalid lease'', g, d1)
           | (Some t, d1) \<Rightarrow> (case confineViolation (t_target t) (rb_observations res) of
               Some why \<Rightarrow> (Refused 403 ''confinement violation'', g, SetWorkerStatus i WorkerQuarantined d1)
             | None \<Rightarrow> (case Process (ge_apex v) (t_run t) (Some i) now (rb_observations res) (gw_scopes g) d1 of
                 ((Some e, _, d2), m) \<Rightarrow> (Refused 500 ''ingest error'', g\<lparr>gw_scopes := m\<rparr>, d2)
               | ((None, sm, d2), m) \<Rightarrow>
                   (let md = mergeTaskSummary tid sm d2
                    in (Accepted (length (rb_observations res)), g\<lparr>gw_scopes := m\<rparr>,
                        close_task g res tid tok (fst md) (snd md))))))))))"

section \<open>Artifacts\<close>

definition presign :: "gateway_env \<Rightarrow> agent_request \<Rightarrow> string option \<Rightarrow> db \<Rightarrow> (string \<times> string) reply" where
  "presign v r body d = (case authWorker v r d of
     None \<Rightarrow> Refused 401 ''unauthorized''
   | Some _ \<Rightarrow> (case body of
       None \<Rightarrow> Refused 400 ''key required''
     | Some key \<Rightarrow> (if key = [] then Refused 400 ''key required''
         else case ge_presign_put v key of
                Inl e \<Rightarrow> Refused 500 ''presign failed''
              | Inr url \<Rightarrow> Accepted (url, key))))"

end
