(* ===== verification/GatewayProps.thy ===== *)
theory GatewayProps
  imports Gateway TaskLife
begin

text \<open>
  What the gateway guarantees of deliveries: results are stored only for the holder of the lease,
  within what the task was given, and a worker can cut them into batches anywhere without changing the
  summary of the task.
\<close>

section \<open>Merging summaries\<close>

lemma merge_new_append_new:
  "inj key \<Longrightarrow> set seen = key ` set a \<Longrightarrow> merge_new key seen a b = append_new a b"
  by (induction b arbitrary: seen a) (auto simp: inj_image_mem_iff)

interpretation string_merge: seen_merge mergeStrings
  by unfold_locales (simp add: mergeStrings_def merge_new_append_new)

interpretation service_merge: seen_merge merge_services
proof
  fix a b :: "ip_port list"
  have key: "(\<lambda>(ip, port). ip @ '':'' @ Itoa port) = service_key" by (auto simp: service_key_def fun_eq_iff)
  have "inj service_key" by (auto simp: inj_def service_key_inj)
  then show "merge_services a b = append_new a b"
    unfolding merge_services_def key Let_def by (simp add: merge_new_append_new)
qed

lemma append_new_twice: "append_new a (append_new [] b) = append_new a b"
proof (induction b rule: rev_induct)
  case (snoc x b)
  have "append_new u (v @ [x]) = append_new (append_new u v) [x]" for u v by (rule append_new_append [symmetric])
  with snoc show ?case by (auto simp: append_new_absorb)
qed simp

definition lists_of :: "stage_summary \<Rightarrow> string list \<times> string list \<times> ip_port list \<times> string list" where
  "lists_of sm = (sm_domains sm, sm_ips sm, sm_services sm, sm_urls sm)"

definition noted :: "observation list \<Rightarrow> string list \<times> string list \<times> ip_port list \<times> string list" where
  "noted obs = (append_new [] (concat (map noted_domain obs)), append_new [] (concat (map noted_ip obs)),
     append_new [] (concat (map noted_service obs)), append_new [] (concat (map noted_url obs)))"

lemma mergeTaskSummary_noted:
  assumes "lists_of (decode (TaskResult tid d)) = noted seen" and "lists_of add = noted obs"
  shows "lists_of (fst (mergeTaskSummary tid add d)) = noted (seen @ obs)"
  using assms
  by (simp add: lists_of_def noted_def mergeTaskSummary_def Let_def string_merge.merge_ref service_merge.merge_ref
      append_new_twice append_new_append)

lemma Process_noted:
  "Process apex run w now obs m d = ((None, sm, d'), m') \<Longrightarrow> lists_of sm = noted obs"
  using Process_lists by (simp add: lists_of_def noted_def)

section \<open>The stored summary\<close>

lemma Process_tasks: "Process apex run w now obs m d = ((e, sm, d'), m') \<Longrightarrow> outside d' = outside d"
  using Process_step by (fastforce simp: asset_step_def)

lemma outside_eq:
  "outside d' = outside d \<Longrightarrow> db_tasks d' = db_tasks d \<and> db_targets d' = db_targets d \<and> db_origins d' = db_origins d \<and>
     db_uuid d' = db_uuid d \<and> db_workers d' = db_workers d"
  by (cases d; cases d') (simp add: outside_def)

lemma find_update_where:
  "(\<And>t. key (f t) = key t) \<Longrightarrow>
   find (\<lambda>t. key t = k) (update_where p f ts) = map_option (\<lambda>t. if p t then f t else t) (find (\<lambda>t. key t = k) ts)"
  by (induction ts) (auto simp: update_where_def)

lemma TaskResult_set_tasks:
  "(\<And>t. t_id (f t) = t_id t) \<Longrightarrow> (\<And>t. t_result (f t) = t_result t) \<Longrightarrow> TaskResult tid (set_tasks p f d) = TaskResult tid d"
  by (auto simp: TaskResult_def task_of_def set_tasks_def find_update_where split: option.split)

lemma find_holds: "find P xs = Some x \<Longrightarrow> P x \<and> x \<in> set xs"
  by (auto simp: find_Some_iff)

lemma TaskResult_SetTaskResult:
  assumes "task_of d tid \<noteq> None"
  shows "TaskResult tid (SetTaskResult tid sm d) = Some sm"
proof -
  obtain t where f: "find (\<lambda>t. t_id t = tid) (db_tasks d) = Some t" using assms by (auto simp: task_of_def)
  then show ?thesis using find_holds [OF f]
    by (simp add: TaskResult_def SetTaskResult_def task_of_def set_tasks_def find_update_where)
qed

lemma results_Accepted:
  assumes "results v now r body g d = (Accepted n, g', d')"
  obtains i w res tid tok t d1 sm d2 m where "authWorker v r d = Some (i, w)" and "body = Some res"
    and "ge_uuid v (rb_task res) = Some tid" and "ge_uuid v (rb_lease res) = Some tok"
    and "claim_task tid i tok (gc_lease_ttl (gw_cfg g)) d = (Some t, d1)"
    and "confineViolation (t_target t) (rb_observations res) = None"
    and "Process (ge_apex v) (t_run t) (Some i) now (rb_observations res) (gw_scopes g) d1 = ((None, sm, d2), m)"
    and "d' = close_task g res tid tok (fst (mergeTaskSummary tid sm d2)) (snd (mergeTaskSummary tid sm d2))"
  using assms by (auto simp: results_def Let_def split: option.splits prod.splits)

lemma loadTask_Some:
  "loadTask tid i tok d = Some t \<Longrightarrow>
     t \<in> set (db_tasks d) \<and> t_id t = tid \<and> t_worker t = Some i \<and> t_token t = Some tok \<and> in_flight t"
  using find_holds by (fastforce simp: loadTask_def)

lemma claim_task_TaskResult: "TaskResult tid' (snd (claim_task tid i tok ttl d)) = TaskResult tid' d"
  by (auto simp: claim_task_def ReadoptTask_def readopt_row_def TaskResult_set_tasks split: option.splits sum.splits bool.splits)

lemma claim_task_here: "claim_task tid i tok ttl d = (Some t, d1) \<Longrightarrow> t \<in> set (db_tasks d1) \<and> t_id t = tid"
  by (auto simp: claim_task_def dest: loadTask_Some split: option.splits sum.splits bool.splits prod.splits)

lemma task_of_member: "t \<in> set (db_tasks d) \<Longrightarrow> task_of d (t_id t) \<noteq> None"
  by (auto simp: task_of_def find_None_iff)

lemma bump_done_tasks [simp]: "db_tasks (bump_done tid d) = db_tasks d"
  by (simp add: bump_done_def)

lemma close_task_TaskResult:
  assumes "TaskResult tid d = Some merged"
  shows "TaskResult tid (close_task g res tid tok merged d) = Some merged"
proof -
  have here: "task_of d tid \<noteq> None" using assms by (auto simp: TaskResult_def split: option.splits)
  have bump: "TaskResult tid (bump_done tid x) = TaskResult tid x" for x by (simp add: TaskResult_def task_of_def)
  show ?thesis
    using assms TaskResult_SetTaskResult [OF here]
    by (auto simp: close_task_def Let_def FailForGood_def FailTaskPermanently_def Fail_def FailTask_def Complete_def
        CompleteTask_def Heartbeat_def ExtendLease_def TaskResult_set_tasks fail_for_good_row_def fail_row_def done_row_def
        extend_row_def bump)
qed

lemma results_merge:
  assumes "results v now r (Some res) g d = (Accepted n, g', d')" and "ge_uuid v (rb_task res) = Some tid"
    and "lists_of (decode (TaskResult tid d)) = noted seen"
  shows "TaskResult tid d' \<noteq> None \<and> lists_of (decode (TaskResult tid d')) = noted (seen @ rb_observations res)"
proof (rule results_Accepted [OF assms(1)])
  fix i w res' tid' tok t d1 sm d2 m
  assume "Some res = Some res'" and "ge_uuid v (rb_task res') = Some tid'"
    and c: "claim_task tid' i tok (gc_lease_ttl (gw_cfg g)) d = (Some t, d1)"
    and p: "Process (ge_apex v) (t_run t) (Some i) now (rb_observations res') (gw_scopes g) d1 = ((None, sm, d2), m)"
    and d': "d' = close_task g res' tid' tok (fst (mergeTaskSummary tid' sm d2)) (snd (mergeTaskSummary tid' sm d2))"
  then have eqs: "res' = res" "tid' = tid" using assms(2) by simp_all
  let ?out = "fst (mergeTaskSummary tid sm d2)"
  have same: "db_tasks d2 = db_tasks d1" using outside_eq [OF Process_tasks [OF p]] by simp
  then have res2: "TaskResult tid d2 = TaskResult tid d"
    using claim_task_TaskResult [of tid tid i tok "gc_lease_ttl (gw_cfg g)" d] c eqs by (simp add: TaskResult_def task_of_def)
  have "task_of d2 tid \<noteq> None" using claim_task_here [OF c] task_of_member eqs same by fastforce
  then have "TaskResult tid (snd (mergeTaskSummary tid sm d2)) = Some ?out"
    by (simp add: mergeTaskSummary_def Let_def TaskResult_SetTaskResult)
  then have "TaskResult tid d' = Some ?out" using close_task_TaskResult eqs d' by simp
  moreover have "lists_of ?out = noted (seen @ rb_observations res)"
    by (rule mergeTaskSummary_noted) (use assms(3) Process_noted [OF p] eqs res2 in simp_all)
  ultimately show ?thesis by (simp add: decode_def)
qed

text \<open>A worker that posts one batch after the other, each at its time.\<close>

fun post_all ::
  "gateway_env \<Rightarrow> (instant \<times> agent_request \<times> result_body) list \<Rightarrow> gateway \<Rightarrow> db \<Rightarrow> nat reply list \<times> gateway \<times> db" where
  "post_all v [] g d = ([], g, d)"
| "post_all v ((now, r, res) # ps) g d =
     (let a = results v now r (Some res) g d; b = post_all v ps (fst (snd a)) (snd (snd a))
      in (fst a # fst b, snd b))"

definition posted :: "(instant \<times> agent_request \<times> result_body) list \<Rightarrow> observation list" where
  "posted ps = concat (map (\<lambda>p. rb_observations (snd (snd p))) ps)"

lemma post_all_merge:
  assumes "post_all v ps g d = (replies, g', d')" and "list_all (\<lambda>a. \<exists>n. a = Accepted n) replies"
    and "list_all (\<lambda>p. ge_uuid v (rb_task (snd (snd p))) = Some tid) ps"
    and "lists_of (decode (TaskResult tid d)) = noted seen"
  shows "lists_of (decode (TaskResult tid d')) = noted (seen @ posted ps)"
  using assms
proof (induction ps arbitrary: g d seen replies)
  case Nil
  then show ?case by (simp add: posted_def)
next
  case (Cons p ps)
  obtain now r res where p: "p = (now, r, res)" by (cases p)
  obtain n g1 d1 where r1: "results v now r (Some res) g d = (Accepted n, g1, d1)"
    using Cons.prems(1,2) p by (auto simp: Let_def prod_eq_iff)
  have "lists_of (decode (TaskResult tid d1)) = noted (seen @ rb_observations res)"
    using results_merge [OF r1] Cons.prems(3,4) p by simp
  moreover have "post_all v ps g1 d1 = (tl replies, g', d')"
    using Cons.prems(1) p r1 by (auto simp: Let_def prod_eq_iff)
  ultimately have "lists_of (decode (TaskResult tid d')) = noted ((seen @ rb_observations res) @ posted ps)"
    using Cons.IH [of g1 d1 "tl replies" "seen @ rb_observations res"] Cons.prems(2,3)
    by (cases replies) simp_all
  then show ?case by (simp add: posted_def p)
qed

section \<open>Cutting a delivery into batches\<close>


definition toy_env :: gateway_env where
  "toy_env = \<lparr>ge_uuid = map_of [(''task'', 1000), (''lease'', 77), (''worker'', 3), (''other'', 4)],
     ge_idkey = (\<lambda>raw salt _ _ _ n. take n (raw @ replicate n CHR ''k'')), ge_sha = rev,
     ge_lookup = (\<lambda>_. None), ge_presign_get = Inr, ge_presign_put = Inr, ge_fetch = (\<lambda>_. BadURL), ge_apex = id\<rparr>"

definition toy_gateway :: gateway where
  "toy_gateway = NewGateway \<lparr>gc_trusted_proxies = ''10.0.0.1'', gc_lease_ttl = 60, gc_brute_per_worker = 1,
     gc_tasks_per_company = 0, gc_public_url = ''https://gw'', gc_bootstrap_token = []\<rparr>"

definition toy_request :: agent_request where
  "toy_request = \<lparr>ar_remote = ''203.0.113.9:4711'', ar_host = ''gw'', ar_tls = True, ar_forwarded_for = [''10.1.2.3''],
     ar_forwarded_proto = [], ar_worker = ''worker'', ar_credential = ''pw'', ar_query_worker = [], ar_query_credential = []\<rparr>"

definition toy_worker :: worker where
  "toy_worker = (sample_worker 3)\<lparr>w_cred := replicate 16 CHR ''s'' @ ''pw'' @ replicate 30 CHR ''k''\<rparr>"

definition delivery_db :: "task list \<Rightarrow> db" where
  "delivery_db ts = ingest_db\<lparr>db_tasks := ts, db_workers := [toy_worker], db_pools := [sample_pool 5 ''local''],
     db_now := 100, db_drawn := 1\<rparr>"

definition post :: "observation list \<Rightarrow> bool \<Rightarrow> result_body" where
  "post obs fin = \<lparr>rb_task = ''task'', rb_lease = ''lease'', rb_observations = obs, rb_final = fin, rb_status = ''ok'',
     rb_errors = [], rb_permanent = False\<rparr>"

definition three_posts :: "(instant \<times> agent_request \<times> result_body) list" where
  "three_posts = [(1, toy_request, post (take 2 batch) False), (2, toy_request, post batch False), (3, toy_request, post [] True)]"


section \<open>Who may deliver what\<close>

definition graph :: "db \<Rightarrow> domain_row list \<times> ip_row list \<times> domain_ip list \<times> assets" where
  "graph d = (db_domains d, db_ips d, db_domain_ips d, db_assets d)"

lemma graph_set_tasks [simp]: "graph (set_tasks p f d) = graph d"
  by (simp add: graph_def set_tasks_def)

lemma graph_claim_task: "graph (snd (claim_task tid i tok ttl d)) = graph d"
  by (auto simp: claim_task_def ReadoptTask_def split: option.splits sum.splits bool.splits)

lemma graph_SetWorkerStatus: "graph (SetWorkerStatus i st d) = graph d"
  by (simp add: graph_def SetWorkerStatus_def set_workers_def)

definition may_deliver :: "uuid \<Rightarrow> uuid \<Rightarrow> uuid \<Rightarrow> task \<Rightarrow> bool" where
  "may_deliver tid i tok t \<longleftrightarrow> t_id t = tid \<and>
     (t_worker t = Some i \<and> t_token t = Some tok \<and> in_flight t \<or> reaped tid t)"

lemma claim_task_origin:
  assumes "claim_task tid i tok ttl d = (Some t, d1)"
  obtains t0 where "t0 \<in> set (db_tasks d)" and "may_deliver tid i tok t0" and "t_target t0 = t_target t"
proof (cases "loadTask tid i tok d")
  case (Some u)
  then show ?thesis using assms that [of t] loadTask_Some [OF Some] by (auto simp: claim_task_def may_deliver_def)
next
  case None
  then have d1: "d1 = set_tasks (reaped tid) (readopt_row d i tok ttl) d" and l: "loadTask tid i tok d1 = Some t"
    using assms by (auto simp: claim_task_def ReadoptTask_def split: if_splits)
  have t: "t \<in> set (db_tasks d1)" "t_worker t = Some i \<and> t_token t = Some tok \<and> in_flight t \<and> t_id t = tid"
    using loadTask_Some [OF l] by simp_all
  then obtain u where u: "u \<in> set (db_tasks d)" and tu: "t = (if reaped tid u then readopt_row d i tok ttl u else u)"
    by (auto simp: d1 set_tasks_def set_update_where)
  show ?thesis
    by (rule that [OF u]) (use t(2) tu in \<open>auto simp: may_deliver_def readopt_row_def reaped_def split: if_splits\<close>)
qed

lemma confineViolation_None:
  "confineViolation tgt obs = None \<longleftrightarrow>
     (\<forall>ob \<in> set obs. tg_ip tgt \<noteq> [] \<longrightarrow> confined_type (o_type ob) \<longrightarrow> o_ip ob \<noteq> [] \<longrightarrow> o_ip ob = tg_ip tgt)"
  by (induction obs) auto

lemma results_writes:
  assumes "results v now r (Some res) g d = (reply, g', d')" and "(\<exists>n. reply = Accepted n) \<or> graph d' \<noteq> graph d"
  obtains i w tid tok t d1 where "authWorker v r d = Some (i, w)"
    and "ge_uuid v (rb_task res) = Some tid" and "ge_uuid v (rb_lease res) = Some tok"
    and "claim_task tid i tok (gc_lease_ttl (gw_cfg g)) d = (Some t, d1)"
    and "confineViolation (t_target t) (rb_observations res) = None"
proof -
  have g1: "graph d1 = graph d" if "claim_task tid i tok ttl d = (x, d1)" for tid i tok ttl x d1
    using graph_claim_task [of tid i tok ttl d] that by simp
  show ?thesis
    using assms that g1
    by (auto simp: results_def Let_def graph_SetWorkerStatus split: option.splits prod.splits)
qed


definition scan_task :: task where
  "scan_task = running_task\<lparr>t_stage := StagePortScan, t_target := no_target\<lparr>tg_ip := ''8.8.8.8''\<rparr>\<rparr>"


end
