(* ===== verification/GatewayLife.thy ===== *)
theory GatewayLife
  imports GatewayProps PlanLife
begin

text \<open>
  The gateway as a system: \<open>gateway_step\<close> is everything that can happen at it, and every such step is
  made of steps of the task queue. The enrolment of a worker, and what a tick of the dispatch loop
  hands out, are shown for one handler each.
\<close>

section \<open>Handlers and the queue\<close>

lemma same_queue_step: "same_queue d d' \<Longrightarrow> queue_step\<^sup>*\<^sup>* d d'"
  by (intro r_into_rtranclp queue_step.qs_other)

lemma set_workers_same: "same_queue d (set_workers p f d)"
  by (simp add: same_queue_def set_workers_def list.rel_refl)

lemma set_tokens_same: "same_queue d (set_tokens p f d)"
  by (simp add: same_queue_def set_tokens_def list.rel_refl)

lemma clock_same: "same_queue d (d\<lparr>db_now := now\<rparr>)"
  by (simp add: same_queue_def list.rel_refl)

lemma outside_same: "outside d' = outside d \<Longrightarrow> db_drawn d \<le> db_drawn d' \<Longrightarrow> same_queue d d'"
  using outside_eq [of d' d] by (simp add: same_queue_def list.rel_refl)

lemma TouchWorker_same: "same_queue d (snd (TouchWorker i e d))"
  using set_workers_same by (simp add: TouchWorker_def same_queue_refl)

lemma SetWorkerConcurrency_same: "same_queue d (snd (SetWorkerConcurrency i n d))"
  using set_workers_same by (simp add: SetWorkerConcurrency_def Let_def)

lemma RedeemEnrollment_same: "same_queue d (snd (RedeemEnrollment h d))"
  by (simp add: RedeemEnrollment_def same_queue_refl set_tokens_same split: option.split)

lemma CreateWorker_same: "same_queue d (snd (CreateWorker w h s d))"
  by (simp add: CreateWorker_def same_queue_def list.rel_refl drawn_def)

lemmas worker_same = set_workers_same TouchWorker_same SetWorkerConcurrency_same RedeemEnrollment_same CreateWorker_same
  clock_same same_queue_refl

text \<open>Deleting workers forgets them one after the other.\<close>

definition forget :: "uuid \<Rightarrow> db \<Rightarrow> db" where
  "forget w d = set_tasks (\<lambda>t. t_worker t = Some w) (\<lambda>t. t\<lparr>t_worker := None\<rparr>) d"

lemma forget_steps: "queue_step\<^sup>*\<^sup>* d (fold forget ws d)"
proof (induction ws arbitrary: d)
  case (Cons w ws)
  have "queue_step d (forget w d)" unfolding forget_def by (rule queue_step.qs_forget_worker)
  then show ?case using Cons by (simp add: converse_rtranclp_into_rtranclp)
qed simp

lemma forget_tasks:
  "db_tasks (fold forget ws d) =
     update_where (\<lambda>t. \<exists>w \<in> set ws. t_worker t = Some w) (\<lambda>t. t\<lparr>t_worker := None\<rparr>) (db_tasks d)"
  by (induction ws arbitrary: d) (auto simp: forget_def set_tasks_def update_where_def)

lemma forget_rest: "outside (fold forget ws d) = outside (d\<lparr>db_tasks := db_tasks (fold forget ws d)\<rparr>) \<and>
    db_drawn (fold forget ws d) = db_drawn d"
  by (induction ws arbitrary: d) (simp_all add: forget_def set_tasks_def outside_def)

lemma delete_workers_steps: "queue_step\<^sup>*\<^sup>* d (snd (delete_workers p d))"
proof -
  let ?f = "fold forget (map w_id (filter p (db_workers d))) d"
  have "db_tasks (snd (delete_workers p d)) = db_tasks ?f"
    by (simp add: delete_workers_def forget_tasks) (rule arg_cong2 [where f = "\<lambda>q. update_where q _"], auto)
  moreover have "outside ?f = outside (d\<lparr>db_tasks := db_tasks ?f\<rparr>)" "db_drawn ?f = db_drawn d" using forget_rest by blast+
  ultimately have "same_queue ?f (snd (delete_workers p d))"
    using outside_eq [of ?f "d\<lparr>db_tasks := db_tasks ?f\<rparr>"] by (simp add: same_queue_def delete_workers_def list.rel_refl)
  then show ?thesis using forget_steps queue_step.qs_other by (metis rtranclp.rtrancl_into_rtrancl)
qed

lemma PruneReplacedWorker_steps: "queue_step\<^sup>*\<^sup>* d (snd (PruneReplacedWorker n k d))"
  by (simp add: PruneReplacedWorker_def delete_workers_steps)

lemma enroll_steps: "queue_step\<^sup>*\<^sup>* d (snd (snd (enroll v secret salt r body g d)))"
proof (cases body)
  case (Some req)
  let ?red = "RedeemEnrollment (ge_sha v (er_token req)) d"
  have red: "queue_step\<^sup>*\<^sup>* d (snd ?red)" by (rule same_queue_step [OF RedeemEnrollment_same])
  have "queue_step\<^sup>*\<^sup>* d (snd (CreateWorker w h s (snd (PruneReplacedWorker n k (snd ?red)))))" for w h s n k
    by (meson red same_queue_step CreateWorker_same PruneReplacedWorker_steps rtranclp_trans)
  then show ?thesis using Some red
    by (cases ?red; cases "fst ?red") (simp_all add: enroll_def Let_def)
qed (simp add: enroll_def)

lemma connect_steps: "queue_step\<^sup>*\<^sup>* d (snd (snd (connect v r up g d)))"
proof -
  have "queue_step\<^sup>*\<^sup>* d (snd (TouchWorker i e (ReviveWorker i d)))" for i e
    unfolding ReviveWorker_def by (meson same_queue_step set_workers_same TouchWorker_same rtranclp_trans)
  then show ?thesis by (auto simp: connect_def register_def Let_def split: option.splits prod.splits)
qed

lemma Lease_steps: "queue_step\<^sup>*\<^sup>* d (snd (snd (Lease x w caps pool limit d)))"
proof -
  have "queue_step d (snd (LeaseTasksWhere w caps pool l s only pc d))" for l s only pc d by (rule queue_step.qs_lease)
  then show ?thesis unfolding Lease_def Let_def
    by (auto split: prod.splits sum.splits) (metis r_into_rtranclp rtranclp.rtrancl_into_rtrancl rtranclp.rtrancl_refl snd_conv)+
qed

lemma connect_tick_steps: "queue_step\<^sup>*\<^sup>* d (snd (snd (connect_tick v i base written g d)))"
proof -
  have l: "queue_step\<^sup>*\<^sup>* d (snd (snd (Lease x w caps pool limit d)))" for x w caps pool limit by (rule Lease_steps)
  have t: "queue_step\<^sup>*\<^sup>* d (snd (TouchWorker i [] (snd (snd (Lease x w caps pool limit d)))))" for x w caps pool limit
    by (meson l same_queue_step TouchWorker_same rtranclp_trans)
  show ?thesis
  proof (cases "worker_of d i")
    case None
    then show ?thesis by (simp add: connect_tick_def reloadWorker_def WorkerForAuth_def)
  next
    case (Some w)
    let ?l = "Lease (gw_disp g) i (w_capabilities w) (w_pool w) (w_max_concurrency w - w_running_tasks w) d"
    obtain jobs e d1 where lease: "?l = (jobs, e, d1)" by (cases ?l)
    have "queue_step\<^sup>*\<^sup>* d d1" and "queue_step\<^sup>*\<^sup>* d (snd (TouchWorker i [] d1))"
      using l t lease by (metis snd_conv)+
    then show ?thesis using Some lease
      by (auto simp: connect_tick_def reloadWorker_def WorkerForAuth_def split: option.splits prod.splits bool.splits)
  qed
qed

lemma keep_lease_steps: "queue_step\<^sup>*\<^sup>* d (snd (keep_lease v i h g d))"
proof -
  have e: "queue_step d (snd (ExtendLeaseForWorker tid i secs d))" for tid secs by (rule queue_step.qs_beat)
  have r: "queue_step x (snd (ReadoptTask tid i tok secs x))" for tid tok secs x by (rule queue_step.qs_readopt)
  have "queue_step\<^sup>*\<^sup>* d (snd (ReadoptTask tid i tok secs (snd (ExtendLeaseForWorker tid i secs' d))))" for tid tok secs secs'
    by (meson e r r_into_rtranclp rtranclp_trans)
  then show ?thesis using e
    by (auto simp: keep_lease_def split: option.splits prod.splits sum.splits bool.splits)
      (metis r_into_rtranclp snd_conv)+
qed

lemma keep_leases_steps: "queue_step\<^sup>*\<^sup>* d (snd (keep_leases v i hs g d))"
proof (induction hs arbitrary: g d)
  case (Cons h hs)
  show ?case using rtranclp_trans [OF keep_lease_steps Cons] by (simp add: Let_def)
qed simp

lemma read_heartbeat_steps: "queue_step\<^sup>*\<^sup>* d (snd (snd (read_heartbeat v i hb g d)))"
proof (cases "hb_stopping hb")
  case True
  have "queue_step d (snd (ReleaseWorkerLeases i d))" by (rule queue_step.qs_release)
  moreover have "queue_step\<^sup>*\<^sup>* x (MarkWorkerDisconnected i x)" for x
    unfolding MarkWorkerDisconnected_def by (rule same_queue_step [OF set_workers_same])
  ultimately show ?thesis using True by (simp add: read_heartbeat_def converse_rtranclp_into_rtranclp)
next
  case False
  have "queue_step\<^sup>*\<^sup>* d (snd (TouchWorker i [] d))"
    "queue_step\<^sup>*\<^sup>* d (snd (SetWorkerConcurrency i n (snd (TouchWorker i [] d))))" for n
    by (meson same_queue_step TouchWorker_same SetWorkerConcurrency_same rtranclp_trans)+
  then have "queue_step\<^sup>*\<^sup>* d (snd (keep_leases v i hs g' (snd (TouchWorker i [] d))))"
    "queue_step\<^sup>*\<^sup>* d (snd (keep_leases v i hs g' (snd (SetWorkerConcurrency i n (snd (TouchWorker i [] d))))))" for hs g' n
    using keep_leases_steps rtranclp_trans by metis+
  then show ?thesis using False by (simp add: read_heartbeat_def Let_def)
qed

lemma readLoop_steps: "queue_step\<^sup>*\<^sup>* d (snd (readLoop v i ms g d))"
proof (induction ms arbitrary: g d)
  case (Cons m ms)
  obtain now hb where m: "m = (now, hb)" by (cases m)
  let ?r = "read_heartbeat v i hb g (d\<lparr>db_now := now\<rparr>)"
  have "queue_step\<^sup>*\<^sup>* d (snd (snd ?r))"
    using same_queue_step [OF clock_same] read_heartbeat_steps by (rule rtranclp_trans)
  then have "queue_step\<^sup>*\<^sup>* d (snd (readLoop v i ms g' (snd (snd ?r))))" for g' using Cons rtranclp_trans by metis
  then show ?case using \<open>queue_step\<^sup>*\<^sup>* d (snd (snd ?r))\<close> by (simp add: m Let_def)
qed simp

lemma claim_task_steps: "queue_step\<^sup>*\<^sup>* d (snd (claim_task tid i tok ttl d))"
proof -
  have "queue_step d (snd (ReadoptTask tid i tok ttl d))" by (rule queue_step.qs_readopt)
  then show ?thesis
    by (cases "ReadoptTask tid i tok ttl d"; cases "fst (ReadoptTask tid i tok ttl d)")
      (auto simp: claim_task_def split: option.splits bool.splits)
qed

lemma claim_task_held: "claim_task tid i tok ttl d = (Some t, d1) \<Longrightarrow> t \<in> set (db_tasks d1) \<and> held_on_token tid tok t"
  by (auto simp: claim_task_def held_on_token_def dest: loadTask_Some split: option.splits sum.splits bool.splits prod.splits)

lemma close_task_steps:
  assumes "t \<in> set (db_tasks d)" and "held_on_token tid tok t"
  shows "queue_step\<^sup>*\<^sup>* d (close_task g res tid tok merged d)"
proof -
  have "queue_step d (FailTask tid tok msg d)" "queue_step d (FailTaskPermanently tid tok msg d)" for msg
    by (rule queue_step.qs_fail [OF assms], rule queue_step.qs_fail_for_good [OF assms])
  moreover have "queue_step\<^sup>*\<^sup>* d (CompleteTask tid tok (SetTaskResult tid merged d))"
    by (meson queue_step.qs_result queue_step.qs_complete converse_rtranclp_into_rtranclp r_into_rtranclp)
  moreover have "queue_step d (ExtendLease tid tok (leaseTTL x) d)" for x by (rule queue_step.qs_extend)
  ultimately show ?thesis
    by (auto simp: close_task_def Let_def Fail_def FailForGood_def Complete_def Heartbeat_def)
qed

lemma results_steps:
  assumes "results v now r body g d = (reply, g', d')"
  shows "queue_step\<^sup>*\<^sup>* d d'"
proof -
  have quiet: "queue_step\<^sup>*\<^sup>* d x" if "claim_task tid i tok ttl d = (y, x)" for tid i tok ttl x y
    using claim_task_steps that by (metis snd_conv)
  have bench: "queue_step\<^sup>*\<^sup>* d (SetWorkerStatus i WorkerQuarantined x)" if "claim_task tid i tok ttl d = (y, x)" for tid i tok ttl x y
    unfolding SetWorkerStatus_def by (rule rtranclp_trans [OF quiet [OF that] same_queue_step [OF set_workers_same]])
  have stored: "queue_step\<^sup>*\<^sup>* d d2"
    if "claim_task tid i tok ttl d = (y, x)" "Process ap run w now obs m x = ((e, sm, d2), m')" for tid i tok ttl x y ap run w obs m e sm d2 m'
  proof -
    have "same_queue x d2" using Process_step [OF that(2)] by (simp add: outside_same asset_step_def)
    then show ?thesis using quiet [OF that(1)] same_queue_step rtranclp_trans by metis
  qed
  have closed: "queue_step\<^sup>*\<^sup>* d (close_task g res tid tok merged (snd (mergeTaskSummary tid sm d2)))"
    if c: "claim_task tid i tok ttl d = (Some t, x)" and p: "Process ap run w now obs m x = ((e, sm, d2), m')"
    for tid i tok ttl x t ap run w obs m e sm d2 m' res merged
  proof -
    have "t \<in> set (db_tasks d2) \<and> held_on_token tid tok t"
      using claim_task_held [OF c] outside_eq [OF Process_tasks [OF p]] by simp
    then have "t\<lparr>t_result := Some (fst (mergeTaskSummary tid sm d2))\<rparr> \<in> set (db_tasks (snd (mergeTaskSummary tid sm d2)))"
      and "held_on_token tid tok (t\<lparr>t_result := Some (fst (mergeTaskSummary tid sm d2))\<rparr>)"
      by (auto simp: mergeTaskSummary_def Let_def SetTaskResult_def set_tasks_def set_update_where held_on_token_def)
    from close_task_steps [OF this] show ?thesis
      using stored [OF c p] by (simp add: mergeTaskSummary_def Let_def)
        (meson queue_step.qs_result r_into_rtranclp rtranclp_trans)
  qed
  show ?thesis
    using assms quiet bench stored closed
    by (auto simp: results_def Let_def split: option.splits prod.splits)
qed

section \<open>The gateway as a system\<close>

inductive gateway_step :: "gateway_env \<Rightarrow> gateway \<times> db \<Rightarrow> gateway \<times> db \<Rightarrow> bool" for v where
  gs_seed: "gateway_step v (g, d) (g, SeedBootstrapToken v years g d)"
| gs_enroll: "gateway_step v (g, d) (snd (enroll v secret salt r enr g d))"
| gs_connect: "gateway_step v (g, d) (snd (connect v r up g d))"
| gs_tick: "gateway_step v (g, d) (snd (connect_tick v i base written g d))"
| gs_channel: "gateway_step v (g, d) (readLoop v i ms g d)"
| gs_close: "gateway_step v (g, d) (unregister i g d)"
| gs_results: "gateway_step v (g, d) (snd (results v now r res g d))"
| gs_time: "gateway_step v (g, d) (g, d\<lparr>db_now := now\<rparr>)"

lemma SeedBootstrapToken_same: "same_queue d (SeedBootstrapToken v years g d)"
  by (simp add: SeedBootstrapToken_def EnsureBootstrapToken_def set_tokens_def same_queue_def list.rel_refl)

lemma gateway_step_queue: "gateway_step v s s' \<Longrightarrow> queue_step\<^sup>*\<^sup>* (snd s) (snd s')"
proof (induction rule: gateway_step.induct)
  case (gs_results g d now r res)
  show ?case using results_steps [of v now r res g d] by (cases "results v now r res g d") auto
next
  case (gs_close g d i)
  show ?case unfolding unregister_def MarkWorkerDisconnected_def by (simp add: same_queue_step set_workers_same)
qed (simp_all add: enroll_steps connect_steps connect_tick_steps readLoop_steps same_queue_step SeedBootstrapToken_same clock_same)

section \<open>Enrolment from outside\<close>

definition peer_host :: "agent_request \<Rightarrow> string" where
  "peer_host r = (case net_split_host (ar_remote r) of Some h \<Rightarrow> h | None \<Rightarrow> ar_remote r)"

lemma untrusted_peer:
  assumes "\<And>peer. ParseAddr (peer_host r) = Some peer \<Longrightarrow> \<not> fst (trusts (ge_lookup v) now peer (gw_proxies g))"
  shows "fst (observedIP v now r g) = peer_host r"
  using assms
  by (auto simp: observedIP_def proxies_clientIP_def Let_def peer_host_def split: option.splits prod.splits bool.splits)

lemma RedeemEnrollment_token:
  assumes "RedeemEnrollment h d = (Some tok, d1)"
  obtains t where "t \<in> set (db_tokens d)" and "et_hash t = h" and "en_preapproved tok = et_preapproved t"
proof -
  obtain t where f: "find (redeemable d h) (db_tokens d) = Some t" and "en_preapproved tok = et_preapproved t"
    using assms by (auto simp: RedeemEnrollment_def split: option.splits)
  with find_holds [OF f] show ?thesis using that [of t] by (simp add: redeemable_def)
qed

lemma verify_new:
  assumes "length salt = 16" and "\<And>raw s. length (cred_key idkey raw s) = 32"
  shows "verifyCredential idkey (fst (newCredential idkey secret salt)) (snd (newCredential idkey secret salt))"
  using assms by (simp add: verifyCredential_def newCredential_def Let_def)

text \<open>
  C14: A token of the local workers that leaked is worth nothing on the internet. Whoever redeems a
  token that was not approved beforehand, from a connection whose own address is public and not one of
  the trusted proxies, gets a worker that is pending and not local, whatever the token is for and
  whatever the forwarding headers of the request claim. The credential it is given is the one its row
  is verified against.
\<close>

theorem public_enrollment_waits:
  assumes "enroll v secret salt r (Some req) g d = (Accepted (i, raw), g', d')"
    and "\<not> isPrivateAddr (peer_host r)"
    and "\<And>peer. ParseAddr (peer_host r) = Some peer \<Longrightarrow> \<not> fst (trusts (ge_lookup v) (db_now d) peer (gw_proxies g))"
    and "list_all (\<lambda>t. et_hash t = ge_sha v (er_token req) \<longrightarrow> \<not> et_preapproved t) (db_tokens d)"
    and "length salt = 16" and "\<And>raw s. length (cred_key (ge_idkey v) raw s) = 32"
  shows "\<exists>w \<in> set (db_workers d'). w_id w = i \<and> w_status w = WorkerPending \<and> w_kind w \<noteq> ''local'' \<and>
    verifyCredential (ge_idkey v) raw (w_cred w)"
proof -
  let ?red = "RedeemEnrollment (ge_sha v (er_token req)) d" and ?cred = "newCredential (ge_idkey v) secret salt"
  obtain tok d1 where red: "?red = (Some tok, d1)" using assms(1) by (auto simp: enroll_def split: option.splits prod.splits)
  obtain t where "t \<in> set (db_tokens d)" "et_hash t = ge_sha v (er_token req)" "en_preapproved tok = et_preapproved t"
    by (rule RedeemEnrollment_token [OF red])
  then have pre: "\<not> en_preapproved tok" using assms(4) by (auto simp: list_all_iff)
  define w where "w = enrolled_worker tok req (peer_host r) (snd ?cred) (db_now d)"
  define d2 where "d2 = snd (PruneReplacedWorker (w_name w) (w_kind w) d1)"
  have "fst (observedIP v (db_now d) r g) = peer_host r" by (rule untrusted_peer) (rule assms(3))
  then have made: "CreateWorker w (snd ?cred) (w_status w) d2 = (Inr i, d')" "raw = fst ?cred"
    using assms(1) red by (auto simp: enroll_def Let_def w_def d2_def prod_eq_iff split: sum.splits)
  have "w_status w = WorkerPending" "w_kind w \<noteq> ''local''"
    using pre assms(2) by (simp_all add: w_def enrolled_worker_def Let_def)
  then show ?thesis using made verify_new [OF assms(5,6)]
    by (auto simp: CreateWorker_def Let_def split: if_splits)
qed

definition leaked_token :: enrollment_token where
  "leaked_token = \<lparr>et_hash = rev ''secret'', et_pool = None, et_expires = 1000, et_max_uses = 5, et_uses = 0,
     et_kind = ''local'', et_revoked = False, et_preapproved = False, et_egress_hint = None\<rparr>"

definition intruder :: enroll_request where
  "intruder = \<lparr>er_token = ''secret'', er_name = ''w'', er_hostname = [], er_capabilities = [], er_max_concurrency = 100\<rparr>"

theorem public_enrollment_waits_witness:
  "\<exists>w \<in> set (db_workers (snd (snd (enroll toy_env ''s'' (replicate 16 CHR ''x'') toy_request (Some intruder) toy_gateway
      (empty_db\<lparr>db_tokens := [leaked_token]\<rparr>))))). w_status w = WorkerPending \<and> w_kind w \<noteq> ''local''"
proof -
  let ?d = "empty_db\<lparr>db_tokens := [leaked_token]\<rparr>"
  let ?e = "enroll toy_env ''s'' (replicate 16 CHR ''x'') toy_request (Some intruder) toy_gateway ?d"
  have "fst ?e = Accepted (1000, ''73'')" by code_simp
  then have e: "?e = (Accepted (1000, ''73''), fst (snd ?e), snd (snd ?e))" by (metis prod.collapse)
  have p: "\<not> isPrivateAddr (peer_host toy_request)" by code_simp
  have "(case ParseAddr (peer_host toy_request) of None \<Rightarrow> True
      | Some peer \<Rightarrow> \<not> fst (trusts (ge_lookup toy_env) (db_now ?d) peer (gw_proxies toy_gateway)))" by code_simp
  then have t: "ParseAddr (peer_host toy_request) = Some peer \<Longrightarrow>
      \<not> fst (trusts (ge_lookup toy_env) (db_now ?d) peer (gw_proxies toy_gateway))" for peer by simp
  have k: "list_all (\<lambda>t. et_hash t = ge_sha toy_env (er_token intruder) \<longrightarrow> \<not> et_preapproved t) (db_tokens ?d)"
    by (simp add: leaked_token_def)
  have "length (cred_key (ge_idkey toy_env) raw s) = 32" for raw s by (simp add: cred_key_def toy_env_def)
  with public_enrollment_waits [OF e p t k] show ?thesis by auto
qed

section \<open>How much a worker is handed\<close>

definition small_worker_db :: db where
  "small_worker_db = two_tasks\<lparr>db_workers := [(sample_worker 3)\<lparr>w_max_concurrency := 1\<rparr>]\<rparr>"

definition after_ticks :: "nat \<Rightarrow> gateway \<times> db" where
  "after_ticks n = ((\<lambda>(g, d). snd (connect_tick toy_env 3 [] (\<lambda>_. True) g d)) ^^ n) (toy_gateway, small_worker_db)"


end
