(* ===== verification/Scheduler.thy ===== *)
theory Scheduler
  imports PlanStart GatewayLife
begin

text \<open>
  The scheduler (cmd/scheduler/main.go): its tick reaps expired leases, marks silent workers stale and
  advances every running run. The runs it hands to the differ and the notifier are its answer; what
  those two write (change events, deliveries) and the heartbeat of the health page are left out: nothing
  in the tick reads it.
\<close>

section \<open>The tick\<close>

definition closed_run :: "bool \<Rightarrow> scan_run \<Rightarrow> db \<Rightarrow> scan_run list \<times> db" where
  "closed_run allow_private run d =
     (case Advance allow_private run d of
        (_, Some e, d1) \<Rightarrow> ([], d1)
      | (finished, None, d1) \<Rightarrow>
          (if finished
           then (case GetRun (run_id run) d1 of
                   None \<Rightarrow> ([], d1)
                 | Some r \<Rightarrow> (if run_status r = RunCompleted then [r] else [], d1))
           else ([], d1)))"

fun advance_runs :: "bool \<Rightarrow> scan_run list \<Rightarrow> db \<Rightarrow> scan_run list \<times> db" where
  "advance_runs ap [] d = ([], d)"
| "advance_runs ap (r # rs) d =
     (let c = closed_run ap r d; v = advance_runs ap rs (snd c) in (fst c @ fst v, snd v))"

definition tick :: "bool \<Rightarrow> db \<Rightarrow> scan_run list \<times> db" where
  "tick allow_private d =
     (let d1 = snd (ReapExpiredLeases d);
          d2 = snd (MarkStaleWorkers WorkerStaleAfter d1)
      in advance_runs allow_private (RunningRuns d2) d2)"

section \<open>The tick and the queue\<close>

lemma closed_run_db: "snd (closed_run ap run d) = snd (snd (Advance ap run d))"
  by (auto simp: closed_run_def split: prod.splits option.splits)

lemma advance_runs_steps: "queue_step\<^sup>*\<^sup>* d (snd (advance_runs ap rs d))"
proof (induction rs arbitrary: d)
  case (Cons r rs)
  have "queue_step\<^sup>*\<^sup>* d (snd (closed_run ap r d))" by (simp add: closed_run_db Advance_steps)
  then show ?case using Cons by (simp add: Let_def rtranclp_trans)
qed simp

lemma tick_steps: "queue_step\<^sup>*\<^sup>* d (snd (tick ap d))"
proof -
  let ?d1 = "snd (ReapExpiredLeases d)"
  let ?d2 = "snd (MarkStaleWorkers WorkerStaleAfter ?d1)"
  have "queue_step d ?d1" by (rule queue_step.qs_reap)
  moreover have "queue_step\<^sup>*\<^sup>* ?d1 ?d2" by (simp add: MarkStaleWorkers_def Let_def same_queue_step set_workers_same)
  ultimately have "queue_step\<^sup>*\<^sup>* d ?d2" by (rule converse_rtranclp_into_rtranclp)
  then show ?thesis using advance_runs_steps by (simp add: tick_def Let_def rtranclp_trans)
qed

section \<open>Planning a new run and the queue\<close>

lemma plan_targets_steps: "queue_step\<^sup>*\<^sup>* d (snd (plan_targets ap passive auth ts d))"
proof (induction ts arbitrary: d)
  case (Cons t ts)
  have "queue_step\<^sup>*\<^sup>* d (case st of None \<Rightarrow> d | Some (s, why) \<Rightarrow> SetRunTargetStatus (rt_id t) s why d)" for st
    by (auto simp: same_queue_step SetRunTargetStatus_same split: option.split)
  then show ?case using Cons by (auto simp: case_prod_unfold intro: rtranclp_trans)
qed simp

lemma spec_origins: "sp_origins (spec s tgt prio i caps) = [i]"
  by (simp add: spec_def)

lemma plan_target_origins: "sp \<in> set (fst (plan_target ap passive auth t)) \<Longrightarrow> distinct (sp_origins sp)"
  by (auto simp: plan_target_def spec_origins split: if_splits)

lemma first_specs_origins:
  "sp \<in> set (fst (plan_targets ap passive auth ts d)) \<union> set (dnsBruteSpecs run us d') \<Longrightarrow> distinct (sp_origins sp)"
  by (auto simp: plan_targets_specs dnsBruteSpecs_def spec_origins split: if_splits dest: plan_target_origins)

lemma PlanInitial_steps: "queue_step\<^sup>*\<^sup>* d (snd (PlanInitial ap run ts sts d))"
proof (cases "routingFor run (SetRunStatus (run_id run) RunRunning d)")
  case (Inl e)
  then show ?thesis by (simp add: PlanInitial_def same_queue_step SetRunStatus_same)
next
  case (Inr rt)
  let ?d1 = "SetRunStatus (run_id run) RunRunning d"
  let ?p = "plan_targets ap (run_profile run = ProfilePassive) (authIndex sts) ts ?d1"
  let ?specs = "fst ?p @ dnsBruteSpecs run ts (snd ?p)"
  have "queue_step\<^sup>*\<^sup>* d ?d1" by (simp add: same_queue_step SetRunStatus_same)
  then have p: "queue_step\<^sup>*\<^sup>* d (snd ?p)" using plan_targets_steps by (rule rtranclp_trans)
  have "queue_step\<^sup>*\<^sup>* (snd ?p) (snd (route_and_insert run ?specs rt (snd ?p)))"
    using first_specs_origins by (intro route_and_insert_steps [of ?specs, OF _ prod.collapse [symmetric]]) (metis Un_iff set_append)
  moreover have "queue_step\<^sup>*\<^sup>* (snd ?p) (SetRunStatus (run_id run) RunCompleted (snd ?p))"
    by (simp add: same_queue_step SetRunStatus_same)
  ultimately show ?thesis using p Inr by (auto simp: PlanInitial_def Let_def case_prod_unfold intro: rtranclp_trans)
qed

end
