(* ===== verification/SearchProps.thy ===== *)
theory SearchProps
  imports Search
begin

text \<open>
  The parser always answers, and what it compiles to is a parameterized statement: the condition is put
  together from a fixed vocabulary and the placeholders of the values bound, so that nothing a user
  types becomes SQL.
\<close>

section \<open>Termination\<close>

fun need :: "parse_call \<Rightarrow> nat \<Rightarrow> nat" where
  "need OrStart k = 4 * k + 4"
| "need (OrLoop x) k = 4 * k + 3"
| "need AndStart k = 4 * k + 3"
| "need (AndLoop x) k = 4 * k + 2"
| "need TermStart k = 4 * k + 1"

definition leaves :: "parse_call \<Rightarrow> token list \<Rightarrow> token list \<Rightarrow> bool" where
  "leaves c ts rest \<longleftrightarrow> length rest \<le> length ts \<and> (c = TermStart \<and> ts \<noteq> [] \<longrightarrow> length rest < length ts)"

definition answers :: "nat \<Rightarrow> parse_call \<Rightarrow> token list \<Rightarrow> bool" where
  "answers n c ts \<longleftrightarrow> (case parse n c ts of None \<Rightarrow> False | Some (Inl e) \<Rightarrow> True | Some (Inr (x, rest)) \<Rightarrow> leaves c ts rest)"

lemma answers_cases:
  assumes "answers n c ts"
  obtains (err) e where "parse n c ts = Some (Inl e)" | (node) x rest where "parse n c ts = Some (Inr (x, rest))" "leaves c ts rest"
  using assms by (auto simp: answers_def split: option.splits sum.splits prod.splits)

lemma answersI:
  "parse n c ts = Some (Inl e) \<Longrightarrow> answers n c ts"
  "parse n c ts = Some (Inr (x, rest)) \<Longrightarrow> leaves c ts rest \<Longrightarrow> answers n c ts"
  by (simp_all add: answers_def)

lemma answers_then:
  assumes "answers n c ts" and "\<And>x rest. parse n c ts = Some (Inr (x, rest)) \<Longrightarrow> leaves c ts rest \<Longrightarrow> answers n (k x) rest"
    and "\<And>x rest r. leaves c ts rest \<Longrightarrow> leaves (k x) rest r \<Longrightarrow> leaves c' ts' r"
    and "parse_step (parse n) c' ts' = then_parse (parse n c ts) (\<lambda>x. parse n (k x))"
  shows "answers (Suc n) c' ts'"
  using assms(1)
proof (cases rule: answers_cases)
  case (err e)
  then show ?thesis using assms(4) by (simp add: answers_def)
next
  case (node x rest)
  from assms(2) [OF node] show ?thesis
  proof (cases rule: answers_cases)
    case (err e)
    then show ?thesis using assms(4) node by (simp add: answers_def)
  next
    case node2: (node y r)
    then show ?thesis using assms(3) [OF node(2) node2(2)] assms(4) node by (simp add: answers_def)
  qed
qed

lemma parse_answers: "need c (length ts) \<le> n \<Longrightarrow> answers n c ts"
proof (induction n arbitrary: c ts)
  case 0
  then show ?case by (cases c) simp_all
next
  case (Suc n)
  show ?case
  proof (cases c)
    case OrStart
    show ?thesis
      by (rule answers_then [where c = AndStart and ts = ts and k = OrLoop])
        (use Suc OrStart in \<open>auto simp: parse_step_def leaves_def\<close>)
  next
    case (OrLoop left)
    show ?thesis
    proof (cases "ts \<noteq> [] \<and> fst (peek ts) = tOr")
      case True
      then obtain t r where ts: "ts = t # r" by (cases ts) auto
      show ?thesis
        by (rule answers_then [where c = AndStart and ts = r and k = "\<lambda>right. OrLoop (Bin ''OR'' left right)"])
          (use Suc OrLoop True ts in \<open>auto simp: parse_step_def leaves_def intro!: Suc.IH\<close>)
    next
      case False
      then show ?thesis using OrLoop by (auto simp: parse_step_def answers_def leaves_def)
    qed
  next
    case AndStart
    show ?thesis
      by (rule answers_then [where c = TermStart and ts = ts and k = AndLoop])
        (use Suc AndStart in \<open>auto simp: parse_step_def leaves_def\<close>)
  next
    case (AndLoop left)
    show ?thesis
    proof (cases "ts \<noteq> [] \<and> fst (peek ts) \<in> {tAnd, tWord, tLParen}")
      case True
      let ?ts = "if fst (peek ts) = tAnd then tl ts else ts"
      obtain t r where ts: "ts = t # r" using True by (cases ts) auto
      show ?thesis
        by (rule answers_then [where c = TermStart and ts = ?ts and k = "\<lambda>right. AndLoop (Bin ''AND'' left right)"])
          (use Suc AndLoop True ts in \<open>auto simp: parse_step_def leaves_def Let_def intro!: Suc.IH split: if_splits\<close>)
    next
      case False
      then show ?thesis using AndLoop by (auto simp: parse_step_def answers_def leaves_def Let_def)
    qed
  next
    case TermStart
    show ?thesis
    proof (cases "fst (peek ts) = tLParen")
      case True
      then obtain t r where ts: "ts = t # r" by (cases ts) (auto simp: peek_def)
      have "answers n OrStart r" using Suc TermStart ts by simp
      then show ?thesis using TermStart True ts
        by (cases rule: answers_cases) (auto simp: parse_step_def answers_def leaves_def)
    next
      case False
      then show ?thesis using TermStart by (cases ts) (auto simp: parse_step_def answers_def leaves_def peek_def)
    qed
  qed
qed

lemma then_parse_mono:
  assumes "then_parse p f = Some r" and "\<And>a. p = Some a \<Longrightarrow> p' = Some a" and "\<And>x ts a. f x ts = Some a \<Longrightarrow> f' x ts = Some a"
  shows "then_parse p' f' = Some r"
proof (cases p)
  case (Some a)
  then show ?thesis using assms by (cases a) auto
qed (use assms in simp)

lemma parse_step_mono:
  assumes "parse_step p c ts = Some r" and "\<And>c ts a. p c ts = Some a \<Longrightarrow> q c ts = Some a"
  shows "parse_step q c ts = Some r"
proof -
  have "then_parse (q b us) (\<lambda>x. q (k x)) = Some r" if "then_parse (p b us) (\<lambda>x. p (k x)) = Some r" for b us k
    by (rule then_parse_mono [OF that]; erule assms(2))
  moreover have "then_parse (q b us) f = Some r" if "then_parse (p b us) f = Some r" for b us f
    by (rule then_parse_mono [OF that]; (erule assms(2) | assumption))
  ultimately show ?thesis using assms(1)
    by (cases c) (auto simp: parse_step_def Let_def split: if_splits)
qed

lemma parse_more: "parse n c ts = Some r \<Longrightarrow> parse (Suc n) c ts = Some r"
proof (induction n arbitrary: c ts r)
  case (Suc n)
  have "parse_step (parse n) c ts = Some r" using Suc.prems by simp
  then have "parse_step (parse (Suc n)) c ts = Some r" by (rule parse_step_mono) (rule Suc.IH)
  then show ?case by simp
qed simp

lemma parse_even_more: "parse n c ts = Some r \<Longrightarrow> n \<le> m \<Longrightarrow> parse m c ts = Some r"
  by (induction m) (auto simp: le_Suc_eq simp del: parse.simps intro: parse_more)

text \<open>
  C22: The parser terminates. On any list of tokens there is one answer, a tree and the tokens left or a
  syntax error, that the parser gives with the fuel \<open>Compile\<close> provides and with any greater amount:
  the recursion of the three functions never runs out of it, however deep the parentheses are.
\<close>

theorem parser_terminates: "\<exists>r. \<forall>n. parse_fuel ts \<le> n \<longrightarrow> parseOr n ts = Some r"
proof -
  have "answers (parse_fuel ts) OrStart ts" by (rule parse_answers) (simp add: parse_fuel_def)
  then obtain r where "parse (parse_fuel ts) OrStart ts = Some r" by (rule answers_cases)
  then have "\<forall>n. parse_fuel ts \<le> n \<longrightarrow> parse n OrStart ts = Some r" using parse_even_more by blast
  then show ?thesis unfolding parseOr_def by blast
qed

theorem parser_terminates_witness:
  "parseOr 1000 [(tLParen, ''(''), (tWord, ''port:80''), (tOr, ''or''), (tRParen, '')'')] =
   parseOr 20 [(tLParen, ''(''), (tWord, ''port:80''), (tOr, ''or''), (tRParen, '')'')]"
proof -
  let ?ts = "[(tLParen, ''(''), (tWord, ''port:80''), (tOr, ''or''), (tRParen, '')'')]"
  have "parse_fuel ?ts \<le> 20" "parse_fuel ?ts \<le> 1000" by (simp_all add: parse_fuel_def)
  then show ?thesis using parser_terminates [of ?ts] by metis
qed

section \<open>Only placeholders\<close>

text \<open>Every text the compiler puts into a condition.\<close>

definition sql_words :: "string list" where
  "sql_words =
     [''('', '' '', '')'', ''AND'', ''OR'', ''TRUE'', ''EXISTS (SELECT 1 FROM technology t WHERE t.service_id=sv.id)'',
      ''EXISTS (SELECT 1 FROM technology t WHERE t.service_id=sv.id AND t.name ILIKE '',
      ''EXISTS (SELECT 1 FROM jsonb_array_elements_text('',
      apostrophed ''CASE WHEN jsonb_typeof(so.http->`cookies`) = `array` THEN so.http->`cookies` ELSE `[]`::jsonb END'',
      '') AS ck WHERE ck ILIKE '', apostrophed ''(so.http->>`status`)::int '', apostrophed ''COALESCE(so.http->>`title`,``) <> ``'',
      apostrophed ''(so.http->>`title`) ILIKE '', apostrophed ''(so.tls->>`not_after`)::timestamptz < now() + make_interval(days => '',
      ''sv.first_seen >= now() - make_interval(days => '', ''EXISTS (SELECT 1 FROM finding f WHERE f.asset_id=sv.id AND '',
      apostrophed ''array_position(ARRAY[`info`,`low`,`medium`,`high`,`critical`], f.severity) '', '' IS NOT NULL'', ''COALESCE('',
      apostrophed ''::text,``) <> ``'', '' ILIKE '', ''(so.banner ILIKE '', apostrophed '' OR (so.http->>`title`) ILIKE '', '' OR so.product ILIKE '']"

definition vocabulary :: "string list" where
  "vocabulary = map (\<lambda>f. fd_col (snd f)) fields @ map sql_op field_ops @ sql_words"

text \<open>\<open>built S s\<close>: \<open>s\<close> is a sequence of words of the vocabulary and placeholders, those numbered in \<open>S\<close> and no others.\<close>

definition built :: "nat set \<Rightarrow> string \<Rightarrow> bool" where
  "built S s \<longleftrightarrow> (\<exists>ps. s = concat ps \<and> set ps \<subseteq> set vocabulary \<union> placeholder ` S \<and> placeholder ` S \<subseteq> set ps)"

lemma built_append: "built S a \<Longrightarrow> built T b \<Longrightarrow> built (S \<union> T) (a @ b)"
proof -
  assume "built S a" "built T b"
  then obtain ps qs where "a = concat ps" "b = concat qs" "set ps \<subseteq> set vocabulary \<union> placeholder ` S" "placeholder ` S \<subseteq> set ps"
    "set qs \<subseteq> set vocabulary \<union> placeholder ` T" "placeholder ` T \<subseteq> set qs" by (auto simp: built_def)
  then show ?thesis unfolding built_def by (intro exI [of _ "ps @ qs"]) auto
qed

lemma built_words: "set ps \<subseteq> set vocabulary \<Longrightarrow> built {} (concat ps)"
  by (auto simp: built_def)

lemma built_placeholder: "built {n} (placeholder n)"
  unfolding built_def by (intro exI [of _ "[placeholder n]"]) auto

lemma built_around:
  assumes "set pre \<subseteq> set vocabulary" and "set post \<subseteq> set vocabulary"
  shows "\<exists>new. snd (around pre x post args) = args @ new \<and>
    built {length args + 1 .. length args + length new} (fst (around pre x post args))"
proof -
  have "built ({} \<union> ({length args + 1} \<union> {})) (concat pre @ (placeholder (length args + 1) @ concat post))"
    by (intro built_append built_words built_placeholder assms)
  then show ?thesis by (simp add: around_def bind_arg_def Let_def)
qed

lemma built_plain: "set ps \<subseteq> set vocabulary \<Longrightarrow> s = concat ps \<Longrightarrow>
    \<exists>new. args = args @ new \<and> built {length args + 1 .. length args + length new} s"
  by (intro exI [of _ "[]"]) (simp add: built_words)

definition sound :: "sql_arg list \<Rightarrow> string \<times> sql_arg list \<Rightarrow> bool" where
  "sound args r \<longleftrightarrow> (\<exists>new. snd r = args @ new \<and> built {length args + 1 .. length args + length new} (fst r))"

lemma sound_around: "set pre \<subseteq> set vocabulary \<Longrightarrow> set post \<subseteq> set vocabulary \<Longrightarrow> sound args (around pre x post args)"
  unfolding sound_def by (rule built_around)

lemma sound_plain: "set ps \<subseteq> set vocabulary \<Longrightarrow> s = concat ps \<Longrightarrow> sound args (s, args)"
  using built_plain [of ps s args] by (simp add: sound_def)

lemma vocabulary_op: "op \<in> set field_ops \<Longrightarrow> sql_op op \<in> set vocabulary"
  unfolding vocabulary_def set_append set_map by (intro UnI2 UnI1 imageI)

lemma vocabulary_col: "(k, f) \<in> set fields \<Longrightarrow> fd_col f \<in> set vocabulary"
  unfolding vocabulary_def set_append set_map by (intro UnI1) (rule image_eqI [where x = "(k, f)"], simp_all only: snd_conv)

lemma vocabulary_word: "w \<in> set sql_words \<Longrightarrow> w \<in> set vocabulary"
  by (simp add: vocabulary_def)

lemmas sql_word = sql_words_def list.set insert_iff simp_thms

lemma compileField_sound:
  assumes "(k, f) \<in> set fields" and "op \<in> set field_ops"
  shows "sound args (compileField f op val args)"
proof -
  note col = vocabulary_col [OF assms(1)] and op = vocabulary_op [OF assms(2)]
  have w: "w \<in> set sql_words \<Longrightarrow> set [w] \<subseteq> set vocabulary" for w using vocabulary_word by simp
  have cons: "w \<in> set sql_words \<Longrightarrow> set ws \<subseteq> set vocabulary \<Longrightarrow> set (w # ws) \<subseteq> set vocabulary" for w ws
    using vocabulary_word by simp
  have conc: "x \<in> set vocabulary \<Longrightarrow> set ws \<subseteq> set vocabulary \<Longrightarrow> set (x # ws) \<subseteq> set vocabulary" for x ws by simp
  have nil: "set [] \<subseteq> set vocabulary" by simp
  have cols: "sound args (fd_col f @ '' IS NOT NULL'', args)" "sound args (''COALESCE('' @ fd_col f @ apostrophed ''::text,``) <> ``'', args)"
    by (rule sound_plain [where ps = "[fd_col f, '' IS NOT NULL'']"],
        (intro conc col cons nil; simp only: sql_word), simp,
        rule sound_plain [where ps = "[''COALESCE('', fd_col f, apostrophed ''::text,``) <> ``'']"],
        (intro conc col cons nil; simp only: sql_word), simp)
  have texts: "w \<in> set sql_words \<Longrightarrow> sound args (w, args)" for w
    using sound_plain [OF w, of w w args] by simp
  have pick: "sound args x \<Longrightarrow> sound args y \<Longrightarrow> sound args (if b then x else y)" for b x y by simp
  show ?thesis unfolding compileField_def Let_def
    by (intro pick sound_around texts cols conc [OF col] conc [OF op] cons nil; simp only: sql_word)
qed

lemma split_field_known:
  "split_field raw ops = Some (f, op, val) \<Longrightarrow> \<exists>k. (k, f) \<in> set fields \<and> op \<in> set ops"
  by (induction raw ops rule: split_field.induct)
    (auto simp del: set_append split: option.splits if_splits dest!: map_of_SomeD)

lemma sql_term_sound: "sound args (sql_term raw args)"
proof (cases "split_field raw field_ops")
  case (Some r)
  obtain f op val where r: "r = (f, op, val)" by (cases r)
  then obtain k where "(k, f) \<in> set fields" "op \<in> set field_ops" using split_field_known Some by blast
  then show ?thesis using compileField_sound Some r by (simp add: sql_term_def)
next
  case None
  let ?ph = "placeholder (length args + 1)"
  have v: "built {} w" if "w \<in> set sql_words" for w using built_words [of "[w]"] vocabulary_word [OF that] by simp
  have "built ({} \<union> ({length args + 1} \<union> ({} \<union> ({length args + 1} \<union> ({} \<union> ({length args + 1} \<union> {}))))))
    (''(so.banner ILIKE '' @ ?ph @ apostrophed '' OR (so.http->>`title`) ILIKE '' @ ?ph @ '' OR so.product ILIKE '' @ ?ph @ '')'')"
    by (intro built_append built_placeholder v; simp only: sql_word)
  then have "sound args (''(so.banner ILIKE '' @ ?ph @ apostrophed '' OR (so.http->>`title`) ILIKE '' @ ?ph @ '' OR so.product ILIKE '' @ ?ph @ '')'', args @ [x])" for x
    unfolding sound_def fst_conv snd_conv by (intro exI [of _ "[x]"]) simp
  moreover have "sound args (''TRUE'', args)"
    by (rule sound_plain [where ps = "[''TRUE'']"]) (use vocabulary_word [of "''TRUE''"] in \<open>simp_all only: sql_word\<close>, simp_all)
  ultimately show ?thesis using None by (simp only: sql_term_def option.case bind_arg_def Let_def fst_conv snd_conv split: if_split) simp
qed

lemma sound_trans:
  assumes "sound args a" and "sound (snd a) b" and "built {} x" "built {} y" "built {} z"
  shows "sound args (x @ fst a @ y @ fst b @ z, snd b)"
proof -
  obtain new where a: "snd a = args @ new" "built {length args + 1 .. length args + length new} (fst a)"
    using assms(1) by (auto simp: sound_def)
  obtain new' where b: "snd b = args @ new @ new'" "built {length args + length new + 1 .. length args + length new + length new'} (fst b)"
    using assms(2) a by (auto simp: sound_def add.assoc)
  let ?A = "{length args + 1 .. length args + length new}"
    and ?B = "{length args + length new + 1 .. length args + length new + length new'}"
  have "built ({} \<union> (?A \<union> ({} \<union> (?B \<union> {})))) (x @ fst a @ y @ fst b @ z)"
    by (intro built_append assms a(2) b(2))
  moreover have "{} \<union> (?A \<union> ({} \<union> (?B \<union> {}))) = {length args + 1 .. length args + length (new @ new')}" by auto
  ultimately show ?thesis unfolding sound_def fst_conv snd_conv b(1) by (intro exI [of _ "new @ new'"]) simp
qed

fun known_ops :: "node \<Rightarrow> bool" where
  "known_ops (Term raw) \<longleftrightarrow> True"
| "known_ops (Bin op l r) \<longleftrightarrow> op \<in> {''AND'', ''OR''} \<and> known_ops l \<and> known_ops r"

lemma node_sql_sound: "known_ops x \<Longrightarrow> sound args (node_sql x args)"
proof (induction x arbitrary: args)
  case (Term raw)
  then show ?case by (simp add: sql_term_sound)
next
  case (Bin op l r)
  have w: "built {} w" if "w \<in> set sql_words" for w using built_words [of "[w]"] vocabulary_word [OF that] by simp
  have op: "op \<in> set sql_words" using Bin.prems by (auto simp: sql_words_def)
  have "built ({} \<union> ({} \<union> {})) ('' '' @ op @ '' '')"
    by (intro built_append w op; simp only: sql_word)
  then have mid: "built {} ('' '' @ op @ '' '')" by simp
  have "sound args (node_sql l args)" "sound (snd (node_sql l args)) (node_sql r (snd (node_sql l args)))"
    using Bin by simp_all
  from sound_trans [OF this w mid w, of "''(''" "'')''"] show ?case by (simp add: Let_def sql_words_def)
qed

fun ops_so_far :: "parse_call \<Rightarrow> bool" where
  "ops_so_far (OrLoop x) \<longleftrightarrow> known_ops x"
| "ops_so_far (AndLoop x) \<longleftrightarrow> known_ops x"
| "ops_so_far _ \<longleftrightarrow> True"

lemma then_parse_Inr:
  "then_parse p f = Some (Inr y) \<Longrightarrow> (\<And>x ts. p = Some (Inr (x, ts)) \<Longrightarrow> f x ts = Some (Inr y) \<Longrightarrow> P) \<Longrightarrow> P"
  by (auto simp: then_parse_def split: option.splits sum.splits prod.splits)

lemma parse_known_ops: "parse n c ts = Some (Inr (x, rest)) \<Longrightarrow> ops_so_far c \<Longrightarrow> known_ops x"
proof (induction n arbitrary: c ts x rest)
  case (Suc n)
  have loop: "known_ops x"
    if "then_parse (parse n b us) (\<lambda>y. parse n (k y)) = Some (Inr (x, rest))" and "ops_so_far b"
      and "\<And>y. known_ops y \<Longrightarrow> ops_so_far (k y)" for b us k
    by (rule then_parse_Inr [OF that(1)]) (use Suc.IH that(2,3) in blast)
  show ?case
  proof (cases c)
    case OrStart
    then show ?thesis using Suc.prems loop [of AndStart ts OrLoop] by (simp add: parse_step_def)
  next
    case (OrLoop left)
    then show ?thesis using Suc.prems loop [of AndStart "tl ts" "\<lambda>y. OrLoop (Bin ''OR'' left y)"]
      by (simp add: parse_step_def split: if_splits)
  next
    case AndStart
    then show ?thesis using Suc.prems loop [of TermStart ts AndLoop] by (simp add: parse_step_def)
  next
    case (AndLoop left)
    then show ?thesis using Suc.prems
        loop [of TermStart "if fst (peek ts) = tAnd then tl ts else ts" "\<lambda>y. AndLoop (Bin ''AND'' left y)"]
      by (auto simp: parse_step_def Let_def split: if_splits)
  next
    case TermStart
    then show ?thesis using Suc.prems
      by (auto simp: parse_step_def elim!: then_parse_Inr split: if_splits dest!: Suc.IH)
  qed
qed simp

text \<open>
  C21: Compiling a query never lets it into the SQL. Whatever the query is, the condition it compiles to
  is a sequence of words of a fixed vocabulary, which are the columns and the operators of the fields
  and the texts of the compiler, and of placeholders; and the placeholders in it are exactly the
  numbers of the values bound, none left out and none beyond. So PostgreSQL finds a value for every
  placeholder and uses every value, and the numbers after them are free for the store.
\<close>

theorem Compile_parameterized:
  assumes "Compile q = Inr (sql, args)"
  shows "\<exists>ps. sql = concat ps \<and> set ps \<subseteq> set vocabulary \<union> placeholder ` {1 .. length args} \<and>
    placeholder ` {1 .. length args} \<subseteq> set ps"
proof (cases "TrimSpace q = []")
  case True
  have "built {} ''TRUE''" using built_words [of "[''TRUE'']"] vocabulary_word [of "''TRUE''"] by (simp add: sql_words_def)
  then show ?thesis using True assms by (simp add: Compile_def built_def)
next
  case False
  then obtain toks x where "parse (parse_fuel toks) OrStart toks = Some (Inr (x, []))" and e: "(sql, args) = node_sql x []"
    using assms by (auto simp: Compile_def parseOr_def Let_def split: sum.splits option.splits list.splits prod.splits)
  then have "known_ops x" using parse_known_ops [of _ OrStart] by fastforce
  from node_sql_sound [OF this, of "[]"] e have "sound [] (sql, args)" by simp
  then show ?thesis by (simp add: sound_def built_def)
qed

theorem Compile_parameterized_witness:
  "Compile ''(port:80 or title:x) ;drop'' =
     Inr (apostrophed ''((sv.port = $1 OR (so.http->>`title`) ILIKE $2) AND (so.banner ILIKE $3 OR (so.http->>`title`) ILIKE $3 OR so.product ILIKE $3))'',
          [ArgInt 80, ArgText ''%x%'', ArgText ''%;drop%'']) \<and>
   (\<exists>ps. apostrophed ''((sv.port = $1 OR (so.http->>`title`) ILIKE $2) AND (so.banner ILIKE $3 OR (so.http->>`title`) ILIKE $3 OR so.product ILIKE $3))'' = concat ps \<and>
     set ps \<subseteq> set vocabulary \<union> placeholder ` {1 .. 3})"
proof -
  have c: "Compile ''(port:80 or title:x) ;drop'' =
     Inr (apostrophed ''((sv.port = $1 OR (so.http->>`title`) ILIKE $2) AND (so.banner ILIKE $3 OR (so.http->>`title`) ILIKE $3 OR so.product ILIKE $3))'',
          [ArgInt 80, ArgText ''%x%'', ArgText ''%;drop%''])" by code_simp
  have "length [ArgInt 80, ArgText ''%x%'', ArgText ''%;drop%''] = 3" by simp
  with Compile_parameterized [OF c] show ?thesis using c by metis
qed

section \<open>Slips of the language\<close>

text \<open>A query that ends in an operator is read as if an empty word followed, which matches everything.\<close>

lemma trailing_or_matches_all: "Compile ''port:80 or'' = Inr (''(sv.port = $1 OR TRUE)'', [ArgInt 80])"
  by code_simp

text \<open>\<^verbatim>\<open>array_position\<close> counts from one; the number bound for a severity counts from zero.\<close>

lemma severity_off_by_one:
  "map severity_order [''info'', ''low'', ''medium'', ''high'', ''critical''] = [0, 1, 2, 3, 4]"
  by code_simp

text \<open>The tables of the FROM clause of a search are \<open>sv\<close>, \<open>ip\<close>, \<open>sc\<close> and \<open>so\<close>; this column is of none of them.\<close>

lemma domain_alias_missing: "Compile ''domain:a.io'' = Inr (''d.name ILIKE $1'', [ArgText ''a.io''])"
  by code_simp

end
