(* ===== verification/Spec2Isabelle.thy ===== *)
theory Spec2Isabelle
  imports ScopeGuard Dispatch WorkerStore LoginProps ScopeProps IngestProps Scheduler SearchProps
begin

text \<open>
  PinkGlasses is an attack-surface scanner. A company lists its targets and authorizes them; a scan run
  turns them into tasks; workers lease the tasks, look at the targets and deliver observations; the
  control plane stores those as a graph of assets and plans the next tasks from them. The control plane
  is several Go programs over one PostgreSQL database: the API, the gateway of the workers and the
  scheduler. This development models the decisions of the control plane, with the SQL statements they
  are made by, and proves what they promise.

  \<^bold>\<open>The state.\<close> \<open>Tables.db\<close> is the database, a record of row lists, one record type per table
  (migrations/, internal/domain). A statement or a transaction is atomic. A Go method that runs a statement is a
  function from the database to its result and the database after it; a Go error is \<open>Inl\<close> of a text, or
  \<open>Some\<close> of it where there is no result. The clock and the stream of fresh identifiers are fields of the
  record. Strings are lists of characters, instants and durations are integers in microseconds.
  Addresses are lists of bytes of type \<open>8 word\<close>.

  \<^bold>\<open>The theories.\<close>

  \<^item> \<open>Prelude\<close>: the types all share, Go's strings, strconv and sort as far as used, and the interfaces
    \<open>seen_merge\<close> (appending what is not there yet), \<open>guarded_system\<close> (steps that keep an invariant),
    \<open>growing_table\<close> and \<open>temporal_table\<close> (upserts that lose nothing).
  \<^item> \<open>NetIP\<close>, \<open>GoURL\<close>: the parts of net, net/netip and net/url the program calls.
  \<^item> \<open>Domain\<close> (internal/domain): statuses, \<open>MergeTargets\<close>, \<open>DerivePresence\<close>. One row is kept per target,
    excluded when any row is; the presence of a finding is what its history says.
  \<^item> \<open>ScopeGuard\<close> (internal/scopeguard): an address is allowed exactly when it is outside the private
    ranges and the exclusions; a block is enumerated without gaps up to the cap.
  \<^item> \<open>ScanProto\<close> (internal/scanproto): stages, capabilities, jobs, observations.
  \<^item> \<open>TaskStore\<close>, \<open>TaskLife\<close> (internal/store/task.go): the task queue. \<open>queue_step\<close> is every change of it,
    \<open>queue_inv\<close> its invariant, \<open>lifecycle\<close> the abstract life of a task, which every step refines.
    Progress counters are exact, leases follow the status, and a task that ended stays so by the steps that
    check the lease; \<open>FailTask\<close>, which does not, is shown to reopen a task that is done.
  \<^item> \<open>RunStore\<close>, \<open>WorkerStore\<close>, \<open>ConfigStore\<close> (internal/store): runs, workers, enrolment, pools, fleets,
    wordlists, presets and tunnels.
  \<^item> \<open>Dispatch\<close> (internal/dispatch): a lease hands out only work the worker may do, in the fair order,
    under fresh tokens and below the cap on brute force.
  \<^item> \<open>Planner\<close>, \<open>PlanProps\<close>, \<open>PlanLife\<close>, \<open>PlanStart\<close> (internal/planner): the first tasks of a run and the
    stage machine. Packets are sent only to authorized targets and through the pool of the run;
    planning twice plans once; a run is never left open with nothing to do, and is closed truthfully.
  \<^item> \<open>Scheduler\<close> (cmd/scheduler): the tick.
  \<^item> \<open>Assets\<close>, \<open>Ingest\<close>, \<open>IngestProps\<close> (internal/store/asset.go and finding.go, internal/ingest): the graph
    only grows and stays well formed, and the summary of a batch lists what it reported.
  \<^item> \<open>Gateway\<close>, \<open>GatewayProps\<close>, \<open>GatewayLife\<close> (internal/agentapi): enrolment, the control channel and the
    delivery of results. Only the holder of a lease delivers, within its task; how results are cut
    into batches does not matter; a token that leaked gives no approved worker.
  \<^item> \<open>AuthCore\<close>, \<open>Accounts\<close>, \<open>AuthHttp\<close>, \<open>AuthProps\<close>, \<open>LoginProps\<close> (internal/auth, internal/store,
    internal/httpapi): an administrator always remains, signing in is sound, and the two limiters of
    sign-in attempts agree.
  \<^item> \<open>Scopes\<close>, \<open>ScopeHttp\<close>, \<open>ScopeProps\<close> (internal/store, internal/httpapi): a company that is not shared with
    an account cannot be observed by it; how edits treat authorizations and exclusions.
  \<^item> \<open>Search\<close>, \<open>SearchProps\<close> (internal/search): a query compiles to a parameterized condition, and its parser
    terminates.
  \<^item> This theory: the control plane as one system over the queue.

  Theories named after a component hold its definitions, in the order of the code; the others hold what
  is proved of them, the invariants as step relations with rule induction. Some properties state what the
  code does where that is not what it means to do; their names say what happens.

  \<^bold>\<open>Code from elsewhere\<close> is an argument: key derivation, SHA-256 and random bytes (\<open>crypto\<close>,
  \<open>gateway_env\<close>), name lookup, the object store, the public suffix list, and PostgreSQL's reading of
  an address (\<open>db_host\<close>). Identifiers are assumed not to repeat where a property needs it.

  \<^bold>\<open>Bounds.\<close> Every function is total. The parser of queries is the only one with fuel,
  \<open>parse_fuel\<close>, four for every token and four more: each token is consumed by a
  call of \<open>parseTerm\<close> or a turn of a loop, and between two tokens the parser is at no more than four
  places; \<open>parser_terminates\<close> proves it. The two endless loops of the control channel are modelled by
  their turn, and any sequence of turns is covered. Strings are single-byte, and case folding and
  trimming are those of ASCII.

  \<^bold>\<open>Not modelled.\<close> The worker's own scanning code and recognisers (they run external tools and read the
  network); the web pages' reports and the web interface; the launcher's checks, schedules, notifications
  and the differ, which build on statements modelled here; SSH exits, containers, tunnels, object storage
  and secrets (operating system, cryptography); the HTTP server, websockets, configuration and the
  MCP adapter. Two requests are interleaved only between handlers, not between the statements
  of one. Deleting a run or a company is modelled (\<open>DeleteRun\<close>, \<open>DeleteScope\<close>) but is not
  a step of the queue.
\<close>

section \<open>The control plane as one system\<close>

text \<open>
  What the programs of the control plane do to the database they share, in any interleaving: a step of
  the gateway, a tick of the scheduler and the statements of its sweep, and what the API does to a run.
  The tick is one step, and so is each of its parts, so that others may act between them.
\<close>

inductive control_step :: "gateway_env \<Rightarrow> gateway \<times> db \<Rightarrow> gateway \<times> db \<Rightarrow> bool" for v where
  cs_gateway: "gateway_step v s s' \<Longrightarrow> control_step v s s'"
| cs_tick: "control_step v (g, d) (g, snd (tick ap d))"
| cs_advance: "control_step v (g, d) (g, snd (snd (Advance ap run d)))"
| cs_reap: "control_step v (g, d) (g, snd (ReapExpiredLeases d))"
| cs_stale: "control_step v (g, d) (g, snd (MarkStaleWorkers age d))"
| cs_reap_workers: "control_step v (g, d) (g, snd (ReapStaleLocalWorkers age d))"
| cs_zombies: "control_step v (g, d) (g, snd (FailZombieRuns age d))"
| cs_sessions: "control_step v (g, d) (g, snd (ReapExpiredSessions d))"
| cs_attempts: "control_step v (g, d) (g, snd (PruneLoginAttempts age d))"
| cs_create: "control_step v (g, d) (g, snd (CreateRun new targets d))"
| cs_plan: "control_step v (g, d) (g, snd (PlanInitial ap run rts sts d))"
| cs_pause: "control_step v (g, d) (g, snd (PauseRun rid d))"
| cs_resume: "control_step v (g, d) (g, snd (ResumeRun rid d))"
| cs_status: "control_step v (g, d) (g, SetRunStatus rid to_status d)"
| cs_cancel: "control_step v (g, d) (g, CancelRunTasks rid d)"
| cs_worker_status: "control_step v (g, d) (g, SetWorkerStatus wid wst d)"
| cs_delete_worker: "control_step v (g, d) (g, DeleteWorker wid d)"

lemma set_runs_same: "same_queue d (set_runs p f d)"
  by (simp add: same_queue_def set_runs_def list.rel_refl)

lemma housekeeping_same: "same_queue d (snd (ReapExpiredSessions d))" "same_queue d (snd (PruneLoginAttempts age d))"
  by (simp_all add: ReapExpiredSessions_def PruneLoginAttempts_def set_accounts_def same_queue_def list.rel_refl)

lemmas control_steps = tick_steps Advance_steps PlanInitial_steps delete_workers_steps same_queue_step set_workers_same
  set_runs_same SetRunStatus_same housekeeping_same

lemma control_step_queue: "control_step v s s' \<Longrightarrow> queue_step\<^sup>*\<^sup>* (snd s) (snd s')"
proof (induction rule: control_step.induct)
  case (cs_gateway s s')
  then show ?case by (rule gateway_step_queue)
qed (simp_all add: control_steps queue_step.qs_reap queue_step.qs_create queue_step.qs_cancel r_into_rtranclp
    MarkStaleWorkers_def ReapStaleLocalWorkers_def FailZombieRuns_def PauseRun_def ResumeRun_def
    SetWorkerStatus_def DeleteWorker_def Let_def)

text \<open>
  C1: Whatever the control plane does, the task queue stays sound. Any sequence of what workers do at the
  gateway (enrolments, connections, dispatch ticks, heartbeats, disconnections, deliveries, with any
  content), of scheduler ticks and sweeps, and of runs being created, planned, paused, resumed,
  cancelled and workers removed, changes the queue by steps of the queue only and keeps its invariant: a
  task in flight has a lease, a waiting one has none, and the counters of a run's targets are exact.
\<close>

theorem control_plane_keeps_queue:
  assumes "(control_step v)\<^sup>*\<^sup>* (g, d) (g', d')" and "queue_inv d"
  shows "queue_step\<^sup>*\<^sup>* d d' \<and> queue_inv d'"
proof -
  have "queue_step\<^sup>*\<^sup>* (snd (g, d)) (snd (g', d'))"
    using assms(1) by (induction rule: rtranclp_induct) (auto dest: control_step_queue)
  then show ?thesis using queue.run_inv assms(2) by simp
qed

lemma delivery_db_inv: "queue_inv (delivery_db [running_task])"
proof (rule same_queue_inv)
  show "queue_inv (one_task_db running_task)"
    by (rule one_task_inv) (simp_all add: running_task_def sample_task_def task_ok_def)
  show "same_queue (one_task_db running_task) (delivery_db [running_task])"
    by (simp add: same_queue_def one_task_db_def delivery_db_def ingest_db_def empty_db_def)
qed

text \<open>A worker delivers its results, the scheduler ticks, and the run is cancelled.\<close>

theorem control_plane_keeps_queue_witness:
  "queue_inv (CancelRunTasks 7 (snd (tick False (snd (snd
     (results toy_env 1 toy_request (Some (post batch True)) toy_gateway (delivery_db [running_task])))))))"
proof -
  let ?r = "results toy_env 1 toy_request (Some (post batch True)) toy_gateway (delivery_db [running_task])"
  let ?g = "fst (snd ?r)" and ?d = "snd (snd ?r)"
  have "gateway_step toy_env (toy_gateway, delivery_db [running_task]) (snd ?r)" by (rule gateway_step.gs_results)
  then have "control_step toy_env (toy_gateway, delivery_db [running_task]) (?g, ?d)"
    by (simp add: control_step.cs_gateway)
  moreover have "control_step toy_env (?g, ?d) (?g, snd (tick False ?d))" by (rule control_step.cs_tick)
  moreover have "control_step toy_env (?g, snd (tick False ?d)) (?g, CancelRunTasks 7 (snd (tick False ?d)))"
    by (rule control_step.cs_cancel)
  ultimately have "(control_step toy_env)\<^sup>*\<^sup>* (toy_gateway, delivery_db [running_task]) (?g, CancelRunTasks 7 (snd (tick False ?d)))"
    by (meson r_into_rtranclp rtranclp.rtrancl_into_rtrancl)
  from control_plane_keeps_queue [OF this delivery_db_inv] show ?thesis by blast
qed

end
